theory Spec2Isabelle
  imports Main "HOL-Library.Word"
begin

section \<open>The spr2 test harness of the rocBLAS clients\<close>

text \<open>
  The development embeds \<^verbatim>\<open>clients/include/blas2/testing_spr2.hpp\<close> and the parts of
  \<^verbatim>\<open>clients/include/utility.hpp\<close> it relies on. The harness is a driver: it computes
  buffer sizes, allocates, calls the vendor library and a reference BLAS, and compares.
  Everything it calls that is not defined in these two files (the vendor library, the
  HIP runtime, the vector classes, the check macros, the C library) is a field of a
  record of oracles, so every theorem holds for any behaviour of those collaborators.
\<close>

subsection \<open>Machine integers and buffer sizes\<close>

text \<open>
  \<^verbatim>\<open>rocblas_int\<close> is a 32-bit signed integer and \<^verbatim>\<open>size_t\<close> is 64 bits wide on the
  platforms of the library. A 32-bit value is kept as a word and read with \<open>sint\<close>.
  Signed overflow, which C++ leaves undefined, is modelled by the two's-complement
  wrap-around of the target; the conversion of an \<^verbatim>\<open>int\<close> to \<^verbatim>\<open>size_t\<close> extends the sign.
\<close>

type_synonym rocblas_int = "32 word"
type_synonym size_t = "64 word"

definition size_t_of_int :: "rocblas_int \<Rightarrow> size_t" where
  "size_t_of_int n = word_of_int (sint n)"

text \<open>\<^verbatim>\<open>size_t abs_incx = incx >= 0 ? incx : -incx;\<close> (lines 31 and 84)\<close>

definition abs_inc :: "rocblas_int \<Rightarrow> size_t" where
  "abs_inc inc = size_t_of_int (if 0 \<le> sint inc then inc else - inc)"

text \<open>\<^verbatim>\<open>size_t size_A = size_t(N) * (N + 1) / 2;\<close> (lines 33 and 86): the sum
  \<^verbatim>\<open>N + 1\<close> is an \<^verbatim>\<open>int\<close>, converted for the product.\<close>

definition size_A_of :: "rocblas_int \<Rightarrow> size_t" where
  "size_A_of N = size_t_of_int N * size_t_of_int (N + 1) div 2"

text \<open>\<^verbatim>\<open>size_t size_x = size_t(N) * abs_incx;\<close> (lines 34, 35, 87 and 88)\<close>

definition size_vec :: "rocblas_int \<Rightarrow> rocblas_int \<Rightarrow> size_t" where
  "size_vec N inc = size_t_of_int N * abs_inc inc"


subsection \<open>The vendor interface as the harness sees it\<close>

text \<open>
  The enumerations of \<^verbatim>\<open>rocblas.h\<close> and of the HIP runtime are not part of the two
  files; the constructors below are the values the harness names, and one more
  status standing for every other one.
\<close>

datatype rocblas_status =
    rocblas_status_success
  | rocblas_status_invalid_handle
  | rocblas_status_invalid_pointer
  | rocblas_status_invalid_size
  | rocblas_status_invalid_value
  | rocblas_status_internal_error

datatype rocblas_fill = rocblas_fill_upper | rocblas_fill_lower | rocblas_fill_full

datatype rocblas_pointer_mode = rocblas_pointer_mode_host | rocblas_pointer_mode_device

datatype hipError_t = hipSuccess | hipErrorOutOfMemory | hipErrorUnknown

type_synonym rocblas_handle = nat

text \<open>The vectors the two test functions declare: \<open>h\<close> for host memory, \<open>d\<close> for
  device memory.\<close>

datatype buf = hA_1 | hA_2 | hA_gold | hx | hy | halpha | dA_1 | dA_2 | dx | dy | d_alpha

text \<open>The scalar argument of the vendor function is a pointer: null, the address of a
  host variable (kept with the value stored there), or a device vector.\<close>

datatype 'a alpha_arg = alpha_null | alpha_host 'a | alpha_dev buf

text \<open>
  One call \<^verbatim>\<open>rocblas_spr2_fn(handle, uplo, N, alpha, x, incx, y, incy, A)\<close>, the arguments
  in the order of the source; the first field tells which of the two bindings
  \<^verbatim>\<open>arg.fortran\<close> selected. A null pointer is \<open>None\<close>.
\<close>

datatype 'a spr2_call = Spr2_call
  (fortran_p: bool)
  (handle_p: "rocblas_handle option")
  (uplo_p: rocblas_fill)
  (N_p: rocblas_int)
  (alpha_p: "'a alpha_arg")
  (x_p: "buf option")
  (incx_p: rocblas_int)
  (y_p: "buf option")
  (incy_p: rocblas_int)
  (A_p: "buf option")

text \<open>What the pointers of a call point to at the moment of the call.\<close>

datatype 'a operands = Operands
  (alpha_v: "'a option")
  (x_v: "'a list option")
  (y_v: "'a list option")
  (A_v: "'a list option")

text \<open>How the harness treats the status a vendor call returns.\<close>

datatype assertion = Expect rocblas_status | Check_error | Unchecked

datatype macro =
  CHECK_HIP_ERROR | CHECK_DEVICE_ALLOCATION | CHECK_ROCBLAS_ERROR | EXPECT_ROCBLAS_STATUS

subsection \<open>Traces\<close>

text \<open>
  A run of the harness is observed as the sequence of its calls into its collaborators.
  A vendor or reference call records the operands it was given, and a comparison the
  contents of the two vectors it was given; \<open>Log_args\<close> records the values of the local
  variables it was passed, \<open>None\<close> for a variable never assigned.
\<close>

datatype ('a, 'd) event =
    Create_handle rocblas_handle
  | Destroy_handle rocblas_handle
  | Host_vector buf size_t
  | Device_vector buf size_t
  | Rocblas_init buf bool "'a list"
  | Transfer buf buf
  | Set_pointer_mode rocblas_pointer_mode
  | Rocblas_spr2 "rocblas_pointer_mode option" "'a spr2_call" "'a operands" assertion
  | Cblas_spr2 rocblas_fill rocblas_int 'a "'a list" rocblas_int "'a list" rocblas_int buf "'a list"
  | Unit_check_general size_t size_t size_t buf "'a list" buf "'a list"
  | Norm_check_general char size_t size_t size_t buf "'a list" buf "'a list"
  | Get_time_us_no_sync
  | Get_stream
  | Get_time_us_sync
  | Log_args "'d option" 'd 'd "'d option" "'d option" "'d option"

subsection \<open>The collaborators\<close>

text \<open>
  Everything the harness calls and the two files do not define. A clock depends on the
  moment of the call and takes the length of the trace so far; the random generator is
  called once for each vector it fills and takes the vector. \<open>fatal m\<close> tells whether a
  failed check by macro \<open>m\<close> returns from the test function; a check fails when the
  status it is given is not the expected one.
\<close>

record ('a, 'd) world =
  fatal :: "macro \<Rightarrow> bool"
  create_handle :: "nat \<Rightarrow> rocblas_handle"
  char2rocblas_fill :: "char \<Rightarrow> rocblas_fill"
  point_six :: 'a
  junk :: 'a
  memcheck :: "buf \<Rightarrow> hipError_t"
  transfer :: "buf \<Rightarrow> buf \<Rightarrow> hipError_t"
  rocblas_init :: "buf \<Rightarrow> bool \<Rightarrow> nat \<Rightarrow> 'a list"
  set_pointer_mode :: "rocblas_pointer_mode \<Rightarrow> rocblas_status"
  get_stream :: rocblas_status
  spr2_status :: "rocblas_pointer_mode option \<Rightarrow> 'a spr2_call \<Rightarrow> 'a operands \<Rightarrow> rocblas_status"
  spr2_update :: "rocblas_pointer_mode option \<Rightarrow> 'a spr2_call \<Rightarrow> 'a operands \<Rightarrow> 'a list"
  cblas_spr2 :: "rocblas_fill \<Rightarrow> rocblas_int \<Rightarrow> 'a \<Rightarrow> 'a list \<Rightarrow> rocblas_int \<Rightarrow> 'a list
    \<Rightarrow> rocblas_int \<Rightarrow> 'a list \<Rightarrow> 'a list"
  norm_check_general :: "'a list \<Rightarrow> 'a list \<Rightarrow> 'd"
  get_time_us_no_sync :: "nat \<Rightarrow> 'd"
  get_time_us_sync :: "nat \<Rightarrow> 'd"
  minus_double :: "'d \<Rightarrow> 'd \<Rightarrow> 'd"
  spr2_gflop_count :: "rocblas_int \<Rightarrow> 'd"
  spr2_gbyte_count :: "rocblas_int \<Rightarrow> 'd"

text \<open>The fields of \<^verbatim>\<open>Arguments\<close> the two functions read.\<close>

record 'a Arguments =
  fortran :: bool
  N :: rocblas_int
  incx :: rocblas_int
  incy :: rocblas_int
  alpha :: 'a
  uplo :: char
  unit_check :: bool
  norm_check :: bool
  timing :: bool
  cold_iters :: rocblas_int
  iters :: rocblas_int

subsection \<open>The activation of a test function\<close>

text \<open>
  The state of one call: the trace, whether the function has returned, the contents of
  the vectors, the pointer mode of the handle, the member of the local
  \<^verbatim>\<open>rocblas_local_handle\<close>, and the four local \<^verbatim>\<open>double\<close> variables, which are declared
  without an initialiser (lines 118 to 120).
\<close>

record ('a, 'd) frame =
  trace :: "('a, 'd) event list"
  returned :: bool
  mem :: "buf \<Rightarrow> 'a list"
  pointer_mode :: "rocblas_pointer_mode option"
  handle :: rocblas_handle
  gpu_time_used :: "'d option"
  cpu_time_used :: "'d option"
  rocblas_error_1 :: "'d option"
  rocblas_error_2 :: "'d option"

type_synonym ('a, 'd) stmt = "('a, 'd) frame \<Rightarrow> ('a, 'd) frame"

definition entry :: "('a, 'd) frame" where
  "entry = \<lparr>trace = [], returned = False, mem = (\<lambda>b. []), pointer_mode = None, handle = 0,
     gpu_time_used = None, cpu_time_used = None, rocblas_error_1 = None,
     rocblas_error_2 = None\<rparr>"

text \<open>A block runs its statements in order and stops at a return.\<close>

fun exec :: "('a, 'd) stmt list \<Rightarrow> ('a, 'd) stmt" where
  "exec [] s = s"
| "exec (c # cs) s = (if returned s then s else exec cs (c s))"

definition emit :: "('a, 'd) event \<Rightarrow> ('a, 'd) stmt" where
  "emit e s = s\<lparr>trace := trace s @ [e]\<rparr>"

definition return_if :: "bool \<Rightarrow> ('a, 'd) stmt" where
  "return_if b s = (if b then s\<lparr>returned := True\<rparr> else s)"

definition store :: "buf \<Rightarrow> 'a list \<Rightarrow> ('a, 'd) stmt" where
  "store b v s = s\<lparr>mem := (mem s)(b := v)\<rparr>"

text \<open>\<^verbatim>\<open>for(int iter = 0; iter < n; iter++) body\<close>\<close>

function for_loop :: "int \<Rightarrow> int \<Rightarrow> ('a, 'd) stmt \<Rightarrow> ('a, 'd) stmt" where
  "for_loop iter n body s =
     (if iter < n \<and> \<not> returned s then for_loop (iter + 1) n body (body s) else s)"
  by pat_completeness auto
termination
  by (relation "measure (\<lambda>(iter, n, body, s). nat (n - iter))") auto

declare for_loop.simps [simp del]


subsection \<open>The local handle of \<^verbatim>\<open>utility.hpp\<close>\<close>

text \<open>
  Class \<^verbatim>\<open>rocblas_local_handle\<close> (lines 36 to 59) has one member, a constructor that calls
  \<^verbatim>\<open>rocblas_create_handle(&handle)\<close>, a destructor that calls
  \<^verbatim>\<open>rocblas_destroy_handle(handle)\<close>, and two conversion operators that return a reference
  to the member. The test functions construct it as \<^verbatim>\<open>handle{arg}\<close>; the class of this file
  has the default constructor only, which is the one modelled. A test function has one
  object of the class, and the member of that object is a field of its state.
\<close>

definition rocblas_local_handle_ctor :: "('a, 'd) world \<Rightarrow> ('a, 'd) stmt" where
  "rocblas_local_handle_ctor w s =
     (let h = create_handle w (length (trace s)) in emit (Create_handle h) (s\<lparr>handle := h\<rparr>))"

definition rocblas_local_handle_dtor :: "('a, 'd) stmt" where
  "rocblas_local_handle_dtor s = emit (Destroy_handle (handle s)) s"

text \<open>
  The class declares no copy constructor and no copy assignment operator and deletes
  neither, so the language declares both; each copies the member and calls nothing. The
  conversion to \<^verbatim>\<open>rocblas_handle&\<close> yields the member itself, which can be read or
  assigned through the reference. These are the operations on the objects of the class,
  an object being named by a number:
  \<^verbatim>\<open>rocblas_local_handle a;\<close>, \<^verbatim>\<open>rocblas_local_handle b(a);\<close>, \<^verbatim>\<open>b = a;\<close>,
  a read of \<^verbatim>\<open>(rocblas_handle&)a\<close>, \<^verbatim>\<open>(rocblas_handle&)a = h;\<close>, and the end of the
  scope of \<^verbatim>\<open>a\<close>.
\<close>

datatype local_handle_op =
    Default_construct nat
  | Copy_construct nat nat
  | Copy_assign nat nat
  | Read_through_conversion nat
  | Write_through_conversion nat rocblas_handle
  | Destruct nat

text \<open>The objects alive, each with its member, and the calls made into the library.\<close>

type_synonym ('a, 'd) local_handles = "(nat \<Rightarrow> rocblas_handle option) \<times> ('a, 'd) event list"

fun local_handle_step ::
  "('a, 'd) world \<Rightarrow> local_handle_op \<Rightarrow> ('a, 'd) local_handles \<Rightarrow> ('a, 'd) local_handles" where
  "local_handle_step w (Default_construct a) (objs, lib) =
     (let h = create_handle w (length lib) in (objs(a := Some h), lib @ [Create_handle h]))"
| "local_handle_step w (Copy_construct b a) (objs, lib) =
     (case objs a of None \<Rightarrow> (objs, lib) | Some h \<Rightarrow> (objs(b := Some h), lib))"
| "local_handle_step w (Copy_assign b a) (objs, lib) =
     (case (objs b, objs a) of (Some g, Some h) \<Rightarrow> (objs(b := Some h), lib) | _ \<Rightarrow> (objs, lib))"
| "local_handle_step w (Read_through_conversion a) (objs, lib) = (objs, lib)"
| "local_handle_step w (Write_through_conversion a h) (objs, lib) =
     (case objs a of None \<Rightarrow> (objs, lib) | Some g \<Rightarrow> (objs(a := Some h), lib))"
| "local_handle_step w (Destruct a) (objs, lib) =
     (case objs a of
        None \<Rightarrow> (objs, lib)
      | Some h \<Rightarrow> (objs(a := None), lib @ [Destroy_handle h]))"

text \<open>A sequence of operations, from no object and no call.\<close>

definition local_handle_ops ::
  "('a, 'd) world \<Rightarrow> local_handle_op list \<Rightarrow> ('a, 'd) local_handles" where
  "local_handle_ops w ops = fold (local_handle_step w) ops (\<lambda>a. None, [])"

subsection \<open>The statements of the test functions\<close>

text \<open>A check macro applied to a HIP status.\<close>

definition check_hip :: "('a, 'd) world \<Rightarrow> macro \<Rightarrow> hipError_t \<Rightarrow> ('a, 'd) stmt" where
  "check_hip w m e = return_if (fatal w m \<and> e \<noteq> hipSuccess)"

text \<open>\<^verbatim>\<open>host_vector<T> b(size);\<close> and \<^verbatim>\<open>device_vector<T> b(size);\<close>\<close>

definition host_vector :: "('a, 'd) world \<Rightarrow> buf \<Rightarrow> size_t \<Rightarrow> ('a, 'd) stmt" where
  "host_vector w b n s = store b (replicate (unat n) (junk w)) (emit (Host_vector b n) s)"

definition device_vector :: "('a, 'd) world \<Rightarrow> buf \<Rightarrow> size_t \<Rightarrow> ('a, 'd) stmt" where
  "device_vector w b n s = store b (replicate (unat n) (junk w)) (emit (Device_vector b n) s)"

text \<open>\<^verbatim>\<open>CHECK_HIP_ERROR(b.memcheck());\<close> and \<^verbatim>\<open>CHECK_DEVICE_ALLOCATION(b.memcheck());\<close>\<close>

definition checked_memcheck :: "('a, 'd) world \<Rightarrow> macro \<Rightarrow> buf \<Rightarrow> ('a, 'd) stmt" where
  "checked_memcheck w m b = check_hip w m (memcheck w b)"

text \<open>\<^verbatim>\<open>rocblas_init(b, flag);\<close>\<close>

definition init_vector :: "('a, 'd) world \<Rightarrow> buf \<Rightarrow> bool \<Rightarrow> ('a, 'd) stmt" where
  "init_vector w b flag s =
     (let v = rocblas_init w b flag (length (mem s b))
      in store b v (emit (Rocblas_init b flag v) s))"

text \<open>\<^verbatim>\<open>dst = src;\<close> on host vectors.\<close>

definition assign :: "buf \<Rightarrow> buf \<Rightarrow> ('a, 'd) stmt" where
  "assign dst src s = store dst (mem s src) s"

text \<open>\<^verbatim>\<open>CHECK_HIP_ERROR(dst.transfer_from(src));\<close> A transfer that reports a failure is
  taken to leave the destination as it was.\<close>

definition transfer_from :: "('a, 'd) world \<Rightarrow> buf \<Rightarrow> buf \<Rightarrow> ('a, 'd) stmt" where
  "transfer_from w dst src s =
     (let e = transfer w dst src
      in check_hip w CHECK_HIP_ERROR e
           (store dst (if e = hipSuccess then mem s src else mem s dst)
              (emit (Transfer dst src) s)))"

text \<open>\<^verbatim>\<open>CHECK_ROCBLAS_ERROR(rocblas_set_pointer_mode(handle, mode));\<close>\<close>

definition set_mode :: "('a, 'd) world \<Rightarrow> rocblas_pointer_mode \<Rightarrow> ('a, 'd) stmt" where
  "set_mode w m s =
     (let st = set_pointer_mode w m
      in return_if (fatal w CHECK_ROCBLAS_ERROR \<and> st \<noteq> rocblas_status_success)
           ((emit (Set_pointer_mode m) s)
              \<lparr>pointer_mode := (if st = rocblas_status_success then Some m else pointer_mode s)\<rparr>))"

definition operands_of :: "(buf \<Rightarrow> 'a list) \<Rightarrow> 'a spr2_call \<Rightarrow> 'a operands" where
  "operands_of m c =
     Operands
       (case alpha_p c of
          alpha_null \<Rightarrow> None
        | alpha_host v \<Rightarrow> Some v
        | alpha_dev b \<Rightarrow> (case m b of [] \<Rightarrow> None | v # vs \<Rightarrow> Some v))
       (map_option m (x_p c)) (map_option m (y_p c)) (map_option m (A_p c))"

definition assertion_returns :: "('a, 'd) world \<Rightarrow> assertion \<Rightarrow> rocblas_status \<Rightarrow> bool" where
  "assertion_returns w a st =
     (case a of
        Expect e \<Rightarrow> fatal w EXPECT_ROCBLAS_STATUS \<and> st \<noteq> e
      | Check_error \<Rightarrow> fatal w CHECK_ROCBLAS_ERROR \<and> st \<noteq> rocblas_status_success
      | Unchecked \<Rightarrow> False)"

text \<open>
  A call of the vendor function, bare or wrapped in \<^verbatim>\<open>EXPECT_ROCBLAS_STATUS\<close> or
  \<^verbatim>\<open>CHECK_ROCBLAS_ERROR\<close>. The vendor function writes nothing but the matrix, and a call
  that reports a failure is taken to leave the matrix as it was.
\<close>

definition rocblas_spr2_fn :: "('a, 'd) world \<Rightarrow> assertion \<Rightarrow> 'a spr2_call \<Rightarrow> ('a, 'd) stmt" where
  "rocblas_spr2_fn w a c s =
     (let ops = operands_of (mem s) c;
          st = spr2_status w (pointer_mode s) c ops;
          s1 = emit (Rocblas_spr2 (pointer_mode s) c ops a) s;
          s2 = (case A_p c of
                  None \<Rightarrow> s1
                | Some b \<Rightarrow>
                    store b (if st = rocblas_status_success
                             then spr2_update w (pointer_mode s) c ops else mem s b) s1)
      in return_if (assertion_returns w a st) s2)"

text \<open>\<^verbatim>\<open>cblas_spr2<T>(uplo, N, h_alpha, hx, incx, hy, incy, hA_gold);\<close>\<close>

definition call_cblas_spr2 ::
  "('a, 'd) world \<Rightarrow> rocblas_fill \<Rightarrow> rocblas_int \<Rightarrow> 'a \<Rightarrow> buf \<Rightarrow> rocblas_int \<Rightarrow> buf \<Rightarrow> rocblas_int
     \<Rightarrow> buf \<Rightarrow> ('a, 'd) stmt" where
  "call_cblas_spr2 w ul n al x ix y iy a s =
     store a (cblas_spr2 w ul n al (mem s x) ix (mem s y) iy (mem s a))
       (emit (Cblas_spr2 ul n al (mem s x) ix (mem s y) iy a (mem s a)) s)"

text \<open>The two reads of the clock around the reference call (lines 148 and 150).\<close>

definition cpu_timer_start :: "('a, 'd) world \<Rightarrow> ('a, 'd) stmt" where
  "cpu_timer_start w s =
     (emit Get_time_us_no_sync s)\<lparr>cpu_time_used := Some (get_time_us_no_sync w (length (trace s)))\<rparr>"

definition cpu_timer_stop :: "('a, 'd) world \<Rightarrow> ('a, 'd) stmt" where
  "cpu_timer_stop w s =
     (emit Get_time_us_no_sync s)\<lparr>cpu_time_used :=
        map_option (minus_double w (get_time_us_no_sync w (length (trace s)))) (cpu_time_used s)\<rparr>"

text \<open>\<^verbatim>\<open>unit_check_general<T>(1, size_A, 1, hA_gold, b);\<close>\<close>

definition unit_check_stmt :: "size_t \<Rightarrow> buf \<Rightarrow> buf \<Rightarrow> ('a, 'd) stmt" where
  "unit_check_stmt n gold b s =
     emit (Unit_check_general 1 n 1 gold (mem s gold) b (mem s b)) s"

text \<open>\<^verbatim>\<open>rocblas_error_k = norm_check_general<T>('F', 1, size_A, 1, hA_gold, b);\<close>\<close>

definition norm_check_1 :: "('a, 'd) world \<Rightarrow> size_t \<Rightarrow> buf \<Rightarrow> buf \<Rightarrow> ('a, 'd) stmt" where
  "norm_check_1 w n gold b s =
     (emit (Norm_check_general CHR ''F'' 1 n 1 gold (mem s gold) b (mem s b)) s)
       \<lparr>rocblas_error_1 := Some (norm_check_general w (mem s gold) (mem s b))\<rparr>"

definition norm_check_2 :: "('a, 'd) world \<Rightarrow> size_t \<Rightarrow> buf \<Rightarrow> buf \<Rightarrow> ('a, 'd) stmt" where
  "norm_check_2 w n gold b s =
     (emit (Norm_check_general CHR ''F'' 1 n 1 gold (mem s gold) b (mem s b)) s)
       \<lparr>rocblas_error_2 := Some (norm_check_general w (mem s gold) (mem s b))\<rparr>"

text \<open>\<^verbatim>\<open>CHECK_ROCBLAS_ERROR(rocblas_get_stream(handle, &stream));\<close>\<close>

definition get_stream_stmt :: "('a, 'd) world \<Rightarrow> ('a, 'd) stmt" where
  "get_stream_stmt w s =
     return_if (fatal w CHECK_ROCBLAS_ERROR \<and> get_stream w \<noteq> rocblas_status_success)
       (emit Get_stream s)"

text \<open>The two reads of the stream-synchronised clock (lines 182 and 189).\<close>

definition gpu_timer_start :: "('a, 'd) world \<Rightarrow> ('a, 'd) stmt" where
  "gpu_timer_start w s =
     (emit Get_time_us_sync s)\<lparr>gpu_time_used := Some (get_time_us_sync w (length (trace s)))\<rparr>"

definition gpu_timer_stop :: "('a, 'd) world \<Rightarrow> ('a, 'd) stmt" where
  "gpu_timer_stop w s =
     (emit Get_time_us_sync s)\<lparr>gpu_time_used :=
        map_option (minus_double w (get_time_us_sync w (length (trace s)))) (gpu_time_used s)\<rparr>"

text \<open>The call of \<^verbatim>\<open>log_args\<close> (lines 191 to 198): the local variables are passed by
  value, whether or not they were ever assigned.\<close>

definition log_args :: "('a, 'd) world \<Rightarrow> rocblas_int \<Rightarrow> ('a, 'd) stmt" where
  "log_args w n s =
     emit (Log_args (gpu_time_used s) (spr2_gflop_count w n) (spr2_gbyte_count w n)
             (cpu_time_used s) (rocblas_error_1 s) (rocblas_error_2 s)) s"


text \<open>Passing \<^verbatim>\<open>handle\<close> where a \<^verbatim>\<open>rocblas_handle\<close> is expected goes through the conversion
  operator of the local handle; the function called takes the member by value.\<close>

definition with_handle :: "(rocblas_handle \<Rightarrow> ('a, 'd) stmt) \<Rightarrow> ('a, 'd) stmt" where
  "with_handle k s = k (handle s) s"

text \<open>\<^verbatim>\<open>halpha[0] = h_alpha;\<close>\<close>

definition store_at :: "buf \<Rightarrow> nat \<Rightarrow> 'a \<Rightarrow> ('a, 'd) stmt" where
  "store_at b i v s = store b ((mem s b)[i := v]) s"

subsection \<open>\<^verbatim>\<open>testing_spr2_bad_arg\<close> (lines 19 to 60)\<close>

definition bad_arg_body :: "('a, 'd) world \<Rightarrow> 'a Arguments \<Rightarrow> ('a, 'd) stmt list" where
  "bad_arg_body w arg =
     (let f = fortran arg;
          ul = rocblas_fill_upper;
          n = 100;
          ix = 1;
          iy = 1;
          al = point_six w;
          size_A = size_A_of n;
          size_x = size_vec n ix;
          size_y = size_vec n iy
      in [rocblas_local_handle_ctor w,
          device_vector w dA_1 size_A,
          device_vector w dx size_x,
          device_vector w dy size_y,
          checked_memcheck w CHECK_DEVICE_ALLOCATION dA_1,
          checked_memcheck w CHECK_DEVICE_ALLOCATION dx,
          checked_memcheck w CHECK_DEVICE_ALLOCATION dy,
          with_handle (\<lambda>h. rocblas_spr2_fn w (Expect rocblas_status_invalid_value)
            (Spr2_call f (Some h) rocblas_fill_full n (alpha_host al)
               (Some dx) ix (Some dy) iy (Some dA_1))),
          with_handle (\<lambda>h. rocblas_spr2_fn w (Expect rocblas_status_invalid_pointer)
            (Spr2_call f (Some h) ul n (alpha_host al) None ix (Some dy) iy (Some dA_1))),
          with_handle (\<lambda>h. rocblas_spr2_fn w (Expect rocblas_status_invalid_pointer)
            (Spr2_call f (Some h) ul n (alpha_host al) (Some dx) ix None iy (Some dA_1))),
          with_handle (\<lambda>h. rocblas_spr2_fn w (Expect rocblas_status_invalid_pointer)
            (Spr2_call f (Some h) ul n (alpha_host al) (Some dx) ix (Some dy) iy None)),
          rocblas_spr2_fn w (Expect rocblas_status_invalid_handle)
            (Spr2_call f None ul n (alpha_host al) (Some dx) ix (Some dy) iy (Some dA_1))])"

text \<open>The local handle is destroyed when the function is left, at its end or at a return.\<close>

definition testing_spr2_bad_arg :: "('a, 'd) world \<Rightarrow> 'a Arguments \<Rightarrow> ('a, 'd) frame" where
  "testing_spr2_bad_arg w arg = rocblas_local_handle_dtor (exec (bad_arg_body w arg) entry)"

subsection \<open>\<^verbatim>\<open>testing_spr2\<close> (lines 62 to 200)\<close>

text \<open>Lines 74 to 82: the argument check before any allocation.\<close>

definition argument_check :: "('a, 'd) world \<Rightarrow> 'a Arguments \<Rightarrow> ('a, 'd) stmt list" where
  "argument_check w arg =
     (if sint (N arg) < 0 \<or> incx arg = 0 \<or> incy arg = 0
      then [with_handle (\<lambda>h. rocblas_spr2_fn w (Expect rocblas_status_invalid_size)
              (Spr2_call (fortran arg) (Some h) (char2rocblas_fill w (uplo arg)) (N arg)
                 alpha_null None (incx arg) None (incy arg) None)),
            return_if True]
      else [])"

text \<open>Lines 84 to 116: the sizes, the host vectors, the scalar, the device vectors.\<close>

definition allocate :: "('a, 'd) world \<Rightarrow> 'a Arguments \<Rightarrow> ('a, 'd) stmt list" where
  "allocate w arg =
     (let size_A = size_A_of (N arg);
          size_x = size_vec (N arg) (incx arg);
          size_y = size_vec (N arg) (incy arg)
      in [host_vector w hA_1 size_A,
          host_vector w hA_2 size_A,
          host_vector w hA_gold size_A,
          host_vector w hx size_x,
          host_vector w hy size_y,
          host_vector w halpha 1,
          checked_memcheck w CHECK_HIP_ERROR hA_1,
          checked_memcheck w CHECK_HIP_ERROR hA_2,
          checked_memcheck w CHECK_HIP_ERROR hA_gold,
          checked_memcheck w CHECK_HIP_ERROR hx,
          checked_memcheck w CHECK_HIP_ERROR hy,
          checked_memcheck w CHECK_HIP_ERROR halpha,
          store_at halpha 0 (alpha arg),
          device_vector w dA_1 size_A,
          device_vector w dA_2 size_A,
          device_vector w dx size_x,
          device_vector w dy size_y,
          device_vector w d_alpha 1,
          checked_memcheck w CHECK_DEVICE_ALLOCATION dA_1,
          checked_memcheck w CHECK_DEVICE_ALLOCATION dA_2,
          checked_memcheck w CHECK_DEVICE_ALLOCATION dx,
          checked_memcheck w CHECK_DEVICE_ALLOCATION dy,
          checked_memcheck w CHECK_DEVICE_ALLOCATION d_alpha])"

text \<open>Lines 122 to 137: the initial data and its copies.\<close>

definition initialise :: "('a, 'd) world \<Rightarrow> ('a, 'd) stmt list" where
  "initialise w =
     [init_vector w hA_1 True,
      init_vector w hx False,
      init_vector w hy False,
      assign hA_gold hA_1,
      assign hA_2 hA_1,
      transfer_from w dA_1 hA_1,
      transfer_from w dA_2 hA_1,
      transfer_from w dx hx,
      transfer_from w dy hy,
      transfer_from w d_alpha halpha]"

text \<open>Lines 139 to 167: the correctness run.\<close>

definition correctness :: "('a, 'd) world \<Rightarrow> 'a Arguments \<Rightarrow> ('a, 'd) stmt list" where
  "correctness w arg =
     (if unit_check arg \<or> norm_check arg
      then
        [set_mode w rocblas_pointer_mode_host,
         with_handle (\<lambda>h. rocblas_spr2_fn w Check_error
           (Spr2_call (fortran arg) (Some h) (char2rocblas_fill w (uplo arg)) (N arg)
              (alpha_host (alpha arg)) (Some dx) (incx arg) (Some dy) (incy arg) (Some dA_1))),
         set_mode w rocblas_pointer_mode_device,
         with_handle (\<lambda>h. rocblas_spr2_fn w Check_error
           (Spr2_call (fortran arg) (Some h) (char2rocblas_fill w (uplo arg)) (N arg)
              (alpha_dev d_alpha) (Some dx) (incx arg) (Some dy) (incy arg) (Some dA_2))),
         cpu_timer_start w,
         call_cblas_spr2 w (char2rocblas_fill w (uplo arg)) (N arg) (alpha arg)
           hx (incx arg) hy (incy arg) hA_gold,
         cpu_timer_stop w,
         transfer_from w hA_1 dA_1,
         transfer_from w hA_2 dA_2]
        @ (if unit_check arg
           then [unit_check_stmt (size_A_of (N arg)) hA_gold hA_1,
                 unit_check_stmt (size_A_of (N arg)) hA_gold hA_2]
           else [])
        @ (if norm_check arg
           then [norm_check_1 w (size_A_of (N arg)) hA_gold hA_1,
                 norm_check_2 w (size_A_of (N arg)) hA_gold hA_2]
           else [])
      else [])"

text \<open>The call both timing loops repeat (lines 177 and 186).\<close>

definition timed_call :: "('a, 'd) world \<Rightarrow> 'a Arguments \<Rightarrow> ('a, 'd) stmt" where
  "timed_call w arg =
     with_handle (\<lambda>h. rocblas_spr2_fn w Unchecked
       (Spr2_call (fortran arg) (Some h) (char2rocblas_fill w (uplo arg)) (N arg)
          (alpha_host (alpha arg)) (Some dx) (incx arg) (Some dy) (incy arg) (Some dA_1)))"

text \<open>Lines 169 to 199: the timing run.\<close>

definition benchmark :: "('a, 'd) world \<Rightarrow> 'a Arguments \<Rightarrow> ('a, 'd) stmt list" where
  "benchmark w arg =
     (if timing arg
      then
        (let number_cold_calls = sint (cold_iters arg);
             number_hot_calls = sint (iters arg)
         in [set_mode w rocblas_pointer_mode_host,
             for_loop 0 number_cold_calls (timed_call w arg),
             get_stream_stmt w,
             gpu_timer_start w,
             for_loop 0 number_hot_calls (timed_call w arg),
             gpu_timer_stop w,
             log_args w (N arg)])
      else [])"

definition testing_spr2 :: "('a, 'd) world \<Rightarrow> 'a Arguments \<Rightarrow> ('a, 'd) frame" where
  "testing_spr2 w arg =
     rocblas_local_handle_dtor
       (exec
          (rocblas_local_handle_ctor w # argument_check w arg @ allocate w arg @ initialise w
             @ correctness w arg @ benchmark w arg)
          entry)"

text \<open>The state of a run at line 138, before the correctness run, and at line 168,
  before the timing run.\<close>

definition prepared :: "('a, 'd) world \<Rightarrow> 'a Arguments \<Rightarrow> ('a, 'd) frame" where
  "prepared w arg =
     exec (rocblas_local_handle_ctor w # argument_check w arg @ allocate w arg @ initialise w)
       entry"

definition through_correctness :: "('a, 'd) world \<Rightarrow> 'a Arguments \<Rightarrow> ('a, 'd) frame" where
  "through_correctness w arg =
     exec (rocblas_local_handle_ctor w # argument_check w arg @ allocate w arg @ initialise w
             @ correctness w arg) entry"


subsection \<open>\<^verbatim>\<open>rocblas_print_helper::print_value\<close> for \<^verbatim>\<open>double\<close> (lines 96 to 113)\<close>

text \<open>
  The classification of a \<^verbatim>\<open>double\<close> and its formatting belong to the C library; they are
  the fields of \<open>c_library\<close>, over any type \<open>'x\<close> of values. A C string is the list of its
  characters before the terminating zero.
\<close>

record 'x c_library =
  isnan :: "'x \<Rightarrow> bool"
  isinf :: "'x \<Rightarrow> bool"
  less_zero :: "'x \<Rightarrow> bool"
  format_17g :: "'x \<Rightarrow> string"

text \<open>\<^verbatim>\<open>snprintf(s, n, "%.17g", x)\<close> stores at most \<open>n - 1\<close> characters.\<close>

definition snprintf_17g :: "'x c_library \<Rightarrow> nat \<Rightarrow> 'x \<Rightarrow> string" where
  "snprintf_17g L n x = take (n - 1) (format_17g L x)"

text \<open>\<^verbatim>\<open>strcspn(s, reject)\<close>: the length of the longest prefix of \<open>s\<close> without a
  character of \<open>reject\<close>.\<close>

fun strcspn :: "string \<Rightarrow> string \<Rightarrow> nat" where
  "strcspn [] reject = 0"
| "strcspn (c # cs) reject = (if c \<in> set reject then 0 else Suc (strcspn cs reject))"

text \<open>\<^verbatim>\<open>strcpy(end, t)\<close> where \<open>end\<close> points \<open>k\<close> characters into \<open>s\<close>.\<close>

definition strcpy_at :: "string \<Rightarrow> nat \<Rightarrow> string \<Rightarrow> string" where
  "strcpy_at s k t = take k s @ t"

text \<open>The stream is the text written to it so far.\<close>

definition print_value :: "'x c_library \<Rightarrow> string \<Rightarrow> 'x \<Rightarrow> string" where
  "print_value L os x =
     (if isnan L x then os @ ''.nan''
      else if isinf L x then os @ (if less_zero L x then ''-.inf'' else ''.inf'')
      else
        (let s = snprintf_17g L (32 - 2) x;
             end = strcspn s ''.eE''
         in os @ (if drop end s = [] then strcpy_at s end ''.0'' else s)))"

subsection \<open>Reading a trace\<close>

text \<open>The vendor calls of a trace with the way each was checked, and the reference
  calls, each with the vector it updates and the operands it was given.\<close>

fun vendor_calls :: "('a, 'd) event list \<Rightarrow> ('a spr2_call \<times> assertion) list" where
  "vendor_calls [] = []"
| "vendor_calls (Rocblas_spr2 m c ops a # es) = (c, a) # vendor_calls es"
| "vendor_calls (e # es) = vendor_calls es"

text \<open>An event without the values it carries: the operands of a call, the pointer
  mode in force, the data a generator produced, the contents compared, the numbers
  passed to the logger.\<close>

fun outline :: "('a, 'd) event \<Rightarrow> ('a, unit) event" where
  "outline (Create_handle h) = Create_handle h"
| "outline (Destroy_handle h) = Destroy_handle h"
| "outline (Host_vector b n) = Host_vector b n"
| "outline (Device_vector b n) = Device_vector b n"
| "outline (Rocblas_init b f v) = Rocblas_init b f []"
| "outline (Transfer d s) = Transfer d s"
| "outline (Set_pointer_mode m) = Set_pointer_mode m"
| "outline (Rocblas_spr2 m c ops a) = Rocblas_spr2 None c (Operands None None None None) a"
| "outline (Cblas_spr2 ul n al x ix y iy a v) = Cblas_spr2 ul n al [] ix [] iy a []"
| "outline (Unit_check_general m n l g gv b bv) = Unit_check_general m n l g [] b []"
| "outline (Norm_check_general t m n l g gv b bv) = Norm_check_general t m n l g [] b []"
| "outline Get_time_us_no_sync = Get_time_us_no_sync"
| "outline Get_stream = Get_stream"
| "outline Get_time_us_sync = Get_time_us_sync"
| "outline (Log_args g f b c e1 e2) = Log_args None () () None None None"

definition is_allocation :: "('a, 'd) event \<Rightarrow> bool" where
  "is_allocation e = (case e of Host_vector b n \<Rightarrow> True | Device_vector b n \<Rightarrow> True | _ \<Rightarrow> False)"

text \<open>The vectors a trace allocates, with their sizes.\<close>

fun allocated :: "('a, 'd) event list \<Rightarrow> (buf \<times> size_t) list" where
  "allocated [] = []"
| "allocated (Host_vector b n # es) = (b, n) # allocated es"
| "allocated (Device_vector b n # es) = (b, n) # allocated es"
| "allocated (e # es) = allocated es"

text \<open>The data the generator produced, with the vector it went to.\<close>

fun initial_data :: "('a, 'd) event list \<Rightarrow> (buf \<times> 'a list) list" where
  "initial_data [] = []"
| "initial_data (Rocblas_init b f v # es) = (b, v) # initial_data es"
| "initial_data (e # es) = initial_data es"

text \<open>The invocations of the correctness run (the vendor calls under
  \<^verbatim>\<open>CHECK_ROCBLAS_ERROR\<close> and the reference calls): the matrix each updates and the
  operands it was given.\<close>

fun invocation_inputs :: "('a, 'd) event list \<Rightarrow> (buf option \<times> 'a operands) list" where
  "invocation_inputs [] = []"
| "invocation_inputs (Rocblas_spr2 m c ops Check_error # es) = (A_p c, ops) # invocation_inputs es"
| "invocation_inputs (Cblas_spr2 ul n al xv ix yv iy a av # es) =
     (Some a, Operands (Some al) (Some xv) (Some yv) (Some av)) # invocation_inputs es"
| "invocation_inputs (e # es) = invocation_inputs es"

text \<open>The outline of the call the timing loops repeat.\<close>

definition timed_outline :: "('a, 'd) world \<Rightarrow> 'a Arguments \<Rightarrow> ('a, unit) event" where
  "timed_outline w arg =
     Rocblas_spr2 None
       (Spr2_call (fortran arg) (Some (create_handle w 0)) (char2rocblas_fill w (uplo arg))
          (N arg) (alpha_host (alpha arg)) (Some dx) (incx arg) (Some dy) (incy arg) (Some dA_1))
       (Operands None None None None) Unchecked"

text \<open>The calls of a trace that create or destroy a handle.\<close>

fun handle_events :: "('a, 'd) event list \<Rightarrow> ('a, 'd) event list" where
  "handle_events [] = []"
| "handle_events (Create_handle h # es) = Create_handle h # handle_events es"
| "handle_events (Destroy_handle h # es) = Destroy_handle h # handle_events es"
| "handle_events (e # es) = handle_events es"

subsection \<open>Runs that are not cut short\<close>

text \<open>
  A failed check may end the function early. These notions serve to reason about the
  runs that a check does not end, and about what holds of every run: the world in which
  no check is fatal, two statements that do the same whenever the first does not return,
  two statements that do the same but for returning, a statement that does not return,
  and a statement that only adds events of one kind to the trace.
\<close>

definition lenient :: "('a, 'd) world \<Rightarrow> ('a, 'd) world" where
  "lenient w = w\<lparr>fatal := (\<lambda>m. False)\<rparr>"

definition agree :: "('a, 'd) stmt \<Rightarrow> ('a, 'd) stmt \<Rightarrow> bool" where
  "agree c c' = (\<forall>s. \<not> returned (c s) \<longrightarrow> c s = c' s)"

definition same_but_returned :: "('a, 'd) stmt \<Rightarrow> ('a, 'd) stmt \<Rightarrow> bool" where
  "same_but_returned c c' = (\<forall>s. c s = (c' s)\<lparr>returned := returned (c s)\<rparr>)"

definition keeps_returned :: "('a, 'd) stmt \<Rightarrow> bool" where
  "keeps_returned c = (\<forall>s. returned (c s) = returned s)"

definition emits_only :: "(('a, 'd) event \<Rightarrow> bool) \<Rightarrow> ('a, 'd) stmt \<Rightarrow> bool" where
  "emits_only Q c = (\<forall>s. \<exists>es. trace (c s) = trace s @ es \<and> list_all Q es)"

text \<open>A statement that leaves the member of the local handle as it is.\<close>

definition keeps_handle :: "('a, 'd) stmt \<Rightarrow> bool" where
  "keeps_handle c = (\<forall>s. handle (c s) = handle s)"

subsection \<open>The contents of a correctness run\<close>

text \<open>
  Names for what a correctness run is to contain. The data the generator yields for
  \<open>hA_1\<close>, \<open>hx\<close> and \<open>hy\<close>, which have the sizes of lines 86 to 88, and the operands an
  invocation starts from when it is given the scalar \<^verbatim>\<open>arg.alpha\<close> and that data.
\<close>

definition initial_A :: "('a, 'd) world \<Rightarrow> 'a Arguments \<Rightarrow> 'a list" where
  "initial_A w arg = rocblas_init w hA_1 True (unat (size_A_of (N arg)))"

definition initial_x :: "('a, 'd) world \<Rightarrow> 'a Arguments \<Rightarrow> 'a list" where
  "initial_x w arg = rocblas_init w hx False (unat (size_vec (N arg) (incx arg)))"

definition initial_y :: "('a, 'd) world \<Rightarrow> 'a Arguments \<Rightarrow> 'a list" where
  "initial_y w arg = rocblas_init w hy False (unat (size_vec (N arg) (incy arg)))"

definition initial_operands :: "('a, 'd) world \<Rightarrow> 'a Arguments \<Rightarrow> 'a operands" where
  "initial_operands w arg =
     Operands (Some (alpha arg)) (Some (initial_x w arg)) (Some (initial_y w arg))
       (Some (initial_A w arg))"

text \<open>The two checked vendor calls (lines 142 and 145), the matrix each yields from the
  initial data in its pointer mode, and the matrix the reference call yields.\<close>

definition host_mode_call :: "('a, 'd) world \<Rightarrow> 'a Arguments \<Rightarrow> 'a spr2_call" where
  "host_mode_call w arg =
     Spr2_call (fortran arg) (Some (create_handle w 0)) (char2rocblas_fill w (uplo arg)) (N arg)
       (alpha_host (alpha arg)) (Some dx) (incx arg) (Some dy) (incy arg) (Some dA_1)"

definition device_mode_call :: "('a, 'd) world \<Rightarrow> 'a Arguments \<Rightarrow> 'a spr2_call" where
  "device_mode_call w arg =
     Spr2_call (fortran arg) (Some (create_handle w 0)) (char2rocblas_fill w (uplo arg)) (N arg)
       (alpha_dev d_alpha) (Some dx) (incx arg) (Some dy) (incy arg) (Some dA_2)"

definition gpu_result_1 :: "('a, 'd) world \<Rightarrow> 'a Arguments \<Rightarrow> 'a list" where
  "gpu_result_1 w arg =
     spr2_update w (Some rocblas_pointer_mode_host) (host_mode_call w arg)
       (initial_operands w arg)"

definition gpu_result_2 :: "('a, 'd) world \<Rightarrow> 'a Arguments \<Rightarrow> 'a list" where
  "gpu_result_2 w arg =
     spr2_update w (Some rocblas_pointer_mode_device) (device_mode_call w arg)
       (initial_operands w arg)"

definition cpu_result :: "('a, 'd) world \<Rightarrow> 'a Arguments \<Rightarrow> 'a list" where
  "cpu_result w arg =
     cblas_spr2 w (char2rocblas_fill w (uplo arg)) (N arg) (alpha arg) (initial_x w arg)
       (incx arg) (initial_y w arg) (incy arg) (initial_A w arg)"

text \<open>The events of lines 141 to 166, with the pointer mode in force at each vendor call,
  the operands of each invocation and the contents each comparison is given.\<close>

definition correctness_events :: "('a, 'd) world \<Rightarrow> 'a Arguments \<Rightarrow> ('a, 'd) event list" where
  "correctness_events w arg =
     [Set_pointer_mode rocblas_pointer_mode_host,
      Rocblas_spr2 (Some rocblas_pointer_mode_host) (host_mode_call w arg)
        (initial_operands w arg) Check_error,
      Set_pointer_mode rocblas_pointer_mode_device,
      Rocblas_spr2 (Some rocblas_pointer_mode_device) (device_mode_call w arg)
        (initial_operands w arg) Check_error,
      Get_time_us_no_sync,
      Cblas_spr2 (char2rocblas_fill w (uplo arg)) (N arg) (alpha arg) (initial_x w arg)
        (incx arg) (initial_y w arg) (incy arg) hA_gold (initial_A w arg),
      Get_time_us_no_sync,
      Transfer hA_1 dA_1,
      Transfer hA_2 dA_2]
     @ (if unit_check arg
        then [Unit_check_general 1 (size_A_of (N arg)) 1 hA_gold (cpu_result w arg)
                hA_1 (gpu_result_1 w arg),
              Unit_check_general 1 (size_A_of (N arg)) 1 hA_gold (cpu_result w arg)
                hA_2 (gpu_result_2 w arg)]
        else [])
     @ (if norm_check arg
        then [Norm_check_general CHR ''F'' 1 (size_A_of (N arg)) 1 hA_gold (cpu_result w arg)
                hA_1 (gpu_result_1 w arg),
              Norm_check_general CHR ''F'' 1 (size_A_of (N arg)) 1 hA_gold (cpu_result w arg)
                hA_2 (gpu_result_2 w arg)]
        else [])"

text \<open>The five transfers to the device (lines 133 to 137) report success.\<close>

definition uploads_succeed :: "('a, 'd) world \<Rightarrow> bool" where
  "uploads_succeed w =
     (transfer w dA_1 hA_1 = hipSuccess \<and> transfer w dA_2 hA_1 = hipSuccess
      \<and> transfer w dx hx = hipSuccess \<and> transfer w dy hy = hipSuccess
      \<and> transfer w d_alpha halpha = hipSuccess)"

text \<open>Every call under a check macro up to line 166 reports success: the memory checks
  of the eleven vectors, the five transfers to the device, the two requests for a pointer
  mode, the two vendor calls, and the two transfers back.\<close>

definition correctness_checks_pass :: "('a, 'd) world \<Rightarrow> 'a Arguments \<Rightarrow> bool" where
  "correctness_checks_pass w arg =
     ((\<forall>b. memcheck w b = hipSuccess)
      \<and> uploads_succeed w
      \<and> set_pointer_mode w rocblas_pointer_mode_host = rocblas_status_success
      \<and> spr2_status w (Some rocblas_pointer_mode_host) (host_mode_call w arg)
            (initial_operands w arg) = rocblas_status_success
      \<and> set_pointer_mode w rocblas_pointer_mode_device = rocblas_status_success
      \<and> spr2_status w (Some rocblas_pointer_mode_device) (device_mode_call w arg)
            (initial_operands w arg) = rocblas_status_success
      \<and> transfer w hA_1 dA_1 = hipSuccess
      \<and> transfer w hA_2 dA_2 = hipSuccess)"

text \<open>One of the memory checks of the host vectors (lines 97 to 102) reports a failure.\<close>

definition host_allocation_fails :: "('a, 'd) world \<Rightarrow> bool" where
  "host_allocation_fails w =
     (\<exists>b \<in> set [hA_1, hA_2, hA_gold, hx, hy, halpha]. memcheck w b \<noteq> hipSuccess)"

subsection \<open>A concrete world\<close>

text \<open>
  A world to run the model in: the vendor function validates its arguments in the order
  handle, fill mode, sizes, pointers, and otherwise adds 10 to every element of the
  matrix, as the reference function does; the generator fills a matrix with 4 and a
  vector with 5; every runtime call succeeds; every failed check is fatal; values are
  integers and the clock counts events.
\<close>

definition sample_status :: "'a spr2_call \<Rightarrow> rocblas_status" where
  "sample_status c =
     (if handle_p c = None then rocblas_status_invalid_handle
      else if uplo_p c = rocblas_fill_full then rocblas_status_invalid_value
      else if sint (N_p c) < 0 \<or> incx_p c = 0 \<or> incy_p c = 0 then rocblas_status_invalid_size
      else if alpha_p c = alpha_null \<or> x_p c = None \<or> y_p c = None \<or> A_p c = None
        then rocblas_status_invalid_pointer
      else rocblas_status_success)"

definition sample_world :: "(int, int) world" where
  "sample_world =
     \<lparr>fatal = (\<lambda>m. True),
      create_handle = (\<lambda>t. 7),
      char2rocblas_fill =
        (\<lambda>c. if c = CHR ''U'' then rocblas_fill_upper
             else if c = CHR ''L'' then rocblas_fill_lower else rocblas_fill_full),
      point_six = 6,
      junk = 0,
      memcheck = (\<lambda>b. hipSuccess),
      transfer = (\<lambda>d s. hipSuccess),
      rocblas_init = (\<lambda>b f n. replicate n (if f then 4 else 5)),
      set_pointer_mode = (\<lambda>m. rocblas_status_success),
      get_stream = rocblas_status_success,
      spr2_status = (\<lambda>m c ops. sample_status c),
      spr2_update = (\<lambda>m c ops. case A_v ops of None \<Rightarrow> [] | Some v \<Rightarrow> map (\<lambda>a. a + 10) v),
      cblas_spr2 = (\<lambda>ul n al x ix y iy a. map (\<lambda>v. v + 10) a),
      norm_check_general = (\<lambda>g v. 0),
      get_time_us_no_sync = (\<lambda>t. int t),
      get_time_us_sync = (\<lambda>t. int t),
      minus_double = (\<lambda>a b. a - b),
      spr2_gflop_count = (\<lambda>n. 0),
      spr2_gbyte_count = (\<lambda>n. 0)\<rparr>"

definition sample_arg :: "bool \<Rightarrow> bool \<Rightarrow> bool \<Rightarrow> int Arguments" where
  "sample_arg u n t =
     \<lparr>fortran = False, N = 2, incx = 1, incy = - 1, alpha = 3, uplo = CHR ''U'',
      unit_check = u, norm_check = n, timing = t, cold_iters = 1, iters = 2\<rparr>"

text \<open>A library over the integers in which 1000 stands for a NaN and 999 and -999 for
  the infinities.\<close>

definition sample_library :: "int c_library" where
  "sample_library =
     \<lparr>isnan = (\<lambda>x. x = 1000), isinf = (\<lambda>x. \<bar>x\<bar> = 999), less_zero = (\<lambda>x. x < 0),
      format_17g = (\<lambda>x. if x = 2 then ''2'' else ''1.5'')\<rparr>"

section \<open>Properties\<close>

subsection \<open>Arithmetic of the buffer sizes\<close>

lemma sint_bounds32: "- 2147483648 \<le> sint (n::32 word) \<and> sint n < 2147483648"
  using sint_ge[of n] sint_lt[of n] by simp

lemma unat_size_t_of_int: "0 \<le> sint n \<Longrightarrow> unat (size_t_of_int n) = nat (sint n)"
proof -
  assume h: "0 \<le> sint n"
  have b: "sint n < 2147483648" using sint_bounds32[of n] by simp
  have "uint (word_of_int (sint n) :: 64 word) = sint n mod 2 ^ 64"
    using uint_word_of_int[where 'a=64, of "sint n"] by simp
  also have "\<dots> = sint n" using h b by simp
  finally show ?thesis by (simp add: size_t_of_int_def unat_eq_nat_uint)
qed

lemma sint_succ: "sint (n::32 word) < 2147483647 \<Longrightarrow> sint (n + 1) = sint n + 1"
proof -
  assume h: "sint n < 2147483647"
  have lo: "- 2147483648 \<le> sint n" using sint_bounds32[of n] by simp
  have "sint (n + 1) = signed_take_bit 31 (sint n + 1)"
    by (simp add: sint_word_ariths)
  also have "\<dots> = sint n + 1"
    using h lo by (simp add: signed_take_bit_int_eq_self)
  finally show ?thesis .
qed

lemma sint_neg: "sint (n::32 word) \<noteq> - 2147483648 \<Longrightarrow> sint (- n) = - sint n"
proof -
  assume h: "sint n \<noteq> - 2147483648"
  have b: "- 2147483648 \<le> sint n \<and> sint n < 2147483648" using sint_bounds32[of n] by simp
  have "sint (- n) = signed_take_bit 31 (- sint n)"
    by (simp add: sint_word_ariths)
  also have "\<dots> = - sint n"
    using h b by (simp add: signed_take_bit_int_eq_self)
  finally show ?thesis .
qed

lemma unat_abs_inc: "sint inc \<noteq> - 2147483648 \<Longrightarrow> unat (abs_inc inc) = nat \<bar>sint inc\<bar>"
  by (auto simp: abs_inc_def unat_size_t_of_int sint_neg)

lemma unat_mult64: "unat a * unat b < 2 ^ 64 \<Longrightarrow> unat (a * b :: 64 word) = unat a * unat b"
  by (simp add: unat_mult_lem[THEN iffD1])

text \<open>Below the largest \<^verbatim>\<open>rocblas_int\<close> the packed size is the exact triangular number.\<close>

lemma size_A_exact:
  assumes "0 \<le> sint n" "sint n < 2147483647"
  shows "unat (size_A_of n) = nat (sint n) * (nat (sint n) + 1) div 2"
proof -
  have a: "unat (size_t_of_int n) = nat (sint n)" using assms by (simp add: unat_size_t_of_int)
  have b: "unat (size_t_of_int (n + 1)) = nat (sint n) + 1"
    using assms by (simp add: unat_size_t_of_int sint_succ nat_add_distrib)
  have "nat (sint n) < 2147483647" using assms by simp
  then have "nat (sint n) * (nat (sint n) + 1) \<le> 2147483647 * 2147483647"
    by (intro mult_mono) simp_all
  then have c: "unat (size_t_of_int n) * unat (size_t_of_int (n + 1)) < 2 ^ 64"
    by (simp add: a b)
  show ?thesis
    by (simp add: size_A_of_def unat_div unat_mult64[OF c] a b)
qed

text \<open>For every increment but the least \<^verbatim>\<open>rocblas_int\<close> the vector size is the exact
  product with the absolute value.\<close>

lemma size_vec_exact:
  assumes "0 \<le> sint n" "sint inc \<noteq> - 2147483648"
  shows "unat (size_vec n inc) = nat (sint n) * nat \<bar>sint inc\<bar>"
proof -
  have a: "unat (size_t_of_int n) = nat (sint n)" using assms by (simp add: unat_size_t_of_int)
  have b: "unat (abs_inc inc) = nat \<bar>sint inc\<bar>" using assms by (simp add: unat_abs_inc)
  have "nat (sint n) \<le> 2147483648" using sint_bounds32[of n] by linarith
  moreover have "nat \<bar>sint inc\<bar> \<le> 2147483648" using sint_bounds32[of inc] by linarith
  ultimately have "nat (sint n) * nat \<bar>sint inc\<bar> \<le> 2147483648 * 2147483648"
    by (intro mult_mono) simp_all
  then have c: "unat (size_t_of_int n) * unat (abs_inc inc) < 2 ^ 64"
    by (simp add: a b)
  show ?thesis
    by (simp add: size_vec_def unat_mult64[OF c] a b)
qed

subsection \<open>Blocks and returns\<close>

lemma exec_returned: "returned s \<Longrightarrow> exec cs s = s"
  by (cases cs) simp_all

lemma exec_append: "exec (cs @ ds) s = exec ds (exec cs s)"
  by (induction cs arbitrary: s) (simp_all add: exec_returned)

lemma returned_exec_Cons:
  "returned (exec (c # cs) s) = (returned s \<or> returned (exec cs (c s)))"
  by simp

lemma returned_exec_Nil: "returned (exec [] s) = returned s" by simp

lemma argument_check_returns:
  assumes "sint (N arg) < 0 \<or> incx arg = 0 \<or> incy arg = 0"
  shows "returned (exec (argument_check w arg) s)"
  using assms by (simp add: argument_check_def return_if_def)

lemmas stmt_defs =
  rocblas_local_handle_ctor_def rocblas_local_handle_dtor_def with_handle_def
  rocblas_spr2_fn_def operands_of_def assertion_returns_def emit_def return_if_def store_def
  Let_def


lemmas prim_defs =
  stmt_defs check_hip_def host_vector_def device_vector_def checked_memcheck_def
  init_vector_def assign_def transfer_from_def set_mode_def call_cblas_spr2_def
  cpu_timer_start_def cpu_timer_stop_def unit_check_stmt_def norm_check_1_def norm_check_2_def
  get_stream_stmt_def gpu_timer_start_def gpu_timer_stop_def log_args_def store_at_def

lemmas size_defs = size_A_of_def size_vec_def abs_inc_def size_t_of_int_def

lemmas block_defs =
  argument_check_def allocate_def initialise_def correctness_def benchmark_def timed_call_def
  Let_def


subsection \<open>The fields of the state after each statement\<close>

text \<open>One equation for each statement and each field of the state. A vector is read at a
  given name, so that a symbolic run looks up only the vectors an event mentions.\<close>

lemma rocblas_local_handle_ctor_fields:
  "trace (rocblas_local_handle_ctor w s) = trace s @ [Create_handle (create_handle w (length
      (trace s)))]"
  "returned (rocblas_local_handle_ctor w s) = returned s"
  "mem (rocblas_local_handle_ctor w s) x = mem s x"
  "pointer_mode (rocblas_local_handle_ctor w s) = pointer_mode s"
  "handle (rocblas_local_handle_ctor w s) = create_handle w (length (trace s))"
  "gpu_time_used (rocblas_local_handle_ctor w s) = gpu_time_used s"
  "cpu_time_used (rocblas_local_handle_ctor w s) = cpu_time_used s"
  "rocblas_error_1 (rocblas_local_handle_ctor w s) = rocblas_error_1 s"
  "rocblas_error_2 (rocblas_local_handle_ctor w s) = rocblas_error_2 s"
  by (auto simp: rocblas_local_handle_ctor_def emit_def Let_def)

lemma rocblas_local_handle_dtor_fields:
  "trace (rocblas_local_handle_dtor s) = trace s @ [Destroy_handle (handle s)]"
  "returned (rocblas_local_handle_dtor s) = returned s"
  "mem (rocblas_local_handle_dtor s) x = mem s x"
  "pointer_mode (rocblas_local_handle_dtor s) = pointer_mode s"
  "handle (rocblas_local_handle_dtor s) = handle s"
  "gpu_time_used (rocblas_local_handle_dtor s) = gpu_time_used s"
  "cpu_time_used (rocblas_local_handle_dtor s) = cpu_time_used s"
  "rocblas_error_1 (rocblas_local_handle_dtor s) = rocblas_error_1 s"
  "rocblas_error_2 (rocblas_local_handle_dtor s) = rocblas_error_2 s"
  by (auto simp: rocblas_local_handle_dtor_def emit_def)

lemma return_if_fields:
  "trace (return_if t s) = trace s"
  "returned (return_if t s) = (t \<or> returned s)"
  "mem (return_if t s) x = mem s x"
  "pointer_mode (return_if t s) = pointer_mode s"
  "handle (return_if t s) = handle s"
  "gpu_time_used (return_if t s) = gpu_time_used s"
  "cpu_time_used (return_if t s) = cpu_time_used s"
  "rocblas_error_1 (return_if t s) = rocblas_error_1 s"
  "rocblas_error_2 (return_if t s) = rocblas_error_2 s"
  by (auto simp: return_if_def)

lemma host_vector_fields:
  "trace (host_vector w b sz s) = trace s @ [Host_vector b sz]"
  "returned (host_vector w b sz s) = returned s"
  "mem (host_vector w b sz s) x = (if x = b then replicate (unat sz) (junk w) else mem s x)"
  "pointer_mode (host_vector w b sz s) = pointer_mode s"
  "handle (host_vector w b sz s) = handle s"
  "gpu_time_used (host_vector w b sz s) = gpu_time_used s"
  "cpu_time_used (host_vector w b sz s) = cpu_time_used s"
  "rocblas_error_1 (host_vector w b sz s) = rocblas_error_1 s"
  "rocblas_error_2 (host_vector w b sz s) = rocblas_error_2 s"
  by (auto simp: host_vector_def store_def emit_def)

lemma device_vector_fields:
  "trace (device_vector w b sz s) = trace s @ [Device_vector b sz]"
  "returned (device_vector w b sz s) = returned s"
  "mem (device_vector w b sz s) x = (if x = b then replicate (unat sz) (junk w) else mem s x)"
  "pointer_mode (device_vector w b sz s) = pointer_mode s"
  "handle (device_vector w b sz s) = handle s"
  "gpu_time_used (device_vector w b sz s) = gpu_time_used s"
  "cpu_time_used (device_vector w b sz s) = cpu_time_used s"
  "rocblas_error_1 (device_vector w b sz s) = rocblas_error_1 s"
  "rocblas_error_2 (device_vector w b sz s) = rocblas_error_2 s"
  by (auto simp: device_vector_def store_def emit_def)

lemma checked_memcheck_fields:
  "trace (checked_memcheck w m b s) = trace s"
  "returned (checked_memcheck w m b s) = (fatal w m \<and> memcheck w b \<noteq> hipSuccess \<or>
      returned s)"
  "mem (checked_memcheck w m b s) x = mem s x"
  "pointer_mode (checked_memcheck w m b s) = pointer_mode s"
  "handle (checked_memcheck w m b s) = handle s"
  "gpu_time_used (checked_memcheck w m b s) = gpu_time_used s"
  "cpu_time_used (checked_memcheck w m b s) = cpu_time_used s"
  "rocblas_error_1 (checked_memcheck w m b s) = rocblas_error_1 s"
  "rocblas_error_2 (checked_memcheck w m b s) = rocblas_error_2 s"
  by (auto simp: checked_memcheck_def check_hip_def return_if_def)

lemma store_at_fields:
  "trace (store_at b i v s) = trace s"
  "returned (store_at b i v s) = returned s"
  "mem (store_at b i v s) x = (if x = b then (mem s b)[i := v] else mem s x)"
  "pointer_mode (store_at b i v s) = pointer_mode s"
  "handle (store_at b i v s) = handle s"
  "gpu_time_used (store_at b i v s) = gpu_time_used s"
  "cpu_time_used (store_at b i v s) = cpu_time_used s"
  "rocblas_error_1 (store_at b i v s) = rocblas_error_1 s"
  "rocblas_error_2 (store_at b i v s) = rocblas_error_2 s"
  by (auto simp: store_at_def store_def)

lemma init_vector_fields:
  "trace (init_vector w b f s) = trace s @ [Rocblas_init b f (rocblas_init w b f
      (length (mem s b)))]"
  "returned (init_vector w b f s) = returned s"
  "mem (init_vector w b f s) x = (if x = b then rocblas_init w b f (length (mem s
      b)) else mem s x)"
  "pointer_mode (init_vector w b f s) = pointer_mode s"
  "handle (init_vector w b f s) = handle s"
  "gpu_time_used (init_vector w b f s) = gpu_time_used s"
  "cpu_time_used (init_vector w b f s) = cpu_time_used s"
  "rocblas_error_1 (init_vector w b f s) = rocblas_error_1 s"
  "rocblas_error_2 (init_vector w b f s) = rocblas_error_2 s"
  by (auto simp: init_vector_def store_def emit_def Let_def)

lemma assign_fields:
  "trace (assign d b s) = trace s"
  "returned (assign d b s) = returned s"
  "mem (assign d b s) x = (if x = d then mem s b else mem s x)"
  "pointer_mode (assign d b s) = pointer_mode s"
  "handle (assign d b s) = handle s"
  "gpu_time_used (assign d b s) = gpu_time_used s"
  "cpu_time_used (assign d b s) = cpu_time_used s"
  "rocblas_error_1 (assign d b s) = rocblas_error_1 s"
  "rocblas_error_2 (assign d b s) = rocblas_error_2 s"
  by (auto simp: assign_def store_def)

lemma transfer_from_fields:
  "trace (transfer_from w d b s) = trace s @ [Transfer d b]"
  "returned (transfer_from w d b s) = (fatal w CHECK_HIP_ERROR \<and> transfer w d b \<noteq>
      hipSuccess \<or> returned s)"
  "mem (transfer_from w d b s) x = (if x = d then (if transfer w d b = hipSuccess then mem s b
      else mem s d) else mem s x)"
  "pointer_mode (transfer_from w d b s) = pointer_mode s"
  "handle (transfer_from w d b s) = handle s"
  "gpu_time_used (transfer_from w d b s) = gpu_time_used s"
  "cpu_time_used (transfer_from w d b s) = cpu_time_used s"
  "rocblas_error_1 (transfer_from w d b s) = rocblas_error_1 s"
  "rocblas_error_2 (transfer_from w d b s) = rocblas_error_2 s"
  by (auto simp: transfer_from_def check_hip_def return_if_def store_def emit_def Let_def)

lemma set_mode_fields:
  "trace (set_mode w pm s) = trace s @ [Set_pointer_mode pm]"
  "returned (set_mode w pm s) = (fatal w CHECK_ROCBLAS_ERROR \<and> set_pointer_mode w pm \<noteq>
      rocblas_status_success \<or> returned s)"
  "mem (set_mode w pm s) x = mem s x"
  "pointer_mode (set_mode w pm s) = (if set_pointer_mode w pm = rocblas_status_success then Some
      pm else pointer_mode s)"
  "handle (set_mode w pm s) = handle s"
  "gpu_time_used (set_mode w pm s) = gpu_time_used s"
  "cpu_time_used (set_mode w pm s) = cpu_time_used s"
  "rocblas_error_1 (set_mode w pm s) = rocblas_error_1 s"
  "rocblas_error_2 (set_mode w pm s) = rocblas_error_2 s"
  by (auto simp: set_mode_def return_if_def emit_def Let_def)

lemma rocblas_spr2_fn_fields:
  "trace (rocblas_spr2_fn w a c s) = trace s @ [Rocblas_spr2 (pointer_mode s) c (operands_of (mem
      s) c) a]"
  "returned (rocblas_spr2_fn w a c s) = (assertion_returns w a (spr2_status w (pointer_mode s) c
      (operands_of (mem s) c)) \<or> returned s)"
  "mem (rocblas_spr2_fn w a c s) x = (case A_p c of None \<Rightarrow> mem s x | Some b
      \<Rightarrow> if x = b then (if spr2_status w (pointer_mode s) c (operands_of (mem s) c) =
      rocblas_status_success then spr2_update w (pointer_mode s) c (operands_of (mem s) c) else
      mem s b) else mem s x)"
  "pointer_mode (rocblas_spr2_fn w a c s) = pointer_mode s"
  "handle (rocblas_spr2_fn w a c s) = handle s"
  "gpu_time_used (rocblas_spr2_fn w a c s) = gpu_time_used s"
  "cpu_time_used (rocblas_spr2_fn w a c s) = cpu_time_used s"
  "rocblas_error_1 (rocblas_spr2_fn w a c s) = rocblas_error_1 s"
  "rocblas_error_2 (rocblas_spr2_fn w a c s) = rocblas_error_2 s"
  by (auto simp: rocblas_spr2_fn_def return_if_def store_def emit_def Let_def split: option.splits)

lemma call_cblas_spr2_fields:
  "trace (call_cblas_spr2 w ul n al x ix y iy A s) = trace s @ [Cblas_spr2 ul n al (mem s x) ix
      (mem s y) iy A (mem s A)]"
  "returned (call_cblas_spr2 w ul n al x ix y iy A s) = returned s"
  "mem (call_cblas_spr2 w ul n al x ix y iy A s) v = (if v = A then cblas_spr2 w ul n al (mem s x)
      ix (mem s y) iy (mem s A) else mem s v)"
  "pointer_mode (call_cblas_spr2 w ul n al x ix y iy A s) = pointer_mode s"
  "handle (call_cblas_spr2 w ul n al x ix y iy A s) = handle s"
  "gpu_time_used (call_cblas_spr2 w ul n al x ix y iy A s) = gpu_time_used s"
  "cpu_time_used (call_cblas_spr2 w ul n al x ix y iy A s) = cpu_time_used s"
  "rocblas_error_1 (call_cblas_spr2 w ul n al x ix y iy A s) = rocblas_error_1 s"
  "rocblas_error_2 (call_cblas_spr2 w ul n al x ix y iy A s) = rocblas_error_2 s"
  by (auto simp: call_cblas_spr2_def store_def emit_def)

lemma cpu_timer_start_fields:
  "trace (cpu_timer_start w s) = trace s @ [Get_time_us_no_sync]"
  "returned (cpu_timer_start w s) = returned s"
  "mem (cpu_timer_start w s) x = mem s x"
  "pointer_mode (cpu_timer_start w s) = pointer_mode s"
  "handle (cpu_timer_start w s) = handle s"
  "gpu_time_used (cpu_timer_start w s) = gpu_time_used s"
  "cpu_time_used (cpu_timer_start w s) = Some (get_time_us_no_sync w (length (trace s)))"
  "rocblas_error_1 (cpu_timer_start w s) = rocblas_error_1 s"
  "rocblas_error_2 (cpu_timer_start w s) = rocblas_error_2 s"
  by (auto simp: cpu_timer_start_def emit_def)

lemma cpu_timer_stop_fields:
  "trace (cpu_timer_stop w s) = trace s @ [Get_time_us_no_sync]"
  "returned (cpu_timer_stop w s) = returned s"
  "mem (cpu_timer_stop w s) x = mem s x"
  "pointer_mode (cpu_timer_stop w s) = pointer_mode s"
  "handle (cpu_timer_stop w s) = handle s"
  "gpu_time_used (cpu_timer_stop w s) = gpu_time_used s"
  "cpu_time_used (cpu_timer_stop w s) = map_option (minus_double w (get_time_us_no_sync w (length
      (trace s)))) (cpu_time_used s)"
  "rocblas_error_1 (cpu_timer_stop w s) = rocblas_error_1 s"
  "rocblas_error_2 (cpu_timer_stop w s) = rocblas_error_2 s"
  by (auto simp: cpu_timer_stop_def emit_def)

lemma unit_check_stmt_fields:
  "trace (unit_check_stmt sz g b s) = trace s @ [Unit_check_general 1 sz 1 g (mem s g) b
      (mem s b)]"
  "returned (unit_check_stmt sz g b s) = returned s"
  "mem (unit_check_stmt sz g b s) x = mem s x"
  "pointer_mode (unit_check_stmt sz g b s) = pointer_mode s"
  "handle (unit_check_stmt sz g b s) = handle s"
  "gpu_time_used (unit_check_stmt sz g b s) = gpu_time_used s"
  "cpu_time_used (unit_check_stmt sz g b s) = cpu_time_used s"
  "rocblas_error_1 (unit_check_stmt sz g b s) = rocblas_error_1 s"
  "rocblas_error_2 (unit_check_stmt sz g b s) = rocblas_error_2 s"
  by (auto simp: unit_check_stmt_def emit_def)

lemma norm_check_1_fields:
  "trace (norm_check_1 w sz g b s) = trace s @ [Norm_check_general CHR ''F'' 1 sz 1 g
      (mem s g) b (mem s b)]"
  "returned (norm_check_1 w sz g b s) = returned s"
  "mem (norm_check_1 w sz g b s) x = mem s x"
  "pointer_mode (norm_check_1 w sz g b s) = pointer_mode s"
  "handle (norm_check_1 w sz g b s) = handle s"
  "gpu_time_used (norm_check_1 w sz g b s) = gpu_time_used s"
  "cpu_time_used (norm_check_1 w sz g b s) = cpu_time_used s"
  "rocblas_error_1 (norm_check_1 w sz g b s) = Some (norm_check_general w (mem s g) (mem s b))"
  "rocblas_error_2 (norm_check_1 w sz g b s) = rocblas_error_2 s"
  by (auto simp: norm_check_1_def emit_def)

lemma norm_check_2_fields:
  "trace (norm_check_2 w sz g b s) = trace s @ [Norm_check_general CHR ''F'' 1 sz 1 g
      (mem s g) b (mem s b)]"
  "returned (norm_check_2 w sz g b s) = returned s"
  "mem (norm_check_2 w sz g b s) x = mem s x"
  "pointer_mode (norm_check_2 w sz g b s) = pointer_mode s"
  "handle (norm_check_2 w sz g b s) = handle s"
  "gpu_time_used (norm_check_2 w sz g b s) = gpu_time_used s"
  "cpu_time_used (norm_check_2 w sz g b s) = cpu_time_used s"
  "rocblas_error_1 (norm_check_2 w sz g b s) = rocblas_error_1 s"
  "rocblas_error_2 (norm_check_2 w sz g b s) = Some (norm_check_general w (mem s g) (mem s b))"
  by (auto simp: norm_check_2_def emit_def)

lemma get_stream_stmt_fields:
  "trace (get_stream_stmt w s) = trace s @ [Get_stream]"
  "returned (get_stream_stmt w s) = (fatal w CHECK_ROCBLAS_ERROR \<and> get_stream w \<noteq>
      rocblas_status_success \<or> returned s)"
  "mem (get_stream_stmt w s) x = mem s x"
  "pointer_mode (get_stream_stmt w s) = pointer_mode s"
  "handle (get_stream_stmt w s) = handle s"
  "gpu_time_used (get_stream_stmt w s) = gpu_time_used s"
  "cpu_time_used (get_stream_stmt w s) = cpu_time_used s"
  "rocblas_error_1 (get_stream_stmt w s) = rocblas_error_1 s"
  "rocblas_error_2 (get_stream_stmt w s) = rocblas_error_2 s"
  by (auto simp: get_stream_stmt_def return_if_def emit_def)

lemma gpu_timer_start_fields:
  "trace (gpu_timer_start w s) = trace s @ [Get_time_us_sync]"
  "returned (gpu_timer_start w s) = returned s"
  "mem (gpu_timer_start w s) x = mem s x"
  "pointer_mode (gpu_timer_start w s) = pointer_mode s"
  "handle (gpu_timer_start w s) = handle s"
  "gpu_time_used (gpu_timer_start w s) = Some (get_time_us_sync w (length (trace s)))"
  "cpu_time_used (gpu_timer_start w s) = cpu_time_used s"
  "rocblas_error_1 (gpu_timer_start w s) = rocblas_error_1 s"
  "rocblas_error_2 (gpu_timer_start w s) = rocblas_error_2 s"
  by (auto simp: gpu_timer_start_def emit_def)

lemma gpu_timer_stop_fields:
  "trace (gpu_timer_stop w s) = trace s @ [Get_time_us_sync]"
  "returned (gpu_timer_stop w s) = returned s"
  "mem (gpu_timer_stop w s) x = mem s x"
  "pointer_mode (gpu_timer_stop w s) = pointer_mode s"
  "handle (gpu_timer_stop w s) = handle s"
  "gpu_time_used (gpu_timer_stop w s) = map_option (minus_double w (get_time_us_sync w (length
      (trace s)))) (gpu_time_used s)"
  "cpu_time_used (gpu_timer_stop w s) = cpu_time_used s"
  "rocblas_error_1 (gpu_timer_stop w s) = rocblas_error_1 s"
  "rocblas_error_2 (gpu_timer_stop w s) = rocblas_error_2 s"
  by (auto simp: gpu_timer_stop_def emit_def)

lemma log_args_fields:
  "trace (log_args w n s) = trace s @ [Log_args (gpu_time_used s) (spr2_gflop_count w n)
      (spr2_gbyte_count w n) (cpu_time_used s) (rocblas_error_1 s) (rocblas_error_2 s)]"
  "returned (log_args w n s) = returned s"
  "mem (log_args w n s) x = mem s x"
  "pointer_mode (log_args w n s) = pointer_mode s"
  "handle (log_args w n s) = handle s"
  "gpu_time_used (log_args w n s) = gpu_time_used s"
  "cpu_time_used (log_args w n s) = cpu_time_used s"
  "rocblas_error_1 (log_args w n s) = rocblas_error_1 s"
  "rocblas_error_2 (log_args w n s) = rocblas_error_2 s"
  by (auto simp: log_args_def emit_def)

lemma with_handle_eq: "with_handle k s = k (handle s) s"
  by (simp add: with_handle_def)

lemma entry_fields:
  "trace entry = []"
  "returned entry = False"
  "gpu_time_used entry = None"
  "cpu_time_used entry = None"
  "rocblas_error_1 entry = None"
  "rocblas_error_2 entry = None"
  "pointer_mode entry = None"
  by (simp_all add: entry_def)

lemma mem_entry: "mem entry b = []"
  by (simp add: entry_def)

lemmas fields =
   rocblas_local_handle_ctor_fields rocblas_local_handle_dtor_fields return_if_fields
    host_vector_fields device_vector_fields checked_memcheck_fields store_at_fields
    init_vector_fields assign_fields transfer_from_fields set_mode_fields
    rocblas_spr2_fn_fields call_cblas_spr2_fields cpu_timer_start_fields
    cpu_timer_stop_fields unit_check_stmt_fields norm_check_1_fields norm_check_2_fields
    get_stream_stmt_fields gpu_timer_start_fields gpu_timer_stop_fields log_args_fields
    with_handle_eq entry_fields mem_entry


subsection \<open>Runs that no check ends\<close>

text \<open>A run that does not end at a return is the run of the same statements with
  checks that are not fatal.\<close>

lemma exec_agree:
  assumes "list_all2 agree cs cs'" "\<not> returned (exec cs s)"
  shows "exec cs s = exec cs' s"
  using assms
proof (induction cs cs' arbitrary: s rule: list_all2_induct)
  case Nil
  show ?case by simp
next
  case (Cons c cs c' cs')
  have ns: "\<not> returned s" using Cons.prems by (auto simp: exec_returned)
  then have e: "exec (c # cs) s = exec cs (c s)" by simp
  then have nr: "\<not> returned (exec cs (c s))" using Cons.prems by simp
  then have "\<not> returned (c s)" by (auto simp: exec_returned)
  then have "c s = c' s" using Cons.hyps(1) by (simp add: agree_def)
  then show ?case using Cons.IH[OF nr] ns by simp
qed

lemma agree_refl: "agree c c"
  by (simp add: agree_def)

lemma lenient_simps [simp]:
  "fatal (lenient w) m = False"
  "create_handle (lenient w) = create_handle w"
  "char2rocblas_fill (lenient w) = char2rocblas_fill w"
  "point_six (lenient w) = point_six w"
  "junk (lenient w) = junk w"
  "memcheck (lenient w) = memcheck w"
  "transfer (lenient w) = transfer w"
  "rocblas_init (lenient w) = rocblas_init w"
  "set_pointer_mode (lenient w) = set_pointer_mode w"
  "get_stream (lenient w) = get_stream w"
  "spr2_status (lenient w) = spr2_status w"
  "spr2_update (lenient w) = spr2_update w"
  "cblas_spr2 (lenient w) = cblas_spr2 w"
  "norm_check_general (lenient w) = norm_check_general w"
  "get_time_us_no_sync (lenient w) = get_time_us_no_sync w"
  "get_time_us_sync (lenient w) = get_time_us_sync w"
  "minus_double (lenient w) = minus_double w"
  "spr2_gflop_count (lenient w) = spr2_gflop_count w"
  "spr2_gbyte_count (lenient w) = spr2_gbyte_count w"
  "assertion_returns (lenient w) a st = False"
  by (simp_all add: lenient_def assertion_returns_def split: assertion.splits)

lemma agree_prims:
  "agree (rocblas_local_handle_ctor w) (rocblas_local_handle_ctor (lenient w))"
  "agree (host_vector w b sz) (host_vector (lenient w) b sz)"
  "agree (device_vector w b sz) (device_vector (lenient w) b sz)"
  "agree (checked_memcheck w m b) (checked_memcheck (lenient w) m b)"
  "agree (init_vector w b f) (init_vector (lenient w) b f)"
  "agree (transfer_from w d b) (transfer_from (lenient w) d b)"
  "agree (set_mode w pm) (set_mode (lenient w) pm)"
  "agree (rocblas_spr2_fn w a c) (rocblas_spr2_fn (lenient w) a c)"
  "agree (call_cblas_spr2 w ul n al x ix y iy A) (call_cblas_spr2 (lenient w) ul n al x ix y iy A)"
  "agree (cpu_timer_start w) (cpu_timer_start (lenient w))"
  "agree (cpu_timer_stop w) (cpu_timer_stop (lenient w))"
  "agree (norm_check_1 w sz g b) (norm_check_1 (lenient w) sz g b)"
  "agree (norm_check_2 w sz g b) (norm_check_2 (lenient w) sz g b)"
  "agree (get_stream_stmt w) (get_stream_stmt (lenient w))"
  "agree (gpu_timer_start w) (gpu_timer_start (lenient w))"
  "agree (gpu_timer_stop w) (gpu_timer_stop (lenient w))"
  "agree (log_args w n) (log_args (lenient w) n)"
  by (auto simp: agree_def prim_defs split: option.splits assertion.splits)

lemma agree_with_handle:
  "(\<And>h. agree (k h) (k' h)) \<Longrightarrow> agree (with_handle k) (with_handle k')"
  by (simp add: agree_def with_handle_def)

lemma timed_call_lenient: "timed_call (lenient w) arg = timed_call w arg"
  by (rule ext) (simp add: timed_call_def prim_defs)

lemmas agree_intros = agree_refl agree_prims agree_with_handle

lemma agree_blocks:
  "list_all2 agree (argument_check w arg) (argument_check (lenient w) arg)"
  "list_all2 agree (allocate w arg) (allocate (lenient w) arg)"
  "list_all2 agree (initialise w) (initialise (lenient w))"
  "list_all2 agree (correctness w arg) (correctness (lenient w) arg)"
  "list_all2 agree (benchmark w arg) (benchmark (lenient w) arg)"
  by (simp_all add: argument_check_def allocate_def initialise_def correctness_def
      benchmark_def agree_intros timed_call_lenient Let_def list_all2_appendI)



lemma testing_spr2_split:
  "testing_spr2 w arg =
     rocblas_local_handle_dtor (exec (benchmark w arg) (through_correctness w arg))"
proof -
  have "rocblas_local_handle_ctor w # argument_check w arg @ allocate w arg @ initialise w
          @ correctness w arg @ benchmark w arg =
        (rocblas_local_handle_ctor w # argument_check w arg @ allocate w arg @ initialise w
          @ correctness w arg) @ benchmark w arg"
    by simp
  then show ?thesis
    unfolding testing_spr2_def through_correctness_def by (simp only: exec_append)
qed

lemma through_correctness_lenient:
  assumes "\<not> returned (through_correctness w arg)"
  shows "through_correctness w arg = through_correctness (lenient w) arg"
  unfolding through_correctness_def
proof (rule exec_agree)
  show "list_all2 agree
     (rocblas_local_handle_ctor w # argument_check w arg @ allocate w arg @ initialise w
        @ correctness w arg)
     (rocblas_local_handle_ctor (lenient w) # argument_check (lenient w) arg
        @ allocate (lenient w) arg @ initialise (lenient w) @ correctness (lenient w) arg)"
    by (simp add: agree_prims agree_blocks list_all2_appendI)
  show "\<not> returned (exec (rocblas_local_handle_ctor w # argument_check w arg @ allocate w arg
      @ initialise w @ correctness w arg) entry)"
    using assms by (simp add: through_correctness_def)
qed

lemma prepared_lenient_eq:
  assumes "\<not> returned (prepared w arg)"
  shows "prepared w arg = prepared (lenient w) arg"
  unfolding prepared_def
proof (rule exec_agree)
  show "list_all2 agree
     (rocblas_local_handle_ctor w # argument_check w arg @ allocate w arg @ initialise w)
     (rocblas_local_handle_ctor (lenient w) # argument_check (lenient w) arg
        @ allocate (lenient w) arg @ initialise (lenient w))"
    by (simp add: agree_prims agree_blocks list_all2_appendI)
  show "\<not> returned (exec (rocblas_local_handle_ctor w # argument_check w arg @ allocate w arg
      @ initialise w) entry)"
    using assms by (simp add: prepared_def)
qed

subsection \<open>What a block adds to the trace\<close>

lemma emits_only_exec:
  assumes "list_all (emits_only Q) cs"
  shows "emits_only Q (exec cs)"
  using assms
proof (induction cs)
  case Nil
  show ?case by (simp add: emits_only_def)
next
  case (Cons c cs)
  have c: "emits_only Q c" and r: "emits_only Q (exec cs)" using Cons by simp_all
  show ?case
    unfolding emits_only_def
  proof
    fix s
    show "\<exists>es. trace (exec (c # cs) s) = trace s @ es \<and> list_all Q es"
    proof (cases "returned s")
      case True
      then show ?thesis by simp
    next
      case False
      obtain es where 1: "trace (c s) = trace s @ es" "list_all Q es"
        using c unfolding emits_only_def by blast
      obtain fs where 2: "trace (exec cs (c s)) = trace (c s) @ fs" "list_all Q fs"
        using r unfolding emits_only_def by blast
      have "trace (exec (c # cs) s) = trace s @ (es @ fs)" using False 1 2 by simp
      moreover have "list_all Q (es @ fs)" using 1 2 by simp
      ultimately show ?thesis by blast
    qed
  qed
qed

lemma emits_only_for_loop:
  assumes "emits_only Q body"
  shows "emits_only Q (for_loop i n body)"
  unfolding emits_only_def
proof
  fix s
  show "\<exists>es. trace (for_loop i n body s) = trace s @ es \<and> list_all Q es"
    using assms
  proof (induction i n body s rule: for_loop.induct)
    case (1 iter n body s)
    show ?case
    proof (cases "iter < n \<and> \<not> returned s")
      case True
      obtain es where a: "trace (body s) = trace s @ es" "list_all Q es"
        using "1.prems" unfolding emits_only_def by blast
      obtain fs where b: "trace (for_loop (iter + 1) n body (body s)) = trace (body s) @ fs"
          "list_all Q fs"
        using "1.IH"[OF True "1.prems"] by blast
      have "for_loop iter n body s = for_loop (iter + 1) n body (body s)"
        using True by (subst for_loop.simps) simp
      then have "trace (for_loop iter n body s) = trace s @ (es @ fs)" using a b by simp
      moreover have "list_all Q (es @ fs)" using a b by simp
      ultimately show ?thesis by blast
    next
      case False
      then have "for_loop iter n body s = s" by (subst for_loop.simps) auto
      then show ?thesis by simp
    qed
  qed
qed


lemma emits_only_prims:
  "(\<And>h. Q (Create_handle h)) \<Longrightarrow> emits_only Q (rocblas_local_handle_ctor w)"
  "(\<And>n. Q (Host_vector b n)) \<Longrightarrow> emits_only Q (host_vector w b sz)"
  "(\<And>n. Q (Device_vector b n)) \<Longrightarrow> emits_only Q (device_vector w b sz)"
  "emits_only Q (checked_memcheck w m b)"
  "emits_only Q (store_at b i v)"
  "emits_only Q (assign d b)"
  "emits_only Q (return_if t)"
  "(\<And>v. Q (Rocblas_init b f v)) \<Longrightarrow> emits_only Q (init_vector w b f)"
  "Q (Transfer d b) \<Longrightarrow> emits_only Q (transfer_from w d b)"
  "Q (Set_pointer_mode pm) \<Longrightarrow> emits_only Q (set_mode w pm)"
  "(\<And>m ops. Q (Rocblas_spr2 m c ops a)) \<Longrightarrow> emits_only Q (rocblas_spr2_fn w a c)"
  "(\<And>xv yv av. Q (Cblas_spr2 ul n al xv ix yv iy A av)) \<Longrightarrow>
     emits_only Q (call_cblas_spr2 w ul n al x ix y iy A)"
  "Q Get_time_us_no_sync \<Longrightarrow> emits_only Q (cpu_timer_start w)"
  "Q Get_time_us_no_sync \<Longrightarrow> emits_only Q (cpu_timer_stop w)"
  "(\<And>gv bv. Q (Unit_check_general 1 sz 1 g gv b bv)) \<Longrightarrow> emits_only Q (unit_check_stmt sz g b)"
  "(\<And>gv bv. Q (Norm_check_general CHR ''F'' 1 sz 1 g gv b bv)) \<Longrightarrow>
     emits_only Q (norm_check_1 w sz g b)"
  "(\<And>gv bv. Q (Norm_check_general CHR ''F'' 1 sz 1 g gv b bv)) \<Longrightarrow>
     emits_only Q (norm_check_2 w sz g b)"
  "Q Get_stream \<Longrightarrow> emits_only Q (get_stream_stmt w)"
  "Q Get_time_us_sync \<Longrightarrow> emits_only Q (gpu_timer_start w)"
  "Q Get_time_us_sync \<Longrightarrow> emits_only Q (gpu_timer_stop w)"
  "(\<And>g f b c e1 e2. Q (Log_args g f b c e1 e2)) \<Longrightarrow> emits_only Q (log_args w n)"
  by (auto simp: emits_only_def prim_defs split: option.splits)

lemma emits_only_with_handle:
  "(\<And>h. emits_only Q (k h)) \<Longrightarrow> emits_only Q (with_handle k)"
  by (simp add: emits_only_def with_handle_def)



lemma emits_nothing:
  assumes "emits_only (\<lambda>e. False) c"
  shows "trace (c s) = trace s"
proof -
  obtain es where es: "trace (c s) = trace s @ es" "list_all (\<lambda>e. False) es"
    using assms unfolding emits_only_def by blast
  have "es = []" using es(2) by (cases es) simp_all
  then show ?thesis using es(1) by simp
qed

lemma argument_check_valid:
  "0 \<le> sint (N arg) \<Longrightarrow> incx arg \<noteq> 0 \<Longrightarrow> incy arg \<noteq> 0 \<Longrightarrow> argument_check w arg = []"
  by (simp add: argument_check_def)

lemma through_correctness_prepared:
  "through_correctness w arg = exec (correctness w arg) (prepared w arg)"
proof -
  have "rocblas_local_handle_ctor w # argument_check w arg @ allocate w arg @ initialise w
          @ correctness w arg =
        (rocblas_local_handle_ctor w # argument_check w arg @ allocate w arg @ initialise w)
          @ correctness w arg"
    by simp
  then show ?thesis
    unfolding prepared_def through_correctness_def by (simp only: exec_append)
qed

lemma prepared_lenient:
  assumes "0 \<le> sint (N arg)" "incx arg \<noteq> 0" "incy arg \<noteq> 0"
  shows "returned (prepared (lenient w) arg) = False"
    and "handle (prepared (lenient w) arg) = create_handle w 0"
  using assms
  by (simp_all add: prepared_def argument_check_valid allocate_def initialise_def fields Let_def)

lemma emits_timed_call: "emits_only (\<lambda>e. True) (timed_call w arg)"
  by (simp add: timed_call_def emits_only_with_handle emits_only_prims)

lemma emits_benchmark: "emits_only (\<lambda>e. True) (exec (benchmark w arg))"
  by (rule emits_only_exec)
    (simp add: benchmark_def Let_def emits_only_prims emits_only_for_loop emits_timed_call)

lemma testing_spr2_trace_split:
  "\<exists>es. trace (testing_spr2 w arg) = trace (through_correctness w arg) @ es"
proof -
  obtain es where "trace (exec (benchmark w arg) (through_correctness w arg)) =
      trace (through_correctness w arg) @ es"
    using emits_benchmark[of w arg] unfolding emits_only_def by blast
  then have "trace (testing_spr2 w arg) = trace (through_correctness w arg) @
      (es @ [Destroy_handle (handle (exec (benchmark w arg) (through_correctness w arg)))])"
    by (simp add: testing_spr2_split fields)
  then show ?thesis by blast
qed


subsection \<open>Reading a trace in parts\<close>

lemma allocated_append: "allocated (xs @ ys) = allocated xs @ allocated ys"
  by (induction xs rule: allocated.induct) simp_all

lemma initial_data_append: "initial_data (xs @ ys) = initial_data xs @ initial_data ys"
  by (induction xs rule: initial_data.induct) simp_all

lemma invocation_inputs_append:
  "invocation_inputs (xs @ ys) = invocation_inputs xs @ invocation_inputs ys"
  by (induction xs rule: invocation_inputs.induct) simp_all

lemma allocated_none: "list_all (\<lambda>e. allocated [e] = []) es \<Longrightarrow> allocated es = []"
proof (induction es)
  case Nil
  show ?case by simp
next
  case (Cons e es)
  then show ?case using allocated_append[of "[e]" es] by simp
qed

lemma initial_data_none: "list_all (\<lambda>e. initial_data [e] = []) es \<Longrightarrow> initial_data es = []"
proof (induction es)
  case Nil
  show ?case by simp
next
  case (Cons e es)
  then show ?case using initial_data_append[of "[e]" es] by simp
qed

lemma invocation_inputs_none:
  "list_all (\<lambda>e. invocation_inputs [e] = []) es \<Longrightarrow> invocation_inputs es = []"
proof (induction es)
  case Nil
  show ?case by simp
next
  case (Cons e es)
  then show ?case using invocation_inputs_append[of "[e]" es] by simp
qed

lemma vendor_calls_append: "vendor_calls (xs @ ys) = vendor_calls xs @ vendor_calls ys"
  by (induction xs rule: vendor_calls.induct) simp_all

lemma append_eq_take: "xs @ ys = zs \<Longrightarrow> xs = take (length xs) zs"
  by auto

lemma is_allocation_simps [simp]:
  "is_allocation (Host_vector b n)"
  "is_allocation (Device_vector b n)"
  "\<not> is_allocation (Create_handle h)"
  "\<not> is_allocation (Destroy_handle h)"
  "\<not> is_allocation (Rocblas_init b f v)"
  "\<not> is_allocation (Transfer d b)"
  "\<not> is_allocation (Set_pointer_mode pm)"
  "\<not> is_allocation (Rocblas_spr2 m c ops a)"
  "\<not> is_allocation (Cblas_spr2 ul k al xv ix yv iy g av)"
  "\<not> is_allocation (Unit_check_general m1 m2 m3 g gv b bv)"
  "\<not> is_allocation (Norm_check_general t m1 m2 m3 g gv b bv)"
  "\<not> is_allocation Get_time_us_no_sync"
  "\<not> is_allocation Get_stream"
  "\<not> is_allocation Get_time_us_sync"
  "\<not> is_allocation (Log_args t1 t2 t3 t4 t5 t6)"
  by (simp_all add: is_allocation_def)

lemma filter_none: "list_all (\<lambda>e. \<not> P e) es \<Longrightarrow> filter P es = []"
  by (induction es) simp_all

text \<open>The timing run allocates nothing, generates no data and makes no checked call.\<close>

lemma benchmark_quiet:
  "emits_only (\<lambda>e. allocated [e] = [] \<and> initial_data [e] = [] \<and> invocation_inputs [e] = [])
     (exec (benchmark w arg))"
  by (rule emits_only_exec)
    (simp add: benchmark_def timed_call_def Let_def emits_only_prims emits_only_for_loop
      emits_only_with_handle)

lemma after_correctness:
  "allocated (trace (testing_spr2 w arg)) = allocated (trace (through_correctness w arg))"
  "initial_data (trace (testing_spr2 w arg)) = initial_data (trace (through_correctness w arg))"
  "invocation_inputs (trace (testing_spr2 w arg)) =
     invocation_inputs (trace (through_correctness w arg))"
proof -
  obtain es where es: "trace (exec (benchmark w arg) (through_correctness w arg)) =
      trace (through_correctness w arg) @ es"
    "list_all (\<lambda>e. allocated [e] = [] \<and> initial_data [e] = [] \<and> invocation_inputs [e] = []) es"
    using benchmark_quiet[of w arg] unfolding emits_only_def by blast
  have q: "allocated es = []" "initial_data es = []" "invocation_inputs es = []"
    using es(2) by (auto intro!: allocated_none initial_data_none invocation_inputs_none
        simp: list_all_iff)
  show "allocated (trace (testing_spr2 w arg)) = allocated (trace (through_correctness w arg))"
    by (simp add: testing_spr2_split fields es(1) allocated_append q)
  show "initial_data (trace (testing_spr2 w arg)) =
      initial_data (trace (through_correctness w arg))"
    by (simp add: testing_spr2_split fields es(1) initial_data_append q)
  show "invocation_inputs (trace (testing_spr2 w arg)) =
      invocation_inputs (trace (through_correctness w arg))"
    by (simp add: testing_spr2_split fields es(1) invocation_inputs_append q)
qed


subsection \<open>The concrete world\<close>

lemma sample_world_fields:
  "fatal sample_world m = True"
  "create_handle sample_world t = 7"
  "char2rocblas_fill sample_world c =
     (if c = CHR ''U'' then rocblas_fill_upper
      else if c = CHR ''L'' then rocblas_fill_lower else rocblas_fill_full)"
  "memcheck sample_world b = hipSuccess"
  "transfer sample_world d b = hipSuccess"
  "set_pointer_mode sample_world pm = rocblas_status_success"
  "get_stream sample_world = rocblas_status_success"
  "spr2_status sample_world pmo cl ops = sample_status cl"
  by (simp_all add: sample_world_def)

lemma sample_arg_fields:
  "fortran (sample_arg u n t) = False"
  "N (sample_arg u n t) = 2"
  "incx (sample_arg u n t) = 1"
  "incy (sample_arg u n t) = - 1"
  "alpha (sample_arg u n t) = 3"
  "uplo (sample_arg u n t) = CHR ''U''"
  "unit_check (sample_arg u n t) = u"
  "norm_check (sample_arg u n t) = n"
  "timing (sample_arg u n t) = t"
  "cold_iters (sample_arg u n t) = 1"
  "iters (sample_arg u n t) = 2"
  by (simp_all add: sample_arg_def)

lemmas sample_fields = sample_world_fields sample_arg_fields sample_status_def
  assertion_returns_def


subsection \<open>The member of the local handle\<close>

text \<open>No statement of the two functions writes the member of the local handle, so the
  handle destroyed at the end is the one created at the start.\<close>

lemma keeps_handle_exec:
  assumes "list_all keeps_handle cs"
  shows "keeps_handle (exec cs)"
  using assms
proof (induction cs)
  case Nil
  show ?case by (simp add: keeps_handle_def)
next
  case (Cons c cs)
  then have c: "keeps_handle c" and r: "keeps_handle (exec cs)" by simp_all
  show ?case
    unfolding keeps_handle_def
  proof
    fix s
    show "handle (exec (c # cs) s) = handle s"
      using c r by (simp add: keeps_handle_def)
  qed
qed

lemma keeps_handle_for_loop:
  assumes "keeps_handle body"
  shows "keeps_handle (for_loop i n body)"
  unfolding keeps_handle_def
proof
  fix s
  show "handle (for_loop i n body s) = handle s"
    using assms
  proof (induction i n body s rule: for_loop.induct)
    case (1 iter n body s)
    show ?case
    proof (cases "iter < n \<and> \<not> returned s")
      case True
      have "for_loop iter n body s = for_loop (iter + 1) n body (body s)"
        using True by (subst for_loop.simps) simp
      then show ?thesis
        using "1.IH"[OF True "1.prems"] "1.prems" by (simp add: keeps_handle_def)
    next
      case False
      then have "for_loop iter n body s = s" by (subst for_loop.simps) auto
      then show ?thesis by simp
    qed
  qed
qed

lemma keeps_handle_prims:
  "keeps_handle (host_vector w b sz)"
  "keeps_handle (device_vector w b sz)"
  "keeps_handle (checked_memcheck w m b)"
  "keeps_handle (store_at b i v)"
  "keeps_handle (assign d b)"
  "keeps_handle (return_if t)"
  "keeps_handle (init_vector w b f)"
  "keeps_handle (transfer_from w d b)"
  "keeps_handle (set_mode w pm)"
  "keeps_handle (rocblas_spr2_fn w a c)"
  "keeps_handle (call_cblas_spr2 w ul n al x ix y iy A)"
  "keeps_handle (cpu_timer_start w)"
  "keeps_handle (cpu_timer_stop w)"
  "keeps_handle (unit_check_stmt sz g b)"
  "keeps_handle (norm_check_1 w sz g b)"
  "keeps_handle (norm_check_2 w sz g b)"
  "keeps_handle (get_stream_stmt w)"
  "keeps_handle (gpu_timer_start w)"
  "keeps_handle (gpu_timer_stop w)"
  "keeps_handle (log_args w n)"
  by (simp_all add: keeps_handle_def fields)

lemma keeps_handle_with_handle:
  "(\<And>h. keeps_handle (k h)) \<Longrightarrow> keeps_handle (with_handle k)"
  by (simp add: keeps_handle_def with_handle_def)

lemma body_handle:
  assumes "list_all keeps_handle cs"
  shows "handle (exec (rocblas_local_handle_ctor w # cs) entry) = create_handle w 0"
  using keeps_handle_exec[OF assms] by (simp add: keeps_handle_def fields)

lemma blocks_keep_handle:
  "list_all keeps_handle (allocate w arg)"
  "list_all keeps_handle (initialise w)"
  "list_all keeps_handle (correctness w arg)"
  "list_all keeps_handle (benchmark w arg)"
  "list_all keeps_handle (tl (bad_arg_body w arg))"
  by (simp_all add: block_defs bad_arg_body_def keeps_handle_prims keeps_handle_with_handle
      keeps_handle_for_loop)

lemma bad_arg_body_Cons:
  "bad_arg_body w arg = rocblas_local_handle_ctor w # tl (bad_arg_body w arg)"
  by (simp add: bad_arg_body_def Let_def)

lemma bad_arg_handle: "handle (exec (bad_arg_body w arg) entry) = create_handle w 0"
  using body_handle[OF blocks_keep_handle(5), of w w arg] bad_arg_body_Cons[of w arg] by simp


subsection \<open>Every run is an initial part of the run with no fatal check\<close>

text \<open>
  A check that is fatal changes nothing but whether the function goes on. So a run is,
  statement for statement, the run of the same function in the world where no check is
  fatal, up to the statement at which a failed check ends it.
\<close>

lemma exec_truncated:
  assumes "list_all2 same_but_returned cs cs'" "list_all keeps_returned cs'" "\<not> returned s"
  shows "\<exists>k\<le>length cs'. trace (exec cs s) = trace (exec (take k cs') s)
           \<and> handle (exec cs s) = handle (exec (take k cs') s)
           \<and> (\<not> returned (exec cs s) \<longrightarrow> exec cs s = exec cs' s)"
  using assms
proof (induction cs cs' arbitrary: s rule: list_all2_induct)
  case Nil
  show ?case by simp
next
  case (Cons c cs c' cs')
  have e: "exec (c # cs) s = exec cs (c s)" using Cons.prems by simp
  have same: "c s = (c' s)\<lparr>returned := returned (c s)\<rparr>"
    using Cons.hyps(1) by (simp add: same_but_returned_def)
  have kr: "returned (c' s) = False" using Cons.prems by (simp add: keeps_returned_def)
  show ?case
  proof (cases "returned (c s)")
    case True
    then have "exec (c # cs) s = c s" using e by (simp add: exec_returned)
    moreover have "exec (take 1 (c' # cs')) s = c' s" using Cons.prems by simp
    moreover have "trace (c s) = trace ((c' s)\<lparr>returned := returned (c s)\<rparr>)"
      "handle (c s) = handle ((c' s)\<lparr>returned := returned (c s)\<rparr>)"
      using same by simp_all
    then have "trace (c s) = trace (c' s)" "handle (c s) = handle (c' s)" by simp_all
    ultimately have "trace (exec (c # cs) s) = trace (exec (take 1 (c' # cs')) s)
        \<and> handle (exec (c # cs) s) = handle (exec (take 1 (c' # cs')) s)
        \<and> (\<not> returned (exec (c # cs) s) \<longrightarrow> exec (c # cs) s = exec (c' # cs') s)"
      using True by simp
    moreover have "1 \<le> length (c' # cs')" by simp
    ultimately show ?thesis by blast
  next
    case False
    then have "c s = (c' s)\<lparr>returned := returned (c' s)\<rparr>" using same kr by simp
    then have eq: "c s = c' s" by simp
    have "list_all keeps_returned cs'" using Cons.prems by simp
    from Cons.IH[OF this False]
    obtain k where k: "k \<le> length cs'" "trace (exec cs (c s)) = trace (exec (take k cs') (c s))"
      "handle (exec cs (c s)) = handle (exec (take k cs') (c s))"
      "\<not> returned (exec cs (c s)) \<longrightarrow> exec cs (c s) = exec cs' (c s)" by blast
    have "exec (take (Suc k) (c' # cs')) s = exec (take k cs') (c s)"
      using Cons.prems eq by simp
    moreover have "exec (c' # cs') s = exec cs' (c s)" using Cons.prems eq by simp
    ultimately have "trace (exec (c # cs) s) = trace (exec (take (Suc k) (c' # cs')) s)
        \<and> handle (exec (c # cs) s) = handle (exec (take (Suc k) (c' # cs')) s)
        \<and> (\<not> returned (exec (c # cs) s) \<longrightarrow> exec (c # cs) s = exec (c' # cs') s)"
      using e k by simp
    moreover have "Suc k \<le> length (c' # cs')" using k(1) by simp
    ultimately show ?thesis by blast
  qed
qed

lemma initial_segment:
  assumes "list_all2 same_but_returned cs cs'" "list_all keeps_returned cs'"
    and "list_all (emits_only (\<lambda>e. True)) cs'" "\<not> returned s"
  shows "\<exists>es. trace (exec cs' s) = trace (exec cs s) @ es
           \<and> (\<not> returned (exec cs s) \<longrightarrow> exec cs s = exec cs' s)"
proof -
  obtain k where k: "trace (exec cs s) = trace (exec (take k cs') s)"
      "\<not> returned (exec cs s) \<longrightarrow> exec cs s = exec cs' s"
    using exec_truncated[OF assms(1,2,4)] by blast
  have "list_all (emits_only (\<lambda>e. True)) (drop k cs')"
    using assms(3) set_drop_subset[of k cs'] by (auto simp: list_all_iff)
  then obtain es where "trace (exec (drop k cs') (exec (take k cs') s)) =
      trace (exec (take k cs') s) @ es"
    using emits_only_exec[of "\<lambda>e. True" "drop k cs'"] unfolding emits_only_def by blast
  moreover have "exec cs' s = exec (drop k cs') (exec (take k cs') s)"
    using exec_append[of "take k cs'" "drop k cs'" s] by simp
  ultimately have "trace (exec cs' s) = trace (exec cs s) @ es" using k(1) by simp
  then show ?thesis using k(2) by blast
qed

lemma same_but_returned_refl: "same_but_returned c c"
  by (simp add: same_but_returned_def)

lemma same_but_returned_prims:
  "same_but_returned (rocblas_local_handle_ctor w) (rocblas_local_handle_ctor (lenient w))"
  "same_but_returned (host_vector w b sz) (host_vector (lenient w) b sz)"
  "same_but_returned (device_vector w b sz) (device_vector (lenient w) b sz)"
  "same_but_returned (checked_memcheck w m b) (checked_memcheck (lenient w) m b)"
  "same_but_returned (init_vector w b f) (init_vector (lenient w) b f)"
  "same_but_returned (transfer_from w d b) (transfer_from (lenient w) d b)"
  "same_but_returned (set_mode w pm) (set_mode (lenient w) pm)"
  "same_but_returned (rocblas_spr2_fn w a c) (rocblas_spr2_fn (lenient w) a c)"
  "same_but_returned (call_cblas_spr2 w ul n al x ix y iy A)
     (call_cblas_spr2 (lenient w) ul n al x ix y iy A)"
  "same_but_returned (cpu_timer_start w) (cpu_timer_start (lenient w))"
  "same_but_returned (cpu_timer_stop w) (cpu_timer_stop (lenient w))"
  "same_but_returned (norm_check_1 w sz g b) (norm_check_1 (lenient w) sz g b)"
  "same_but_returned (norm_check_2 w sz g b) (norm_check_2 (lenient w) sz g b)"
  "same_but_returned (get_stream_stmt w) (get_stream_stmt (lenient w))"
  "same_but_returned (gpu_timer_start w) (gpu_timer_start (lenient w))"
  "same_but_returned (gpu_timer_stop w) (gpu_timer_stop (lenient w))"
  "same_but_returned (log_args w n) (log_args (lenient w) n)"
  by (auto simp: same_but_returned_def prim_defs split: option.splits assertion.splits)

lemma same_but_returned_with_handle:
  "(\<And>h. same_but_returned (k h) (k' h)) \<Longrightarrow> same_but_returned (with_handle k) (with_handle k')"
  by (simp add: same_but_returned_def with_handle_def)

lemma keeps_returned_for_loop:
  assumes "keeps_returned body"
  shows "keeps_returned (for_loop i n body)"
  unfolding keeps_returned_def
proof
  fix s
  show "returned (for_loop i n body s) = returned s"
    using assms
  proof (induction i n body s rule: for_loop.induct)
    case (1 iter n body s)
    show ?case
    proof (cases "iter < n \<and> \<not> returned s")
      case True
      have "for_loop iter n body s = for_loop (iter + 1) n body (body s)"
        using True by (subst for_loop.simps) simp
      then show ?thesis
        using "1.IH"[OF True "1.prems"] "1.prems" by (simp add: keeps_returned_def)
    next
      case False
      then have "for_loop iter n body s = s" by (subst for_loop.simps) auto
      then show ?thesis by simp
    qed
  qed
qed

lemma keeps_returned_prims:
  "keeps_returned (rocblas_local_handle_ctor w)"
  "keeps_returned (host_vector w b sz)"
  "keeps_returned (device_vector w b sz)"
  "keeps_returned (checked_memcheck (lenient w) m b)"
  "keeps_returned (store_at b i v)"
  "keeps_returned (assign d b)"
  "keeps_returned (init_vector w b f)"
  "keeps_returned (transfer_from (lenient w) d b)"
  "keeps_returned (set_mode (lenient w) pm)"
  "keeps_returned (rocblas_spr2_fn (lenient w) a c)"
  "keeps_returned (call_cblas_spr2 w ul n al x ix y iy A)"
  "keeps_returned (cpu_timer_start w)"
  "keeps_returned (cpu_timer_stop w)"
  "keeps_returned (unit_check_stmt sz g b)"
  "keeps_returned (norm_check_1 w sz g b)"
  "keeps_returned (norm_check_2 w sz g b)"
  "keeps_returned (get_stream_stmt (lenient w))"
  "keeps_returned (gpu_timer_start w)"
  "keeps_returned (gpu_timer_stop w)"
  "keeps_returned (log_args w n)"
  by (simp_all add: keeps_returned_def fields)

lemma keeps_returned_unchecked: "keeps_returned (rocblas_spr2_fn w Unchecked c)"
  by (simp add: keeps_returned_def fields assertion_returns_def)

lemma keeps_returned_with_handle:
  "(\<And>h. keeps_returned (k h)) \<Longrightarrow> keeps_returned (with_handle k)"
  by (simp add: keeps_returned_def with_handle_def)

lemma keeps_returned_timed_call: "keeps_returned (timed_call w arg)"
  by (simp add: timed_call_def keeps_returned_with_handle keeps_returned_unchecked)

lemma same_blocks:
  "list_all2 same_but_returned (allocate w arg) (allocate (lenient w) arg)"
  "list_all2 same_but_returned (initialise w) (initialise (lenient w))"
  "list_all2 same_but_returned (correctness w arg) (correctness (lenient w) arg)"
  "list_all2 same_but_returned (benchmark w arg) (benchmark (lenient w) arg)"
  "list_all2 same_but_returned (bad_arg_body w arg) (bad_arg_body (lenient w) arg)"
  by (simp_all add: allocate_def initialise_def correctness_def benchmark_def bad_arg_body_def
      same_but_returned_refl same_but_returned_prims same_but_returned_with_handle
      timed_call_lenient Let_def list_all2_appendI)

lemma lenient_blocks_keep_returned:
  "list_all keeps_returned (allocate (lenient w) arg)"
  "list_all keeps_returned (initialise (lenient w))"
  "list_all keeps_returned (correctness (lenient w) arg)"
  "list_all keeps_returned (benchmark (lenient w) arg)"
  "list_all keeps_returned (bad_arg_body (lenient w) arg)"
  by (simp_all add: allocate_def initialise_def correctness_def benchmark_def bad_arg_body_def
      keeps_returned_prims keeps_returned_with_handle keeps_returned_for_loop
      keeps_returned_timed_call Let_def)

lemma blocks_emit:
  "list_all (emits_only (\<lambda>e. True)) (allocate w arg)"
  "list_all (emits_only (\<lambda>e. True)) (initialise w)"
  "list_all (emits_only (\<lambda>e. True)) (correctness w arg)"
  "list_all (emits_only (\<lambda>e. True)) (benchmark w arg)"
  "list_all (emits_only (\<lambda>e. True)) (bad_arg_body w arg)"
  by (simp_all add: allocate_def initialise_def correctness_def benchmark_def bad_arg_body_def
      emits_only_prims emits_only_with_handle emits_only_for_loop emits_timed_call Let_def)

text \<open>Every run of \<^verbatim>\<open>testing_spr2_bad_arg\<close>, and every run of \<^verbatim>\<open>testing_spr2\<close> with valid
  sizes, is an initial part of the run in which no check is fatal, followed by the
  destruction of the handle.\<close>

lemma bad_arg_initial:
  "\<exists>T es. trace (testing_spr2_bad_arg w arg) = T @ [Destroy_handle (create_handle w 0)]
     \<and> trace (testing_spr2_bad_arg (lenient w) arg) = T @ es @ [Destroy_handle (create_handle w 0)]
     \<and> (\<not> returned (testing_spr2_bad_arg w arg) \<longrightarrow> es = [])"
proof -
  obtain es where es: "trace (exec (bad_arg_body (lenient w) arg) entry) =
      trace (exec (bad_arg_body w arg) entry) @ es"
    "\<not> returned (exec (bad_arg_body w arg) entry) \<longrightarrow>
       exec (bad_arg_body w arg) entry = exec (bad_arg_body (lenient w) arg) entry"
    using initial_segment[OF same_blocks(5) lenient_blocks_keep_returned(5) blocks_emit(5),
        of entry w arg]
    by (auto simp: fields)
  have "\<not> returned (testing_spr2_bad_arg w arg) \<longrightarrow> es = []"
    using es by (auto simp: testing_spr2_bad_arg_def fields)
  moreover have "trace (testing_spr2_bad_arg w arg) =
      trace (exec (bad_arg_body w arg) entry) @ [Destroy_handle (create_handle w 0)]"
    by (simp add: testing_spr2_bad_arg_def fields bad_arg_handle)
  moreover have "trace (testing_spr2_bad_arg (lenient w) arg) =
      trace (exec (bad_arg_body w arg) entry) @ es @ [Destroy_handle (create_handle w 0)]"
    using es(1) bad_arg_handle[of "lenient w" arg] by (simp add: testing_spr2_bad_arg_def fields)
  ultimately show ?thesis by blast
qed

lemma testing_spr2_initial:
  assumes "0 \<le> sint (N arg)" "incx arg \<noteq> 0" "incy arg \<noteq> 0"
  shows "\<exists>T es. trace (testing_spr2 w arg) = T @ [Destroy_handle (create_handle w 0)]
     \<and> trace (testing_spr2 (lenient w) arg) = T @ es @ [Destroy_handle (create_handle w 0)]
     \<and> (\<not> returned (testing_spr2 w arg) \<longrightarrow> es = [])"
proof -
  define B where "B v = rocblas_local_handle_ctor v # allocate v arg @ initialise v
      @ correctness v arg @ benchmark v arg" for v :: "('a, 'b) world"
  have run: "testing_spr2 v arg = rocblas_local_handle_dtor (exec (B v) entry)" for v
    using assms by (simp add: testing_spr2_def B_def argument_check_valid)
  have h: "handle (exec (B v) entry) = create_handle v 0" for v
    unfolding B_def by (rule body_handle) (simp add: blocks_keep_handle)
  have 1: "list_all2 same_but_returned (B w) (B (lenient w))"
    unfolding B_def by (simp add: same_but_returned_prims same_blocks list_all2_appendI)
  have 2: "list_all keeps_returned (B (lenient w))"
    unfolding B_def by (simp add: keeps_returned_prims lenient_blocks_keep_returned)
  have 3: "list_all (emits_only (\<lambda>e. True)) (B (lenient w))"
    unfolding B_def by (simp add: emits_only_prims blocks_emit)
  obtain es where es: "trace (exec (B (lenient w)) entry) = trace (exec (B w) entry) @ es"
    "\<not> returned (exec (B w) entry) \<longrightarrow> exec (B w) entry = exec (B (lenient w)) entry"
    using initial_segment[OF 1 2 3, of entry] by (auto simp: fields)
  have "\<not> returned (testing_spr2 w arg) \<longrightarrow> es = []"
    using es by (auto simp: run fields)
  moreover have "trace (testing_spr2 w arg) =
      trace (exec (B w) entry) @ [Destroy_handle (create_handle w 0)]"
    by (simp add: run fields h)
  moreover have "trace (testing_spr2 (lenient w) arg) =
      trace (exec (B w) entry) @ es @ [Destroy_handle (create_handle w 0)]"
    using es(1) h[of "lenient w"] by (simp add: run fields)
  ultimately show ?thesis by blast
qed


subsection \<open>Invalid sizes\<close>

text \<open>
  Claim C3. When \<open>N < 0\<close>, or \<open>incx = 0\<close>, or \<open>incy = 0\<close>, a run of \<^verbatim>\<open>testing_spr2\<close> consists
  of the construction of the handle, one vendor call with the scalar and the three data
  pointers null, asserted to return \<open>rocblas_status_invalid_size\<close>, and the destruction
  of the handle: the function has returned, and no host or device vector was allocated.
  This holds whatever the vendor call returns and whether or not a failed assertion is
  fatal.
\<close>

theorem invalid_size_probe:
  assumes "sint (N arg) < 0 \<or> incx arg = 0 \<or> incy arg = 0"
  shows "trace (testing_spr2 w arg) =
           [Create_handle (create_handle w 0),
            Rocblas_spr2 None
              (Spr2_call (fortran arg) (Some (create_handle w 0)) (char2rocblas_fill w (uplo arg))
                 (N arg) alpha_null None (incx arg) None (incy arg) None)
              (Operands None None None None) (Expect rocblas_status_invalid_size),
            Destroy_handle (create_handle w 0)]
         \<and> returned (testing_spr2 w arg)
         \<and> filter is_allocation (trace (testing_spr2 w arg)) = []"
proof -
  let ?s1 = "rocblas_local_handle_ctor w entry"
  have run: "testing_spr2 w arg = rocblas_local_handle_dtor (exec (argument_check w arg) ?s1)"
    using argument_check_returns[OF assms, of w ?s1]
    by (simp add: testing_spr2_def exec_append exec_returned entry_def)
  have tr: "trace (rocblas_local_handle_dtor (exec (argument_check w arg) ?s1)) =
           [Create_handle (create_handle w 0),
            Rocblas_spr2 None
              (Spr2_call (fortran arg) (Some (create_handle w 0)) (char2rocblas_fill w (uplo arg))
                 (N arg) alpha_null None (incx arg) None (incy arg) None)
              (Operands None None None None) (Expect rocblas_status_invalid_size),
            Destroy_handle (create_handle w 0)]"
    using assms by (simp add: argument_check_def stmt_defs entry_def)
  have rt: "returned (rocblas_local_handle_dtor (exec (argument_check w arg) ?s1))"
    using argument_check_returns[OF assms, of w ?s1]
    by (simp add: rocblas_local_handle_dtor_def emit_def)
  show ?thesis
    unfolding run using tr rt by (simp add: is_allocation_def)
qed

theorem invalid_size_probe_witness:
  "incx ((sample_arg True True True)\<lparr>incx := 0\<rparr>) = 0
   \<and> trace (testing_spr2 sample_world ((sample_arg True True True)\<lparr>incx := 0\<rparr>)) =
       [Create_handle 7,
        Rocblas_spr2 None
          (Spr2_call False (Some 7) rocblas_fill_upper 2 alpha_null None 0 None (- 1) None)
          (Operands None None None None) (Expect rocblas_status_invalid_size),
        Destroy_handle 7]
   \<and> returned (testing_spr2 sample_world ((sample_arg True True True)\<lparr>incx := 0\<rparr>))"
  using invalid_size_probe[of "(sample_arg True True True)\<lparr>incx := 0\<rparr>" sample_world]
  by (simp add: sample_arg_def sample_world_def)


subsection \<open>Invalid arguments\<close>

text \<open>
  Claim C2, as amended. In every run of \<^verbatim>\<open>testing_spr2_bad_arg\<close> the vendor calls made,
  each with the status asserted for it, are an initial segment of these five, on
  \<open>N = 100\<close> with unit increments: one with the fill mode \<open>rocblas_fill_full\<close>, asserted
  to return \<open>rocblas_status_invalid_value\<close>; three with the upper fill mode and one of
  \<open>x\<close>, \<open>y\<close>, \<open>A\<close> null, the other arguments valid, each asserted to return
  \<open>rocblas_status_invalid_pointer\<close>; one with a null handle, asserted to return
  \<open>rocblas_status_invalid_handle\<close>. All five are made in every run that no failed check
  ends. This holds for every behaviour of the vendor function, of the allocations and of
  the two check macros.
\<close>

theorem bad_arg_assertions:
  "\<exists>k\<le>5. vendor_calls (trace (testing_spr2_bad_arg w arg)) =
      take k
        [(Spr2_call (fortran arg) (Some (create_handle w 0)) rocblas_fill_full 100
            (alpha_host (point_six w)) (Some dx) 1 (Some dy) 1 (Some dA_1),
          Expect rocblas_status_invalid_value),
         (Spr2_call (fortran arg) (Some (create_handle w 0)) rocblas_fill_upper 100
            (alpha_host (point_six w)) None 1 (Some dy) 1 (Some dA_1),
          Expect rocblas_status_invalid_pointer),
         (Spr2_call (fortran arg) (Some (create_handle w 0)) rocblas_fill_upper 100
            (alpha_host (point_six w)) (Some dx) 1 None 1 (Some dA_1),
          Expect rocblas_status_invalid_pointer),
         (Spr2_call (fortran arg) (Some (create_handle w 0)) rocblas_fill_upper 100
            (alpha_host (point_six w)) (Some dx) 1 (Some dy) 1 None,
          Expect rocblas_status_invalid_pointer),
         (Spr2_call (fortran arg) None rocblas_fill_upper 100
            (alpha_host (point_six w)) (Some dx) 1 (Some dy) 1 (Some dA_1),
          Expect rocblas_status_invalid_handle)]
    \<and> (\<not> returned (testing_spr2_bad_arg w arg) \<longrightarrow> k = 5)"
proof -
  let ?five = "[(Spr2_call (fortran arg) (Some (create_handle w 0)) rocblas_fill_full 100
            (alpha_host (point_six w)) (Some dx) 1 (Some dy) 1 (Some dA_1),
          Expect rocblas_status_invalid_value),
         (Spr2_call (fortran arg) (Some (create_handle w 0)) rocblas_fill_upper 100
            (alpha_host (point_six w)) None 1 (Some dy) 1 (Some dA_1),
          Expect rocblas_status_invalid_pointer),
         (Spr2_call (fortran arg) (Some (create_handle w 0)) rocblas_fill_upper 100
            (alpha_host (point_six w)) (Some dx) 1 None 1 (Some dA_1),
          Expect rocblas_status_invalid_pointer),
         (Spr2_call (fortran arg) (Some (create_handle w 0)) rocblas_fill_upper 100
            (alpha_host (point_six w)) (Some dx) 1 (Some dy) 1 None,
          Expect rocblas_status_invalid_pointer),
         (Spr2_call (fortran arg) None rocblas_fill_upper 100
            (alpha_host (point_six w)) (Some dx) 1 (Some dy) 1 (Some dA_1),
          Expect rocblas_status_invalid_handle)]"
  have full: "vendor_calls (trace (testing_spr2_bad_arg (lenient w) arg)) = ?five"
    by (simp add: testing_spr2_bad_arg_def bad_arg_body_def Let_def fields)
  obtain T es where t: "trace (testing_spr2_bad_arg w arg) = T @ [Destroy_handle (create_handle w 0)]"
    "trace (testing_spr2_bad_arg (lenient w) arg) = T @ es @ [Destroy_handle (create_handle w 0)]"
    "\<not> returned (testing_spr2_bad_arg w arg) \<longrightarrow> es = []"
    using bad_arg_initial[of w arg] by blast
  have a: "vendor_calls (trace (testing_spr2_bad_arg w arg)) = vendor_calls T"
    by (simp add: t(1) vendor_calls_append)
  have b: "vendor_calls T @ vendor_calls es = ?five"
    using full by (simp add: t(2) vendor_calls_append)
  let ?k = "length (vendor_calls T)"
  have "vendor_calls T = take ?k ?five" using b by (rule append_eq_take)
  moreover have "?k \<le> 5" using arg_cong[OF b, of length] by simp
  moreover have "\<not> returned (testing_spr2_bad_arg w arg) \<longrightarrow> ?k = 5"
    using t(3) arg_cong[OF b, of length] by auto
  ultimately show ?thesis unfolding a by blast
qed

theorem bad_arg_assertions_witness:
  "\<not> returned (testing_spr2_bad_arg sample_world (sample_arg False False False))
   \<and> vendor_calls (trace (testing_spr2_bad_arg sample_world (sample_arg False False False))) =
       [(Spr2_call False (Some 7) rocblas_fill_full 100 (alpha_host 6) (Some dx) 1 (Some dy) 1
           (Some dA_1), Expect rocblas_status_invalid_value),
        (Spr2_call False (Some 7) rocblas_fill_upper 100 (alpha_host 6) None 1 (Some dy) 1
           (Some dA_1), Expect rocblas_status_invalid_pointer),
        (Spr2_call False (Some 7) rocblas_fill_upper 100 (alpha_host 6) (Some dx) 1 None 1
           (Some dA_1), Expect rocblas_status_invalid_pointer),
        (Spr2_call False (Some 7) rocblas_fill_upper 100 (alpha_host 6) (Some dx) 1 (Some dy) 1
           None, Expect rocblas_status_invalid_pointer),
        (Spr2_call False None rocblas_fill_upper 100 (alpha_host 6) (Some dx) 1 (Some dy) 1
           (Some dA_1), Expect rocblas_status_invalid_handle)]"
proof -
  have r: "\<not> returned (testing_spr2_bad_arg sample_world (sample_arg False False False))"
    by (simp add: testing_spr2_bad_arg_def bad_arg_body_def Let_def fields sample_fields)
  have p: "point_six sample_world = 6" by (simp add: sample_world_def)
  show ?thesis
    using bad_arg_assertions[of sample_world "sample_arg False False False"] r
    by (auto simp: sample_world_fields sample_arg_fields p)
qed

text \<open>
  The claim as first stated, for every invocation, fails when a check ends the function
  before the calls: here the device allocations fail, \<^verbatim>\<open>CHECK_DEVICE_ALLOCATION\<close> returns
  at line 41, and no vendor call is made.
\<close>

theorem bad_arg_assertions_counterexample:
  "trace (testing_spr2_bad_arg (sample_world\<lparr>memcheck := (\<lambda>b. hipErrorOutOfMemory)\<rparr>)
      (sample_arg False False False)) =
     [Create_handle 7, Device_vector dA_1 5050, Device_vector dx 100, Device_vector dy 100,
      Destroy_handle 7]
   \<and> vendor_calls (trace (testing_spr2_bad_arg
        (sample_world\<lparr>memcheck := (\<lambda>b. hipErrorOutOfMemory)\<rparr>) (sample_arg False False False))) = []"
  by (simp add: testing_spr2_bad_arg_def bad_arg_body_def Let_def fields sample_world_def
      size_defs)


subsection \<open>The correctness run\<close>

lemmas initial_defs = initial_operands_def initial_A_def initial_x_def initial_y_def

lemmas correctness_defs = host_mode_call_def device_mode_call_def gpu_result_1_def
  gpu_result_2_def cpu_result_def initial_defs

lemma prepared_state:
  assumes "0 \<le> sint (N arg)" "incx arg \<noteq> 0" "incy arg \<noteq> 0"
    and "\<forall>b. memcheck w b = hipSuccess" "uploads_succeed w"
  shows "\<not> returned (prepared w arg)"
    and "handle (prepared w arg) = create_handle w 0"
    and "mem (prepared w arg) dA_1 = initial_A w arg"
    and "mem (prepared w arg) dA_2 = initial_A w arg"
    and "mem (prepared w arg) hA_gold = initial_A w arg"
    and "mem (prepared w arg) dx = initial_x w arg"
    and "mem (prepared w arg) hx = initial_x w arg"
    and "mem (prepared w arg) dy = initial_y w arg"
    and "mem (prepared w arg) hy = initial_y w arg"
    and "mem (prepared w arg) d_alpha = [alpha arg]"
  using assms
  by (simp_all add: prepared_def argument_check_valid allocate_def initialise_def Let_def fields
      initial_defs uploads_succeed_def)

lemma correctness_from:
  assumes "unit_check arg \<or> norm_check arg"
    and "correctness_checks_pass w arg"
    and "\<not> returned s"
    and "handle s = create_handle w 0"
    and "mem s dA_1 = initial_A w arg"
    and "mem s dA_2 = initial_A w arg"
    and "mem s hA_gold = initial_A w arg"
    and "mem s dx = initial_x w arg"
    and "mem s hx = initial_x w arg"
    and "mem s dy = initial_y w arg"
    and "mem s hy = initial_y w arg"
    and "mem s d_alpha = [alpha arg]"
  shows "trace (exec (correctness w arg) s) = trace s @ correctness_events w arg"
    and "\<not> returned (exec (correctness w arg) s)"
  using assms
  by (simp_all add: correctness_def correctness_events_def correctness_checks_pass_def fields
      operands_of_def assertion_returns_def correctness_defs)

text \<open>
  Claim C1, as amended. When \<^verbatim>\<open>arg.unit_check\<close> or \<^verbatim>\<open>arg.norm_check\<close> is set, the sizes are
  valid, and every call under a check macro up to the comparisons reports success, the
  run contains, in this order and with nothing in between: the request for the host
  pointer mode and the vendor call in that mode, with the host scalar, on \<open>dA_1\<close>; the
  request for the device pointer mode and the vendor call in that mode, with the device
  scalar, on \<open>dA_2\<close>; the reference call on \<open>hA_gold\<close> between two reads of the clock;
  the transfers of \<open>dA_1\<close> to \<open>hA_1\<close> and of \<open>dA_2\<close> to \<open>hA_2\<close>; and then, for
  \<^verbatim>\<open>unit_check\<close>, \<^verbatim>\<open>unit_check_general\<close> of \<open>hA_gold\<close>, holding the result of the reference
  call, against \<open>hA_1\<close> and against \<open>hA_2\<close>, holding the results of the two vendor calls,
  and for \<^verbatim>\<open>norm_check\<close>, \<^verbatim>\<open>norm_check_general\<close> of the same pairs. All three invocations
  start from the initial data. The tolerance of a comparison is that of these two
  routines, which are not part of the harness.
\<close>

theorem correctness_run:
  assumes "0 \<le> sint (N arg)" "incx arg \<noteq> 0" "incy arg \<noteq> 0"
    and "unit_check arg \<or> norm_check arg"
    and "correctness_checks_pass w arg"
  shows "\<exists>pre post. trace (testing_spr2 w arg) = pre @ correctness_events w arg @ post"
proof -
  have m: "\<forall>b. memcheck w b = hipSuccess" and u: "uploads_succeed w"
    using assms(5) by (simp_all add: correctness_checks_pass_def)
  have "trace (through_correctness w arg) = trace (prepared w arg) @ correctness_events w arg"
    unfolding through_correctness_prepared
    using assms(4,5) prepared_state[OF assms(1-3) m u] by (rule correctness_from)
  moreover obtain es where "trace (testing_spr2 w arg) = trace (through_correctness w arg) @ es"
    using testing_spr2_trace_split by blast
  ultimately have "trace (testing_spr2 w arg) =
      trace (prepared w arg) @ correctness_events w arg @ es"
    by simp
  then show ?thesis by blast
qed

theorem correctness_run_witness:
  "0 \<le> sint (N (sample_arg True True False))
   \<and> incx (sample_arg True True False) \<noteq> 0
   \<and> incy (sample_arg True True False) \<noteq> 0
   \<and> unit_check (sample_arg True True False)
   \<and> correctness_checks_pass sample_world (sample_arg True True False)
   \<and> (\<exists>pre post. trace (testing_spr2 sample_world (sample_arg True True False)) =
         pre
         @ [Set_pointer_mode rocblas_pointer_mode_host,
            Rocblas_spr2 (Some rocblas_pointer_mode_host)
              (Spr2_call False (Some 7) rocblas_fill_upper 2 (alpha_host 3) (Some dx) 1 (Some dy)
                 (- 1) (Some dA_1))
              (Operands (Some 3) (Some [5, 5]) (Some [5, 5]) (Some [4, 4, 4])) Check_error,
            Set_pointer_mode rocblas_pointer_mode_device,
            Rocblas_spr2 (Some rocblas_pointer_mode_device)
              (Spr2_call False (Some 7) rocblas_fill_upper 2 (alpha_dev d_alpha) (Some dx) 1
                 (Some dy) (- 1) (Some dA_2))
              (Operands (Some 3) (Some [5, 5]) (Some [5, 5]) (Some [4, 4, 4])) Check_error,
            Get_time_us_no_sync,
            Cblas_spr2 rocblas_fill_upper 2 3 [5, 5] 1 [5, 5] (- 1) hA_gold [4, 4, 4],
            Get_time_us_no_sync,
            Transfer hA_1 dA_1,
            Transfer hA_2 dA_2,
            Unit_check_general 1 3 1 hA_gold [14, 14, 14] hA_1 [14, 14, 14],
            Unit_check_general 1 3 1 hA_gold [14, 14, 14] hA_2 [14, 14, 14],
            Norm_check_general CHR ''F'' 1 3 1 hA_gold [14, 14, 14] hA_1 [14, 14, 14],
            Norm_check_general CHR ''F'' 1 3 1 hA_gold [14, 14, 14] hA_2 [14, 14, 14]]
         @ post)"
proof -
  have v: "0 \<le> sint (N (sample_arg True True False))" "incx (sample_arg True True False) \<noteq> 0"
    "incy (sample_arg True True False) \<noteq> 0"
    "unit_check (sample_arg True True False) \<or> norm_check (sample_arg True True False)"
    by (simp_all add: sample_arg_fields)
  have sz: "size_A_of 2 = 3" "size_vec 2 1 = 2" "size_vec 2 (- 1) = 2"
    "unat (3 :: size_t) = 3" "unat (2 :: size_t) = 2"
    by (simp_all add: size_defs)
  have rp: "replicate 2 x = [x, x]" "replicate 3 x = [x, x, x]" for x :: int
    by (simp_all add: numeral_2_eq_2 numeral_3_eq_3)
  have w: "rocblas_init sample_world b f n = replicate n (if f then 4 else 5)"
    "spr2_update sample_world pm cl ops =
       (case A_v ops of None \<Rightarrow> [] | Some v \<Rightarrow> map (\<lambda>a. a + 10) v)"
    "cblas_spr2 sample_world ul k al xv ix yv iy av = map (\<lambda>v. v + 10) av"
    for b f n pm cl ops ul k al xv ix yv iy av
    by (simp_all add: sample_world_def)
  have p: "correctness_checks_pass sample_world (sample_arg True True False)"
    by (simp add: correctness_checks_pass_def uploads_succeed_def correctness_defs sample_fields)
  have e: "correctness_events sample_world (sample_arg True True False) =
      [Set_pointer_mode rocblas_pointer_mode_host,
            Rocblas_spr2 (Some rocblas_pointer_mode_host)
              (Spr2_call False (Some 7) rocblas_fill_upper 2 (alpha_host 3) (Some dx) 1 (Some dy)
                 (- 1) (Some dA_1))
              (Operands (Some 3) (Some [5, 5]) (Some [5, 5]) (Some [4, 4, 4])) Check_error,
            Set_pointer_mode rocblas_pointer_mode_device,
            Rocblas_spr2 (Some rocblas_pointer_mode_device)
              (Spr2_call False (Some 7) rocblas_fill_upper 2 (alpha_dev d_alpha) (Some dx) 1
                 (Some dy) (- 1) (Some dA_2))
              (Operands (Some 3) (Some [5, 5]) (Some [5, 5]) (Some [4, 4, 4])) Check_error,
            Get_time_us_no_sync,
            Cblas_spr2 rocblas_fill_upper 2 3 [5, 5] 1 [5, 5] (- 1) hA_gold [4, 4, 4],
            Get_time_us_no_sync,
            Transfer hA_1 dA_1,
            Transfer hA_2 dA_2,
            Unit_check_general 1 3 1 hA_gold [14, 14, 14] hA_1 [14, 14, 14],
            Unit_check_general 1 3 1 hA_gold [14, 14, 14] hA_2 [14, 14, 14],
            Norm_check_general CHR ''F'' 1 3 1 hA_gold [14, 14, 14] hA_1 [14, 14, 14],
            Norm_check_general CHR ''F'' 1 3 1 hA_gold [14, 14, 14] hA_2 [14, 14, 14]]"
    by (simp add: correctness_events_def correctness_defs sample_fields sz w rp)
  show ?thesis
    using correctness_run[OF v p] v p unfolding e by (simp add: sample_arg_fields)
qed

text \<open>
  The claim as first stated, for every call with a check flag and valid sizes, fails when
  a checked call fails and the check ends the function. Here \<^verbatim>\<open>arg.uplo\<close> is a character
  that \<^verbatim>\<open>char2rocblas_fill\<close> maps to \<open>rocblas_fill_full\<close>: the first vendor call is rejected,
  \<^verbatim>\<open>CHECK_ROCBLAS_ERROR\<close> returns at line 142, and the run has no vendor call in device
  mode, no reference call, no transfer back and no comparison. The first twenty events
  are the creation of the handle, the eleven allocations, the three fillings and the five
  transfers to the device.
\<close>

theorem correctness_run_counterexample:
  "unit_check ((sample_arg True False False)\<lparr>uplo := CHR ''X''\<rparr>)
   \<and> 0 \<le> sint (N ((sample_arg True False False)\<lparr>uplo := CHR ''X''\<rparr>))
   \<and> incx ((sample_arg True False False)\<lparr>uplo := CHR ''X''\<rparr>) \<noteq> 0
   \<and> incy ((sample_arg True False False)\<lparr>uplo := CHR ''X''\<rparr>) \<noteq> 0
   \<and> drop 20 (trace (testing_spr2 sample_world ((sample_arg True False False)\<lparr>uplo := CHR ''X''\<rparr>)))
       = [Set_pointer_mode rocblas_pointer_mode_host,
          Rocblas_spr2 (Some rocblas_pointer_mode_host)
            (Spr2_call False (Some 7) rocblas_fill_full 2 (alpha_host 3) (Some dx) 1 (Some dy)
               (- 1) (Some dA_1))
            (Operands (Some 3) (Some [5, 5]) (Some [5, 5]) (Some [4, 4, 4])) Check_error,
          Destroy_handle 7]"
proof -
  have sz: "size_A_of 2 = 3" "size_vec 2 1 = 2" "size_vec 2 (- 1) = 2"
    "unat (3 :: size_t) = 3" "unat (2 :: size_t) = 2"
    by (simp_all add: size_defs)
  have rp: "replicate 2 x = [x, x]" "replicate 3 x = [x, x, x]" for x :: int
    by (simp_all add: numeral_2_eq_2 numeral_3_eq_3)
  have w: "rocblas_init sample_world b f n = replicate n (if f then 4 else 5)"
    for b f n
    by (simp_all add: sample_world_def)
  show ?thesis
    by (simp add: testing_spr2_def block_defs fields sample_fields sz w rp operands_of_def)
qed


subsection \<open>The inputs of the correctness run\<close>

lemma initialise_returns:
  "returned (exec (initialise w) s) =
     (returned s \<or> fatal w CHECK_HIP_ERROR \<and> \<not> uploads_succeed w)"
  apply (simp only: initialise_def returned_exec_Cons returned_exec_Nil fields uploads_succeed_def)
  apply auto
  done

lemma prepared_quiet:
  assumes "0 \<le> sint (N arg)" "incx arg \<noteq> 0" "incy arg \<noteq> 0"
  shows "invocation_inputs (trace (prepared w arg)) = []"
proof -
  have "list_all (emits_only (\<lambda>e. invocation_inputs [e] = []))
     (rocblas_local_handle_ctor w # argument_check w arg @ allocate w arg @ initialise w)"
    using assms
    by (simp add: argument_check_valid allocate_def initialise_def Let_def emits_only_prims)
  then obtain es where "trace (prepared w arg) = trace entry @ es"
      "list_all (\<lambda>e. invocation_inputs [e] = []) es"
    using emits_only_exec unfolding emits_only_def prepared_def by blast
  then show ?thesis using invocation_inputs_none[of es] by (simp add: fields)
qed

lemma prepared_split:
  "prepared w arg = exec (initialise w)
     (exec (rocblas_local_handle_ctor w # argument_check w arg @ allocate w arg) entry)"
proof -
  have "rocblas_local_handle_ctor w # argument_check w arg @ allocate w arg @ initialise w =
      (rocblas_local_handle_ctor w # argument_check w arg @ allocate w arg) @ initialise w"
    by simp
  then show ?thesis unfolding prepared_def by (simp only: exec_append)
qed

lemma lenient_invocations:
  assumes "0 \<le> sint (N arg)" "incx arg \<noteq> 0" "incy arg \<noteq> 0"
    and "unit_check arg \<or> norm_check arg"
    and "uploads_succeed w"
  shows "invocation_inputs (trace (through_correctness (lenient w) arg)) =
     [(Some dA_1, initial_operands w arg), (Some dA_2, initial_operands w arg),
      (Some hA_gold, initial_operands w arg)]"
  using assms
  by (simp add: through_correctness_def argument_check_valid allocate_def initialise_def
      correctness_def Let_def fields operands_of_def initial_defs uploads_succeed_def)

lemma correctness_generates_nothing:
  "emits_only (\<lambda>e. initial_data [e] = []) (exec (correctness w arg))"
  by (rule emits_only_exec)
    (simp add: correctness_def emits_only_prims emits_only_with_handle)

lemma prepared_initial_data:
  assumes "0 \<le> sint (N arg)" "incx arg \<noteq> 0" "incy arg \<noteq> 0"
    and "\<not> returned (prepared w arg)"
  shows "initial_data (trace (testing_spr2 w arg)) =
     [(hA_1, initial_A w arg), (hx, initial_x w arg), (hy, initial_y w arg)]"
proof -
  obtain es where es: "trace (exec (correctness w arg) (prepared w arg)) =
      trace (prepared w arg) @ es" "list_all (\<lambda>e. initial_data [e] = []) es"
    using correctness_generates_nothing[of w arg] unfolding emits_only_def by blast
  have "initial_data (trace (testing_spr2 w arg)) = initial_data (trace (prepared w arg))"
    using es initial_data_none[OF es(2)]
    by (simp add: after_correctness through_correctness_prepared initial_data_append)
  also have "\<dots> = initial_data (trace (prepared (lenient w) arg))"
    using prepared_lenient_eq[OF assms(4)] by simp
  also have "\<dots> = [(hA_1, initial_A w arg), (hx, initial_x w arg), (hy, initial_y w arg)]"
    using assms(1-3)
    by (simp add: prepared_def argument_check_valid allocate_def initialise_def Let_def fields
        initial_defs)
  finally show ?thesis .
qed

lemma cut_before_correctness:
  assumes "0 \<le> sint (N arg)" "incx arg \<noteq> 0" "incy arg \<noteq> 0"
    and "returned (prepared w arg)"
  shows "invocation_inputs (trace (testing_spr2 w arg)) = []"
    and "returned (through_correctness w arg)"
proof -
  have "through_correctness w arg = prepared w arg"
    using assms(4) by (simp add: through_correctness_prepared exec_returned)
  then show "invocation_inputs (trace (testing_spr2 w arg)) = []"
    "returned (through_correctness w arg)"
    using assms(4) prepared_quiet[OF assms(1-3), of w] by (simp_all add: after_correctness)
qed

text \<open>
  Claim C4. In every correctness run, whether or not a failed check ends it, the
  invocations made under a check are, in this order, the vendor call on \<open>dA_1\<close>, the
  vendor call on \<open>dA_2\<close> and the reference call on \<open>hA_gold\<close>, or the first of these, and
  each is given the same operands: the scalar \<^verbatim>\<open>arg.alpha\<close> (from the host variable, from
  \<open>d_alpha\<close>, and by value), the data generated for \<open>hx\<close> and for \<open>hy\<close>, and the data
  generated for \<open>hA_1\<close> as the matrix. All three are made when no failed check ends the
  run before line 168, and a run that makes an invocation has generated exactly that
  data, for \<open>hA_1\<close>, \<open>hx\<close> and \<open>hy\<close>. \<^verbatim>\<open>CHECK_HIP_ERROR\<close> is not defined in the two files;
  the statement is for every behaviour of it under which a failed transfer to the device
  does not go unnoticed: the macro returns from the function on a failure, or the five
  transfers succeed.
\<close>

theorem identical_inputs:
  assumes "0 \<le> sint (N arg)" "incx arg \<noteq> 0" "incy arg \<noteq> 0"
    and "unit_check arg \<or> norm_check arg"
    and "fatal w CHECK_HIP_ERROR \<or> uploads_succeed w"
  shows "(\<exists>k\<le>3. invocation_inputs (trace (testing_spr2 w arg)) =
            take k [(Some dA_1, initial_operands w arg), (Some dA_2, initial_operands w arg),
                    (Some hA_gold, initial_operands w arg)]
          \<and> (\<not> returned (through_correctness w arg) \<longrightarrow> k = 3))
     \<and> (invocation_inputs (trace (testing_spr2 w arg)) \<noteq> [] \<longrightarrow>
          initial_data (trace (testing_spr2 w arg)) =
            [(hA_1, initial_A w arg), (hx, initial_x w arg), (hy, initial_y w arg)])"
proof
  show "\<exists>k\<le>3. invocation_inputs (trace (testing_spr2 w arg)) =
            take k [(Some dA_1, initial_operands w arg), (Some dA_2, initial_operands w arg),
                    (Some hA_gold, initial_operands w arg)]
          \<and> (\<not> returned (through_correctness w arg) \<longrightarrow> k = 3)"
  proof (cases "uploads_succeed w")
    case True
    let ?three = "[(Some dA_1, initial_operands w arg), (Some dA_2, initial_operands w arg),
                 (Some hA_gold, initial_operands w arg)]"
    have full: "invocation_inputs (trace (testing_spr2 (lenient w) arg)) = ?three"
      using lenient_invocations[OF assms(1-4) True] by (simp add: after_correctness)
    obtain T es where t: "trace (testing_spr2 w arg) = T @ [Destroy_handle (create_handle w 0)]"
      "trace (testing_spr2 (lenient w) arg) = T @ es @ [Destroy_handle (create_handle w 0)]"
      using testing_spr2_initial[OF assms(1-3), of w] by blast
    have a: "invocation_inputs (trace (testing_spr2 w arg)) = invocation_inputs T"
      by (simp add: t(1) invocation_inputs_append)
    have b: "invocation_inputs T @ invocation_inputs es = ?three"
      using full by (simp add: t(2) invocation_inputs_append)
    let ?k = "length (invocation_inputs T)"
    have "invocation_inputs T = take ?k ?three" using b by (rule append_eq_take)
    moreover have "?k \<le> 3" using arg_cong[OF b, of length] by simp
    moreover have "\<not> returned (through_correctness w arg) \<longrightarrow> ?k = 3"
    proof
      assume "\<not> returned (through_correctness w arg)"
      then have "through_correctness w arg = through_correctness (lenient w) arg"
        by (rule through_correctness_lenient)
      then have "invocation_inputs (trace (testing_spr2 w arg)) = ?three"
        using lenient_invocations[OF assms(1-4) True] by (simp add: after_correctness)
      then show "?k = 3" using a by simp
    qed
    ultimately show ?thesis unfolding a by blast
  next
    case False
    then have "fatal w CHECK_HIP_ERROR" using assms(5) by simp
    then have "returned (prepared w arg)"
      using False by (simp add: prepared_split initialise_returns)
    then have "invocation_inputs (trace (testing_spr2 w arg)) = []"
      "returned (through_correctness w arg)"
      by (rule cut_before_correctness[OF assms(1-3)])+
    then show ?thesis by simp
  qed
  show "invocation_inputs (trace (testing_spr2 w arg)) \<noteq> [] \<longrightarrow>
          initial_data (trace (testing_spr2 w arg)) =
            [(hA_1, initial_A w arg), (hx, initial_x w arg), (hy, initial_y w arg)]"
    using cut_before_correctness(1)[OF assms(1-3), of w] prepared_initial_data[OF assms(1-3), of w]
    by blast
qed

theorem identical_inputs_witness:
  "0 \<le> sint (N (sample_arg False True False))
   \<and> incx (sample_arg False True False) \<noteq> 0
   \<and> incy (sample_arg False True False) \<noteq> 0
   \<and> norm_check (sample_arg False True False)
   \<and> fatal sample_world CHECK_HIP_ERROR
   \<and> \<not> returned (through_correctness sample_world (sample_arg False True False))
   \<and> invocation_inputs (trace (testing_spr2 sample_world (sample_arg False True False))) =
       [(Some dA_1, Operands (Some 3) (Some [5, 5]) (Some [5, 5]) (Some [4, 4, 4])),
        (Some dA_2, Operands (Some 3) (Some [5, 5]) (Some [5, 5]) (Some [4, 4, 4])),
        (Some hA_gold, Operands (Some 3) (Some [5, 5]) (Some [5, 5]) (Some [4, 4, 4]))]
   \<and> initial_data (trace (testing_spr2 sample_world (sample_arg False True False))) =
       [(hA_1, [4, 4, 4]), (hx, [5, 5]), (hy, [5, 5])]"
proof -
  have v: "0 \<le> sint (N (sample_arg False True False))" "incx (sample_arg False True False) \<noteq> 0"
    "incy (sample_arg False True False) \<noteq> 0"
    "unit_check (sample_arg False True False) \<or> norm_check (sample_arg False True False)"
    "fatal sample_world CHECK_HIP_ERROR \<or> uploads_succeed sample_world"
    by (simp_all add: sample_fields)
  have r: "\<not> returned (through_correctness sample_world (sample_arg False True False))"
    by (simp add: through_correctness_def block_defs fields sample_fields)
  have sz: "size_A_of 2 = 3" "size_vec 2 1 = 2" "size_vec 2 (- 1) = 2"
    "unat (3 :: size_t) = 3" "unat (2 :: size_t) = 2"
    by (simp_all add: size_defs)
  have rp: "replicate 2 x = [x, x]" "replicate 3 x = [x, x, x]" for x :: int
    by (simp_all add: numeral_2_eq_2 numeral_3_eq_3)
  have i: "initial_operands sample_world (sample_arg False True False) =
      Operands (Some 3) (Some [5, 5]) (Some [5, 5]) (Some [4, 4, 4])"
    "initial_A sample_world (sample_arg False True False) = [4, 4, 4]"
    "initial_x sample_world (sample_arg False True False) = [5, 5]"
    "initial_y sample_world (sample_arg False True False) = [5, 5]"
    by (simp_all add: initial_defs sample_arg_fields sample_world_def sz rp)
  show ?thesis
    using identical_inputs[OF v] v r unfolding i by (auto simp: sample_fields)
qed


subsection \<open>The timing run\<close>

lemma timed_call_fields:
  "trace (timed_call w arg s) = trace s @
     [Rocblas_spr2 (pointer_mode s)
        (Spr2_call (fortran arg) (Some (handle s)) (char2rocblas_fill w (uplo arg))
          (N arg) (alpha_host (alpha arg)) (Some dx) (incx arg) (Some dy) (incy arg) (Some dA_1))
        (operands_of (mem s)
          (Spr2_call (fortran arg) (Some (handle s)) (char2rocblas_fill w (uplo arg))
            (N arg) (alpha_host (alpha arg)) (Some dx) (incx arg) (Some dy) (incy arg) (Some dA_1)))
        Unchecked]"
  "returned (timed_call w arg s) = returned s"
  "pointer_mode (timed_call w arg s) = pointer_mode s"
  "handle (timed_call w arg s) = handle s"
  "gpu_time_used (timed_call w arg s) = gpu_time_used s"
  "cpu_time_used (timed_call w arg s) = cpu_time_used s"
  "rocblas_error_1 (timed_call w arg s) = rocblas_error_1 s"
  "rocblas_error_2 (timed_call w arg s) = rocblas_error_2 s"
  by (simp_all add: timed_call_def fields assertion_returns_def)

lemma for_loop_timed_call:
  assumes "\<not> returned s" "handle s = create_handle w 0"
  shows "\<exists>es. trace (for_loop i n (timed_call w arg) s) = trace s @ es
      \<and> map outline es = replicate (nat (n - i)) (timed_outline w arg)
      \<and> returned (for_loop i n (timed_call w arg) s) = False
      \<and> handle (for_loop i n (timed_call w arg) s) = handle s
      \<and> pointer_mode (for_loop i n (timed_call w arg) s) = pointer_mode s
      \<and> gpu_time_used (for_loop i n (timed_call w arg) s) = gpu_time_used s
      \<and> cpu_time_used (for_loop i n (timed_call w arg) s) = cpu_time_used s
      \<and> rocblas_error_1 (for_loop i n (timed_call w arg) s) = rocblas_error_1 s
      \<and> rocblas_error_2 (for_loop i n (timed_call w arg) s) = rocblas_error_2 s"
  using assms
proof (induction i n "timed_call w arg :: ('a, 'b) stmt" s rule: for_loop.induct)
  case (1 iter n s)
  let ?b = "timed_call w arg :: ('a, 'b) stmt"
  show ?case
  proof (cases "iter < n")
    case True
    have step: "for_loop iter n ?b s = for_loop (iter + 1) n ?b (?b s)"
      using True "1.prems" by (subst for_loop.simps) simp
    have nr: "\<not> returned (?b s)" and h: "handle (?b s) = create_handle w 0"
      using "1.prems" by (simp_all add: timed_call_fields)
    obtain es where es: "trace (for_loop (iter + 1) n ?b (?b s)) = trace (?b s) @ es"
      "map outline es = replicate (nat (n - (iter + 1))) (timed_outline w arg)"
      "returned (for_loop (iter + 1) n ?b (?b s)) = False"
      "handle (for_loop (iter + 1) n ?b (?b s)) = handle (?b s)"
      "pointer_mode (for_loop (iter + 1) n ?b (?b s)) = pointer_mode (?b s)"
      "gpu_time_used (for_loop (iter + 1) n ?b (?b s)) = gpu_time_used (?b s)"
      "cpu_time_used (for_loop (iter + 1) n ?b (?b s)) = cpu_time_used (?b s)"
      "rocblas_error_1 (for_loop (iter + 1) n ?b (?b s)) = rocblas_error_1 (?b s)"
      "rocblas_error_2 (for_loop (iter + 1) n ?b (?b s)) = rocblas_error_2 (?b s)"
      using "1.hyps"[OF _ nr h] True "1.prems" by blast
    obtain e where e: "trace (?b s) = trace s @ [e]" "outline e = timed_outline w arg"
      using "1.prems" by (simp add: timed_call_fields timed_outline_def)
    have cnt: "nat (n - iter) = Suc (nat (n - (iter + 1)))" using True by simp
    have "trace (for_loop iter n ?b s) = trace s @ (e # es)"
      using step es(1) e(1) by simp
    moreover have "map outline (e # es) = replicate (nat (n - iter)) (timed_outline w arg)"
      using es(2) e(2) cnt by simp
    ultimately show ?thesis
      using step es(3-9) by (auto simp: timed_call_fields)
  next
    case False
    then have "for_loop iter n ?b s = s" by (subst for_loop.simps) simp
    then show ?thesis using False "1.prems" by simp
  qed
qed


lemma benchmark_outline_from:
  assumes nr: "\<not> returned s" and h: "handle s = create_handle w 0" and t: "timing arg"
  shows "map outline (trace (exec (benchmark (lenient w) arg) s)) =
     map outline (trace s)
       @ [Set_pointer_mode rocblas_pointer_mode_host]
       @ replicate (nat (sint (cold_iters arg))) (timed_outline w arg)
       @ [Get_stream, Get_time_us_sync]
       @ replicate (nat (sint (iters arg))) (timed_outline w arg)
       @ [Get_time_us_sync, Log_args None () () None None None]"
    and "\<not> returned (exec (benchmark (lenient w) arg) s)"
    and "handle (exec (benchmark (lenient w) arg) s) = create_handle w 0"
proof -
  let ?w = "lenient w"
  let ?call = "timed_call w arg :: ('a, 'b) stmt"
  let ?s1 = "set_mode ?w rocblas_pointer_mode_host s"
  let ?s2 = "for_loop 0 (sint (cold_iters arg)) ?call ?s1"
  let ?s4 = "gpu_timer_start ?w (get_stream_stmt ?w ?s2)"
  let ?s5 = "for_loop 0 (sint (iters arg)) ?call ?s4"
  let ?s7 = "log_args ?w (N arg) (gpu_timer_stop ?w ?s5)"
  have s1: "\<not> returned ?s1" "handle ?s1 = create_handle w 0"
    using nr h by (simp_all add: fields)
  obtain cold where cold: "trace ?s2 = trace ?s1 @ cold"
      "map outline cold = replicate (nat (sint (cold_iters arg))) (timed_outline w arg)"
      "returned ?s2 = False" "handle ?s2 = handle ?s1"
    using for_loop_timed_call[OF s1, of 0 "sint (cold_iters arg)" arg] by auto
  have s4: "\<not> returned ?s4" "handle ?s4 = create_handle w 0"
    using cold(3,4) s1 by (simp_all add: fields)
  obtain hot where hot: "trace ?s5 = trace ?s4 @ hot"
      "map outline hot = replicate (nat (sint (iters arg))) (timed_outline w arg)"
      "returned ?s5 = False" "handle ?s5 = handle ?s4"
    using for_loop_timed_call[OF s4, of 0 "sint (iters arg)" arg] by auto
  have run: "exec (benchmark ?w arg) s = ?s7"
    using t nr s1 cold(3) s4 hot(3)
    by (simp add: benchmark_def Let_def timed_call_lenient fields)
  show "map outline (trace (exec (benchmark (lenient w) arg) s)) =
     map outline (trace s)
       @ [Set_pointer_mode rocblas_pointer_mode_host]
       @ replicate (nat (sint (cold_iters arg))) (timed_outline w arg)
       @ [Get_stream, Get_time_us_sync]
       @ replicate (nat (sint (iters arg))) (timed_outline w arg)
       @ [Get_time_us_sync, Log_args None () () None None None]"
    unfolding run using cold(1,2) hot(1,2) by (simp add: fields)
  show "\<not> returned (exec (benchmark (lenient w) arg) s)"
    unfolding run using hot(3) by (simp add: fields)
  show "handle (exec (benchmark (lenient w) arg) s) = create_handle w 0"
    unfolding run using hot(4) s4 by (simp add: fields)
qed

lemma testing_spr2_lenient:
  assumes "\<not> returned (testing_spr2 w arg)"
  shows "testing_spr2 w arg = testing_spr2 (lenient w) arg"
proof -
  have "exec (rocblas_local_handle_ctor w # argument_check w arg @ allocate w arg
            @ initialise w @ correctness w arg @ benchmark w arg) entry =
        exec (rocblas_local_handle_ctor (lenient w) # argument_check (lenient w) arg
            @ allocate (lenient w) arg @ initialise (lenient w) @ correctness (lenient w) arg
            @ benchmark (lenient w) arg) entry"
  proof (rule exec_agree)
    show "list_all2 agree
       (rocblas_local_handle_ctor w # argument_check w arg @ allocate w arg
            @ initialise w @ correctness w arg @ benchmark w arg)
       (rocblas_local_handle_ctor (lenient w) # argument_check (lenient w) arg
            @ allocate (lenient w) arg @ initialise (lenient w) @ correctness (lenient w) arg
            @ benchmark (lenient w) arg)"
      by (simp add: agree_prims agree_blocks list_all2_appendI)
    show "\<not> returned (exec (rocblas_local_handle_ctor w # argument_check w arg
        @ allocate w arg @ initialise w @ correctness w arg @ benchmark w arg) entry)"
      using assms by (simp add: testing_spr2_def fields)
  qed
  then show ?thesis by (simp add: testing_spr2_def rocblas_local_handle_dtor_def)
qed

lemma outline_sync [simp]:
  "(outline e = Get_time_us_sync) = (e = Get_time_us_sync)"
  "(Get_time_us_sync = outline e) = (e = Get_time_us_sync)"
  by (cases e; simp)+

lemma no_sync_prims:
  "list_all (emits_only (\<lambda>e. e \<noteq> Get_time_us_sync))
     (rocblas_local_handle_ctor w # argument_check w arg @ allocate w arg @ initialise w
        @ correctness w arg)"
  by (simp add: argument_check_def allocate_def initialise_def correctness_def Let_def
      emits_only_prims emits_only_with_handle)

lemma no_sync_before_timing:
  "Get_time_us_sync \<notin> set (trace (through_correctness w arg))"
proof -
  obtain es where "trace (through_correctness w arg) = trace entry @ es"
      "list_all (\<lambda>e. e \<noteq> Get_time_us_sync) es"
    using emits_only_exec[OF no_sync_prims, of w arg]
    unfolding emits_only_def through_correctness_def by blast
  then show ?thesis by (auto simp: fields list_all_iff)
qed

lemma through_correctness_lenient_fields:
  assumes "0 \<le> sint (N arg)" "incx arg \<noteq> 0" "incy arg \<noteq> 0"
  shows "returned (through_correctness (lenient w) arg) = False"
    and "handle (through_correctness (lenient w) arg) = create_handle w 0"
  using prepared_lenient[OF assms, of w]
  by (simp_all add: through_correctness_prepared correctness_def fields)


lemma timed_loop:
  "returned (for_loop i n (timed_call w arg) s) = returned s"
  "Get_time_us_sync \<in> set (trace (for_loop i n (timed_call w arg) s)) =
     (Get_time_us_sync \<in> set (trace s))"
proof -
  show "returned (for_loop i n (timed_call w arg) s) = returned s"
    using keeps_returned_for_loop[OF keeps_returned_timed_call, of i n w arg]
    by (simp add: keeps_returned_def)
  have "emits_only (\<lambda>e. e \<noteq> Get_time_us_sync) (for_loop i n (timed_call w arg))"
    by (rule emits_only_for_loop)
      (simp add: timed_call_def emits_only_with_handle emits_only_prims)
  then obtain es where "trace (for_loop i n (timed_call w arg) s) = trace s @ es"
      "list_all (\<lambda>e. e \<noteq> Get_time_us_sync) es"
    unfolding emits_only_def by blast
  then show "Get_time_us_sync \<in> set (trace (for_loop i n (timed_call w arg) s)) =
     (Get_time_us_sync \<in> set (trace s))"
    by (auto simp: list_all_iff)
qed

text \<open>A run that a failed check ends has not read the stream-synchronised clock: the
  last check of the function, on \<^verbatim>\<open>rocblas_get_stream\<close>, comes before the first read.\<close>

lemma benchmark_cut_short:
  assumes "\<not> returned s" "returned (exec (benchmark w arg) s)"
  shows "Get_time_us_sync \<in> set (trace (exec (benchmark w arg) s)) =
     (Get_time_us_sync \<in> set (trace s))"
proof (cases "timing arg")
  case False
  then show ?thesis by (simp add: benchmark_def)
next
  case True
  define s1 where "s1 = set_mode w rocblas_pointer_mode_host s"
  define s2 where "s2 = for_loop 0 (sint (cold_iters arg)) (timed_call w arg) s1"
  define s3 where "s3 = get_stream_stmt w s2"
  define s4 where "s4 = gpu_timer_start w s3"
  define s5 where "s5 = for_loop 0 (sint (iters arg)) (timed_call w arg) s4"
  define s7 where "s7 = log_args w (N arg) (gpu_timer_stop w s5)"
  have t1: "Get_time_us_sync \<in> set (trace s1) = (Get_time_us_sync \<in> set (trace s))"
    by (simp add: s1_def fields)
  have t2: "Get_time_us_sync \<in> set (trace s2) = (Get_time_us_sync \<in> set (trace s))"
    and r2: "returned s2 = returned s1"
    using t1 by (simp_all add: s2_def timed_loop)
  have t3: "Get_time_us_sync \<in> set (trace s3) = (Get_time_us_sync \<in> set (trace s))"
    using t2 by (simp add: s3_def fields)
  have r4: "returned s4 = returned s3" by (simp add: s4_def fields)
  have r5: "returned s5 = returned s3" by (simp add: s5_def s4_def fields timed_loop)
  have r6: "returned (gpu_timer_stop w s5) = returned s3"
    by (simp add: s5_def s4_def fields timed_loop)
  have r7: "returned s7 = returned s3"
    by (simp add: s7_def s5_def s4_def fields timed_loop)
  have b: "benchmark w arg =
     [set_mode w rocblas_pointer_mode_host,
      for_loop 0 (sint (cold_iters arg)) (timed_call w arg),
      get_stream_stmt w, gpu_timer_start w,
      for_loop 0 (sint (iters arg)) (timed_call w arg),
      gpu_timer_stop w, log_args w (N arg)]"
    using True by (simp add: benchmark_def Let_def)
  have run: "exec (benchmark w arg) s =
      (if returned s1 then s1 else if returned s3 then s3 else s7)"
    unfolding b using assms(1) r2 r4 r5 r6
    by (simp add: s1_def[symmetric] s2_def[symmetric] s3_def[symmetric]
        s4_def[symmetric] s5_def[symmetric] s7_def[symmetric])
  show ?thesis
    using assms(2) t1 t3 r7 unfolding run by (auto split: if_splits)
qed

lemma cut_short_reads_no_timer:
  assumes "returned (testing_spr2 w arg)"
  shows "Get_time_us_sync \<notin> set (trace (testing_spr2 w arg))"
proof -
  let ?s = "through_correctness w arg"
  have r: "returned (exec (benchmark w arg) ?s)"
    using assms by (simp add: testing_spr2_split fields)
  have "Get_time_us_sync \<in> set (trace (exec (benchmark w arg) ?s)) =
     (Get_time_us_sync \<in> set (trace ?s))"
  proof (cases "returned ?s")
    case True
    then show ?thesis by (simp add: exec_returned)
  next
    case False
    then show ?thesis using r by (rule benchmark_cut_short)
  qed
  then show ?thesis
    using no_sync_before_timing[of w arg] by (simp add: testing_spr2_split fields)
qed

text \<open>A run that no failed check ends.\<close>

lemma timing_run_complete:
  assumes "0 \<le> sint (N arg)" "incx arg \<noteq> 0" "incy arg \<noteq> 0"
    and "timing arg"
    and "\<not> returned (testing_spr2 w arg)"
  shows "\<exists>pre. map outline (trace (testing_spr2 w arg)) =
       pre
       @ [Set_pointer_mode rocblas_pointer_mode_host]
       @ replicate (nat (sint (cold_iters arg))) (timed_outline w arg)
       @ [Get_stream, Get_time_us_sync]
       @ replicate (nat (sint (iters arg))) (timed_outline w arg)
       @ [Get_time_us_sync, Log_args None () () None None None,
          Destroy_handle (create_handle w 0)]
     \<and> Get_time_us_sync \<notin> set pre"
proof -
  let ?s = "through_correctness (lenient w) arg"
  have eq: "testing_spr2 w arg = testing_spr2 (lenient w) arg"
    using assms(5) by (rule testing_spr2_lenient)
  have s: "\<not> returned ?s" "handle ?s = create_handle w 0"
    using through_correctness_lenient_fields[OF assms(1-3), of w] by simp_all
  have "map outline (trace (testing_spr2 (lenient w) arg)) =
       map outline (trace ?s)
       @ [Set_pointer_mode rocblas_pointer_mode_host]
       @ replicate (nat (sint (cold_iters arg))) (timed_outline w arg)
       @ [Get_stream, Get_time_us_sync]
       @ replicate (nat (sint (iters arg))) (timed_outline w arg)
       @ [Get_time_us_sync, Log_args None () () None None None,
          Destroy_handle (create_handle w 0)]"
    using benchmark_outline_from[OF s assms(4)]
    by (simp add: testing_spr2_split fields)
  moreover have "Get_time_us_sync \<notin> set (map outline (trace ?s))"
    using no_sync_before_timing[of "lenient w" arg] by auto
  ultimately show ?thesis unfolding eq by blast
qed

text \<open>
  Claim C7, as amended. When \<^verbatim>\<open>arg.timing\<close> is set and the sizes are valid, either a
  failed check ends the run, and then the stream-synchronised clock is never read, or
  the run reads it exactly twice: before the first read come the request for the host
  pointer mode, \<^verbatim>\<open>arg.cold_iters\<close> vendor calls and the query of the stream; between the
  two reads come \<^verbatim>\<open>arg.iters\<close> vendor calls and nothing else; after the second read come
  the logger and the destruction of the handle. A count that is negative stands for no
  call, as the loop condition \<^verbatim>\<open>iter < n\<close> makes it.
\<close>

theorem timing_run_outline:
  assumes "0 \<le> sint (N arg)" "incx arg \<noteq> 0" "incy arg \<noteq> 0"
    and "timing arg"
  shows "(returned (testing_spr2 w arg)
          \<and> Get_time_us_sync \<notin> set (trace (testing_spr2 w arg)))
       \<or> (\<not> returned (testing_spr2 w arg)
          \<and> (\<exists>pre. map outline (trace (testing_spr2 w arg)) =
                pre
                @ [Set_pointer_mode rocblas_pointer_mode_host]
                @ replicate (nat (sint (cold_iters arg))) (timed_outline w arg)
                @ [Get_stream, Get_time_us_sync]
                @ replicate (nat (sint (iters arg))) (timed_outline w arg)
                @ [Get_time_us_sync, Log_args None () () None None None,
                   Destroy_handle (create_handle w 0)]
              \<and> Get_time_us_sync \<notin> set pre))"
proof (cases "returned (testing_spr2 w arg)")
  case True
  then show ?thesis using cut_short_reads_no_timer[of w arg] by simp
next
  case False
  then show ?thesis using timing_run_complete[OF assms False] by simp
qed

theorem timing_run_outline_witness:
  "0 \<le> sint (N (sample_arg False False True))
   \<and> incx (sample_arg False False True) \<noteq> 0
   \<and> incy (sample_arg False False True) \<noteq> 0
   \<and> timing (sample_arg False False True)
   \<and> \<not> returned (testing_spr2 sample_world (sample_arg False False True))
   \<and> (\<exists>pre. map outline (trace (testing_spr2 sample_world (sample_arg False False True))) =
         pre
         @ [Set_pointer_mode rocblas_pointer_mode_host]
         @ replicate 1 (timed_outline sample_world (sample_arg False False True))
         @ [Get_stream, Get_time_us_sync]
         @ replicate 2 (timed_outline sample_world (sample_arg False False True))
         @ [Get_time_us_sync, Log_args None () () None None None, Destroy_handle 7]
       \<and> Get_time_us_sync \<notin> set pre)"
proof -
  have v: "0 \<le> sint (N (sample_arg False False True))" "incx (sample_arg False False True) \<noteq> 0"
    "incy (sample_arg False False True) \<noteq> 0" "timing (sample_arg False False True)"
    by (simp_all add: sample_arg_fields)
  have r: "\<not> returned (testing_spr2 sample_world (sample_arg False False True))"
    by (simp add: testing_spr2_def block_defs for_loop.simps fields sample_fields)
  have c: "nat (sint (cold_iters (sample_arg False False True))) = 1"
    "nat (sint (iters (sample_arg False False True))) = 2"
    "create_handle sample_world 0 = 7"
    by (simp_all add: sample_fields)
  show ?thesis
    using timing_run_outline[OF v, of sample_world] v r unfolding c by simp
qed

text \<open>
  The claim as first stated, for every call with \<^verbatim>\<open>arg.timing\<close> set and valid sizes, fails
  when a check ends the function before the timing run. Here \<^verbatim>\<open>arg.unit_check\<close> is set
  as well and \<^verbatim>\<open>arg.uplo\<close> is mapped to \<open>rocblas_fill_full\<close>: the run ends at line 142, its
  only vendor call is the rejected one of the correctness run, no warm-up call is made
  although \<^verbatim>\<open>arg.cold_iters\<close> is 1, and the clock is never read.
\<close>

theorem timing_run_outline_counterexample:
  "timing ((sample_arg True False True)\<lparr>uplo := CHR ''X''\<rparr>)
   \<and> cold_iters ((sample_arg True False True)\<lparr>uplo := CHR ''X''\<rparr>) = 1
   \<and> vendor_calls (trace (testing_spr2 sample_world
        ((sample_arg True False True)\<lparr>uplo := CHR ''X''\<rparr>))) =
       [(Spr2_call False (Some 7) rocblas_fill_full 2 (alpha_host 3) (Some dx) 1 (Some dy) (- 1)
           (Some dA_1), Check_error)]
   \<and> Get_time_us_sync \<notin> set (trace (testing_spr2 sample_world
        ((sample_arg True False True)\<lparr>uplo := CHR ''X''\<rparr>)))"
  by (simp add: testing_spr2_def block_defs fields sample_fields)


subsection \<open>The values passed to the logger\<close>

text \<open>With \<^verbatim>\<open>arg.timing\<close> alone, every run that no failed check ends passes the logger
  three variables that were never assigned.\<close>

lemma log_args_unassigned:
  assumes "0 \<le> sint (N arg)" "incx arg \<noteq> 0" "incy arg \<noteq> 0"
    and "timing arg" "\<not> unit_check arg" "\<not> norm_check arg"
    and "\<not> returned (testing_spr2 w arg)"
  shows "\<exists>t. Log_args t (spr2_gflop_count w (N arg)) (spr2_gbyte_count w (N arg)) None None None
           \<in> set (trace (testing_spr2 w arg))"
proof -
  let ?w = "lenient w"
  let ?call = "timed_call w arg :: ('a, 'b) stmt"
  let ?s = "through_correctness ?w arg"
  let ?s1 = "set_mode ?w rocblas_pointer_mode_host ?s"
  let ?s2 = "for_loop 0 (sint (cold_iters arg)) ?call ?s1"
  let ?s4 = "gpu_timer_start ?w (get_stream_stmt ?w ?s2)"
  let ?s5 = "for_loop 0 (sint (iters arg)) ?call ?s4"
  let ?s6 = "gpu_timer_stop ?w ?s5"
  have eq: "testing_spr2 w arg = testing_spr2 ?w arg"
    using assms(7) by (rule testing_spr2_lenient)
  have s: "\<not> returned ?s" "handle ?s = create_handle w 0"
    using through_correctness_lenient_fields[OF assms(1-3), of w] by simp_all
  have vars: "cpu_time_used ?s = None" "rocblas_error_1 ?s = None" "rocblas_error_2 ?s = None"
    using assms(1-3,5,6)
    by (simp_all add: through_correctness_def argument_check_valid allocate_def initialise_def
        correctness_def Let_def fields)
  have s1: "\<not> returned ?s1" "handle ?s1 = create_handle w 0"
    using s by (simp_all add: fields)
  obtain cold where cold: "trace ?s2 = trace ?s1 @ cold"
      "returned ?s2 = False" "handle ?s2 = handle ?s1"
      "cpu_time_used ?s2 = cpu_time_used ?s1" "rocblas_error_1 ?s2 = rocblas_error_1 ?s1"
      "rocblas_error_2 ?s2 = rocblas_error_2 ?s1"
    using for_loop_timed_call[OF s1, of 0 "sint (cold_iters arg)" arg] by auto
  have s4: "\<not> returned ?s4" "handle ?s4 = create_handle w 0"
    using cold(2,3) s1 by (simp_all add: fields)
  obtain hot where hot: "trace ?s5 = trace ?s4 @ hot"
      "returned ?s5 = False" "handle ?s5 = handle ?s4"
      "cpu_time_used ?s5 = cpu_time_used ?s4" "rocblas_error_1 ?s5 = rocblas_error_1 ?s4"
      "rocblas_error_2 ?s5 = rocblas_error_2 ?s4"
    using for_loop_timed_call[OF s4, of 0 "sint (iters arg)" arg] by auto
  have run: "exec (benchmark ?w arg) ?s = log_args ?w (N arg) ?s6"
    using assms(4) s s1 cold(2) s4 hot(2)
    by (simp add: benchmark_def Let_def timed_call_lenient fields)
  have "trace (testing_spr2 ?w arg) = trace ?s6 @
      [Log_args (gpu_time_used ?s6) (spr2_gflop_count w (N arg)) (spr2_gbyte_count w (N arg))
         None None None,
       Destroy_handle (handle ?s6)]"
    unfolding testing_spr2_split run
    using vars cold(4-6) hot(4-6) by (simp add: fields)
  then show ?thesis unfolding eq by auto
qed

text \<open>
  Claim C8. With \<^verbatim>\<open>arg.timing\<close> set and neither \<^verbatim>\<open>arg.unit_check\<close> nor \<^verbatim>\<open>arg.norm_check\<close>,
  the run reaches \<^verbatim>\<open>log_args\<close> and passes it \<^verbatim>\<open>cpu_time_used\<close>, \<^verbatim>\<open>rocblas_error_1\<close> and
  \<^verbatim>\<open>rocblas_error_2\<close>, none of which was assigned in the call: the three variables are
  written only inside the correctness block (lines 148, 150, 164 and 165). Here the run
  in the concrete world, with one cold and two hot calls.
\<close>

theorem log_args_reads_unassigned_variables:
  "Log_args (Some 3) 0 0 None None None \<in> set
     (trace (testing_spr2 sample_world (sample_arg False False True)))"
  by (simp add: testing_spr2_def block_defs for_loop.simps fields sample_fields sample_world_def)


subsection \<open>The sizes of the vectors\<close>

lemma correctness_allocates_nothing:
  "emits_only (\<lambda>e. allocated [e] = []) (exec (correctness w arg))"
  by (rule emits_only_exec)
    (simp add: correctness_def emits_only_prims emits_only_with_handle)

lemma testing_spr2_allocated:
  assumes "0 \<le> sint (N arg)" "incx arg \<noteq> 0" "incy arg \<noteq> 0"
    and "\<not> returned (prepared w arg)"
  shows "allocated (trace (testing_spr2 w arg)) =
     [(hA_1, size_A_of (N arg)), (hA_2, size_A_of (N arg)), (hA_gold, size_A_of (N arg)),
      (hx, size_vec (N arg) (incx arg)), (hy, size_vec (N arg) (incy arg)), (halpha, 1),
      (dA_1, size_A_of (N arg)), (dA_2, size_A_of (N arg)),
      (dx, size_vec (N arg) (incx arg)), (dy, size_vec (N arg) (incy arg)), (d_alpha, 1)]"
proof -
  obtain es where es: "trace (exec (correctness w arg) (prepared w arg)) =
      trace (prepared w arg) @ es" "list_all (\<lambda>e. allocated [e] = []) es"
    using correctness_allocates_nothing[of w arg] unfolding emits_only_def by blast
  have "allocated (trace (testing_spr2 w arg)) = allocated (trace (prepared w arg))"
    using es allocated_none[OF es(2)]
    by (simp add: after_correctness through_correctness_prepared allocated_append)
  also have "\<dots> = allocated (trace (prepared (lenient w) arg))"
    using prepared_lenient_eq[OF assms(4)] by simp
  also have "\<dots> =
     [(hA_1, size_A_of (N arg)), (hA_2, size_A_of (N arg)), (hA_gold, size_A_of (N arg)),
      (hx, size_vec (N arg) (incx arg)), (hy, size_vec (N arg) (incy arg)), (halpha, 1),
      (dA_1, size_A_of (N arg)), (dA_2, size_A_of (N arg)),
      (dx, size_vec (N arg) (incx arg)), (dy, size_vec (N arg) (incy arg)), (d_alpha, 1)]"
    using assms(1-3)
    by (simp add: prepared_def argument_check_valid allocate_def initialise_def Let_def fields)
  finally show ?thesis .
qed

lemma size_A_at_max: "size_A_of 2147483647 = 6917529028714823680"
  by (simp add: size_defs)

lemma bad_arg_allocations:
  "filter is_allocation (trace (testing_spr2_bad_arg w arg)) =
     [Device_vector dA_1 5050, Device_vector dx 100, Device_vector dy 100]"
  by (simp add: testing_spr2_bad_arg_def bad_arg_body_def Let_def fields size_defs)

lemma after_device_vectors:
  "list_all (emits_only (\<lambda>e. \<not> is_allocation e))
     ([checked_memcheck w CHECK_DEVICE_ALLOCATION dA_1,
       checked_memcheck w CHECK_DEVICE_ALLOCATION dA_2,
       checked_memcheck w CHECK_DEVICE_ALLOCATION dx,
       checked_memcheck w CHECK_DEVICE_ALLOCATION dy,
       checked_memcheck w CHECK_DEVICE_ALLOCATION d_alpha]
      @ initialise w @ correctness w arg @ benchmark w arg)"
  by (simp add: initialise_def correctness_def benchmark_def timed_call_def Let_def
      emits_only_prims emits_only_with_handle emits_only_for_loop)

lemma host_vectors_from_entry:
  "trace (exec [rocblas_local_handle_ctor w,
       host_vector w hA_1 sA, host_vector w hA_2 sA, host_vector w hA_gold sA,
       host_vector w hx sx, host_vector w hy sy, host_vector w halpha 1] entry) =
     [Create_handle (create_handle w 0), Host_vector hA_1 sA, Host_vector hA_2 sA,
      Host_vector hA_gold sA, Host_vector hx sx, Host_vector hy sy, Host_vector halpha 1]"
  "\<not> returned (exec [rocblas_local_handle_ctor w,
       host_vector w hA_1 sA, host_vector w hA_2 sA, host_vector w hA_gold sA,
       host_vector w hx sx, host_vector w hy sy, host_vector w halpha 1] entry)"
  by (simp_all add: fields)

lemma host_checks:
  assumes "\<not> returned s"
  shows "returned (exec
     [checked_memcheck w CHECK_HIP_ERROR hA_1, checked_memcheck w CHECK_HIP_ERROR hA_2,
       checked_memcheck w CHECK_HIP_ERROR hA_gold, checked_memcheck w CHECK_HIP_ERROR hx,
       checked_memcheck w CHECK_HIP_ERROR hy, checked_memcheck w CHECK_HIP_ERROR halpha,
       store_at halpha 0 v] s) = (fatal w CHECK_HIP_ERROR \<and> host_allocation_fails w)"
  using assms
  apply (simp only: returned_exec_Cons returned_exec_Nil fields host_allocation_fails_def)
  apply auto
  done

lemma host_checks_trace:
  "trace (exec
     [checked_memcheck w CHECK_HIP_ERROR hA_1, checked_memcheck w CHECK_HIP_ERROR hA_2,
       checked_memcheck w CHECK_HIP_ERROR hA_gold, checked_memcheck w CHECK_HIP_ERROR hx,
       checked_memcheck w CHECK_HIP_ERROR hy, checked_memcheck w CHECK_HIP_ERROR halpha,
       store_at halpha 0 v] s) = trace s"
  by (rule emits_nothing, rule emits_only_exec) (simp add: emits_only_prims)

lemma device_vectors_from:
  "trace (exec [device_vector w dA_1 sA, device_vector w dA_2 sA, device_vector w dx sx,
       device_vector w dy sy, device_vector w d_alpha 1] s) =
     trace s @ (if returned s then []
       else [Device_vector dA_1 sA, Device_vector dA_2 sA, Device_vector dx sx,
             Device_vector dy sy, Device_vector d_alpha 1])"
  by (simp add: fields)

text \<open>The allocations of every run with valid sizes: the host vectors come before any
  check; the device vectors follow unless a failed check of a host vector has ended the
  run; nothing is allocated later.\<close>

lemma testing_spr2_allocations:
  assumes "0 \<le> sint (N arg)" "incx arg \<noteq> 0" "incy arg \<noteq> 0"
  shows "filter is_allocation (trace (testing_spr2 w arg)) =
     [Host_vector hA_1 (size_A_of (N arg)), Host_vector hA_2 (size_A_of (N arg)),
      Host_vector hA_gold (size_A_of (N arg)), Host_vector hx (size_vec (N arg) (incx arg)),
      Host_vector hy (size_vec (N arg) (incy arg)), Host_vector halpha 1]
     @ (if fatal w CHECK_HIP_ERROR \<and> host_allocation_fails w then []
        else [Device_vector dA_1 (size_A_of (N arg)), Device_vector dA_2 (size_A_of (N arg)),
              Device_vector dx (size_vec (N arg) (incx arg)),
              Device_vector dy (size_vec (N arg) (incy arg)), Device_vector d_alpha 1])"
proof -
  define H where "H = [rocblas_local_handle_ctor w,
       host_vector w hA_1 (size_A_of (N arg)), host_vector w hA_2 (size_A_of (N arg)),
       host_vector w hA_gold (size_A_of (N arg)), host_vector w hx (size_vec (N arg) (incx arg)),
       host_vector w hy (size_vec (N arg) (incy arg)), host_vector w halpha 1]"
  define C where "C = [checked_memcheck w CHECK_HIP_ERROR hA_1,
       checked_memcheck w CHECK_HIP_ERROR hA_2,
       checked_memcheck w CHECK_HIP_ERROR hA_gold, checked_memcheck w CHECK_HIP_ERROR hx,
       checked_memcheck w CHECK_HIP_ERROR hy, checked_memcheck w CHECK_HIP_ERROR halpha,
       store_at halpha 0 (alpha arg)]"
  define D where "D = [device_vector w dA_1 (size_A_of (N arg)),
       device_vector w dA_2 (size_A_of (N arg)),
       device_vector w dx (size_vec (N arg) (incx arg)),
       device_vector w dy (size_vec (N arg) (incy arg)), device_vector w d_alpha 1]"
  define R where "R = [checked_memcheck w CHECK_DEVICE_ALLOCATION dA_1,
       checked_memcheck w CHECK_DEVICE_ALLOCATION dA_2,
       checked_memcheck w CHECK_DEVICE_ALLOCATION dx,
       checked_memcheck w CHECK_DEVICE_ALLOCATION dy,
       checked_memcheck w CHECK_DEVICE_ALLOCATION d_alpha]
      @ initialise w @ correctness w arg @ benchmark w arg"
  define s1 where "s1 = exec H entry"
  define s2 where "s2 = exec C s1"
  define s3 where "s3 = exec D s2"
  have body: "rocblas_local_handle_ctor w # argument_check w arg @ allocate w arg @ initialise w
      @ correctness w arg @ benchmark w arg = H @ C @ D @ R"
    using assms by (simp add: argument_check_valid allocate_def Let_def H_def C_def D_def R_def)
  have run: "testing_spr2 w arg = rocblas_local_handle_dtor (exec R s3)"
    unfolding testing_spr2_def body s3_def s2_def s1_def by (simp only: exec_append)
  have t1: "trace s1 =
     [Create_handle (create_handle w 0),
      Host_vector hA_1 (size_A_of (N arg)), Host_vector hA_2 (size_A_of (N arg)),
      Host_vector hA_gold (size_A_of (N arg)), Host_vector hx (size_vec (N arg) (incx arg)),
      Host_vector hy (size_vec (N arg) (incy arg)), Host_vector halpha 1]"
    and r1: "\<not> returned s1"
    unfolding s1_def H_def by (rule host_vectors_from_entry)+
  have t2: "trace s2 = trace s1"
    unfolding s2_def C_def by (rule host_checks_trace)
  have r2: "returned s2 = (fatal w CHECK_HIP_ERROR \<and> host_allocation_fails w)"
    unfolding s2_def C_def using r1 by (rule host_checks)
  have t3: "trace s3 = trace s2 @
     (if returned s2 then []
      else [Device_vector dA_1 (size_A_of (N arg)), Device_vector dA_2 (size_A_of (N arg)),
            Device_vector dx (size_vec (N arg) (incx arg)),
            Device_vector dy (size_vec (N arg) (incy arg)), Device_vector d_alpha 1])"
    unfolding s3_def D_def by (rule device_vectors_from)
  obtain es where es: "trace (exec R s3) = trace s3 @ es" "list_all (\<lambda>e. \<not> is_allocation e) es"
    using emits_only_exec[OF after_device_vectors, of w arg] unfolding emits_only_def R_def
    by blast
  have "trace (testing_spr2 w arg) = trace s3 @ es @ [Destroy_handle (handle (exec R s3))]"
    unfolding run by (simp add: rocblas_local_handle_dtor_fields es(1))
  then show ?thesis
    by (simp add: filter_none[OF es(2)] t3 t2 t1 r2)
qed

text \<open>
  Claim C6, as amended. For \<open>0 \<le> N < 2^31 - 1\<close> and nonzero increments, every run of
  \<^verbatim>\<open>testing_spr2\<close> allocates the three host matrices with \<open>N (N + 1) / 2\<close> elements each,
  computed without overflow, and, unless a failed memory check of a host vector (lines
  97 to 102) ends the run before the device vectors are declared, the two device
  matrices with the same number of elements; the other allocations are those of \<open>x\<close>,
  \<open>y\<close> and the scalar. \<^verbatim>\<open>testing_spr2_bad_arg\<close>, where \<open>N\<close> is 100, allocates device vectors
  only: the matrix \<open>dA_1\<close> with \<open>5050 = 100 * 101 / 2\<close> elements, and \<open>dx\<close> and \<open>dy\<close>.
\<close>

theorem packed_matrix_sizes:
  assumes "0 \<le> sint (N arg)" "sint (N arg) < 2147483647" "incx arg \<noteq> 0" "incy arg \<noteq> 0"
  shows "filter is_allocation (trace (testing_spr2 w arg)) =
       [Host_vector hA_1 (size_A_of (N arg)), Host_vector hA_2 (size_A_of (N arg)),
        Host_vector hA_gold (size_A_of (N arg)), Host_vector hx (size_vec (N arg) (incx arg)),
        Host_vector hy (size_vec (N arg) (incy arg)), Host_vector halpha 1]
       @ (if fatal w CHECK_HIP_ERROR \<and> host_allocation_fails w then []
          else [Device_vector dA_1 (size_A_of (N arg)), Device_vector dA_2 (size_A_of (N arg)),
                Device_vector dx (size_vec (N arg) (incx arg)),
                Device_vector dy (size_vec (N arg) (incy arg)), Device_vector d_alpha 1])
     \<and> unat (size_A_of (N arg)) = nat (sint (N arg)) * (nat (sint (N arg)) + 1) div 2
     \<and> filter is_allocation (trace (testing_spr2_bad_arg w arg)) =
         [Device_vector dA_1 5050, Device_vector dx 100, Device_vector dy 100]
     \<and> unat (5050 :: size_t) = 100 * (100 + 1) div 2"
  using testing_spr2_allocations[OF assms(1,3,4), of w] size_A_exact[OF assms(1,2)]
    bad_arg_allocations[of w arg]
  by simp

theorem packed_matrix_sizes_witness:
  "0 \<le> sint (N (sample_arg False False False))
   \<and> sint (N (sample_arg False False False)) < 2147483647
   \<and> incx (sample_arg False False False) \<noteq> 0
   \<and> incy (sample_arg False False False) \<noteq> 0
   \<and> filter is_allocation (trace (testing_spr2 sample_world (sample_arg False False False))) =
       [Host_vector hA_1 3, Host_vector hA_2 3, Host_vector hA_gold 3, Host_vector hx 2,
        Host_vector hy 2, Host_vector halpha 1,
        Device_vector dA_1 3, Device_vector dA_2 3, Device_vector dx 2, Device_vector dy 2,
        Device_vector d_alpha 1]
   \<and> unat (size_A_of 2) = 3"
proof -
  have v: "0 \<le> sint (N (sample_arg False False False))"
    "sint (N (sample_arg False False False)) < 2147483647"
    "incx (sample_arg False False False) \<noteq> 0" "incy (sample_arg False False False) \<noteq> 0"
    by (simp_all add: sample_arg_fields)
  have sz: "size_A_of 2 = 3" "size_vec 2 1 = 2" "size_vec 2 (- 1) = 2"
    by (simp_all add: size_defs)
  have h: "\<not> host_allocation_fails sample_world"
    by (simp add: host_allocation_fails_def sample_world_fields)
  show ?thesis
    using packed_matrix_sizes[OF v, of sample_world] v h by (simp add: sample_arg_fields sz)
qed

text \<open>
  The claim as first stated fails twice: \<^verbatim>\<open>testing_spr2_bad_arg\<close> allocates no host
  vector, and for \<open>N = 2^31 - 1\<close> the sum \<^verbatim>\<open>N + 1\<close> overflows in \<^verbatim>\<open>int\<close> before the
  conversion, so that the matrices of \<^verbatim>\<open>testing_spr2\<close> are requested with
  \<open>2^63 - 2^61 + 2^30\<close> elements instead of \<open>2^61 - 2^30\<close>.
\<close>

theorem packed_matrix_sizes_counterexample:
  "filter is_allocation
     (trace (testing_spr2_bad_arg sample_world (sample_arg False False False))) =
     [Device_vector dA_1 5050, Device_vector dx 100, Device_vector dy 100]
   \<and> take 3 (filter is_allocation (trace (testing_spr2 sample_world
        ((sample_arg False False False)\<lparr>N := 2147483647\<rparr>)))) =
     [Host_vector hA_1 6917529028714823680, Host_vector hA_2 6917529028714823680,
      Host_vector hA_gold 6917529028714823680]
   \<and> unat (6917529028714823680 :: size_t) \<noteq> 2147483647 * (2147483647 + 1) div 2"
proof -
  let ?a = "(sample_arg False False False)\<lparr>N := 2147483647\<rparr>"
  have v: "0 \<le> sint (N ?a)" "incx ?a \<noteq> 0" "incy ?a \<noteq> 0"
    by (simp_all add: sample_arg_fields)
  show ?thesis
    using testing_spr2_allocations[OF v, of sample_world] bad_arg_allocations[of sample_world]
    by (simp add: size_A_at_max)
qed


subsection \<open>Increments\<close>

lemma size_vec_at_min: "size_vec 1 (- 2147483648) = 18446744071562067968"
  by (simp add: size_defs)

text \<open>
  Claim C10. The vectors \<open>x\<close> and \<open>y\<close> get \<open>N * |inc|\<close> elements for every increment but
  one (lemma \<open>size_vec_exact\<close>). At the least \<^verbatim>\<open>rocblas_int\<close> the negation \<^verbatim>\<open>-incx\<close>
  overflows: with \<open>N = 1\<close> and \<open>incx = -2147483648\<close> the host and the device vector are
  requested with \<open>2^64 - 2^31\<close> elements, not with \<open>2^31\<close>.
\<close>

theorem abs_inc_overflows_at_INT_MIN:
  "allocated (trace (testing_spr2 sample_world
      ((sample_arg False False False)\<lparr>N := 1, incx := - 2147483648\<rparr>))) =
     [(hA_1, 1), (hA_2, 1), (hA_gold, 1), (hx, 18446744071562067968), (hy, 1), (halpha, 1),
      (dA_1, 1), (dA_2, 1), (dx, 18446744071562067968), (dy, 1), (d_alpha, 1)]
   \<and> unat (18446744071562067968 :: size_t) \<noteq> 1 * 2147483648"
proof -
  let ?a = "(sample_arg False False False)\<lparr>N := 1, incx := - 2147483648\<rparr>"
  have v: "0 \<le> sint (N ?a)" "incx ?a \<noteq> 0" "incy ?a \<noteq> 0"
    by (simp_all add: sample_arg_fields)
  have r: "\<not> returned (prepared sample_world ?a)"
    by (simp add: prepared_def block_defs fields sample_fields)
  have s: "size_A_of 1 = 1" "size_vec 1 (- 1) = 1"
    by (simp_all add: size_defs)
  show ?thesis
    using testing_spr2_allocated[OF v r]
    by (simp add: sample_arg_fields size_vec_at_min s)
qed


subsection \<open>The local handle\<close>

lemma handle_events_append: "handle_events (xs @ ys) = handle_events xs @ handle_events ys"
  by (induction xs rule: handle_events.induct) simp_all

lemma handle_events_none: "list_all (\<lambda>e. handle_events [e] = []) es \<Longrightarrow> handle_events es = []"
proof (induction es)
  case Nil
  show ?case by simp
next
  case (Cons e es)
  then show ?case using handle_events_append[of "[e]" es] by simp
qed

lemma scoped_handle:
  assumes k: "list_all keeps_handle cs"
    and q: "list_all (emits_only (\<lambda>e. handle_events [e] = [])) cs"
  shows "handle_events (trace (rocblas_local_handle_dtor
            (exec (rocblas_local_handle_ctor w # cs) entry))) =
         [Create_handle (create_handle w 0), Destroy_handle (create_handle w 0)]"
proof -
  let ?s = "rocblas_local_handle_ctor w entry"
  obtain es where es: "trace (exec cs ?s) = trace ?s @ es"
      "list_all (\<lambda>e. handle_events [e] = []) es"
    using emits_only_exec[OF q] unfolding emits_only_def by blast
  have h: "handle (exec cs ?s) = create_handle w 0"
    using keeps_handle_exec[OF k] by (simp add: keeps_handle_def fields)
  have "exec (rocblas_local_handle_ctor w # cs) entry = exec cs ?s"
    by (simp add: fields)
  then show ?thesis
    using es(1) h handle_events_none[OF es(2)]
    by (simp add: fields handle_events_append)
qed

text \<open>In the two test functions the object is constructed once, never copied and never
  written: every run, whether it ends at a return or at the end of the function, creates
  one handle first and destroys that handle last.\<close>

lemma testing_spr2_handle_events:
  "handle_events (trace (testing_spr2 w arg)) =
     [Create_handle (create_handle w 0), Destroy_handle (create_handle w 0)]"
  unfolding testing_spr2_def
  by (rule scoped_handle)
    (simp_all add: block_defs keeps_handle_prims keeps_handle_with_handle keeps_handle_for_loop
      emits_only_prims emits_only_with_handle emits_only_for_loop)

lemma bad_arg_handle_events:
  "handle_events (trace (testing_spr2_bad_arg w arg)) =
     [Create_handle (create_handle w 0), Destroy_handle (create_handle w 0)]"
proof -
  have "bad_arg_body w arg = rocblas_local_handle_ctor w # tl (bad_arg_body w arg)"
    by (simp add: bad_arg_body_def Let_def)
  moreover have "handle_events (trace (rocblas_local_handle_dtor
            (exec (rocblas_local_handle_ctor w # tl (bad_arg_body w arg)) entry))) =
         [Create_handle (create_handle w 0), Destroy_handle (create_handle w 0)]"
    by (rule scoped_handle)
      (simp_all add: bad_arg_body_def Let_def keeps_handle_prims keeps_handle_with_handle
        emits_only_prims emits_only_with_handle)
  ultimately show ?thesis by (simp add: testing_spr2_bad_arg_def)
qed

text \<open>An object that is constructed, converted and read any number of times, and
  destroyed, acquires one handle and releases it once.\<close>

lemma uncopied_local_handle:
  "snd (local_handle_ops w
          (Default_construct a # replicate n (Read_through_conversion a) @ [Destruct a])) =
     [Create_handle (create_handle w 0), Destroy_handle (create_handle w 0)]"
proof -
  have "fold (local_handle_step w) (replicate n (Read_through_conversion a)) st = st" for st
    by (induction n) (cases st, simp)+
  then show ?thesis by (simp add: local_handle_ops_def Let_def)
qed

text \<open>
  Claim C5. The class does not keep what the claim says of every object. It leaves the
  copy operations to the language, so the copy of an object acquires no handle and
  releases the handle of the original, which the original releases again: one
  acquisition and two releases of the same handle. And the conversion to
  \<^verbatim>\<open>rocblas_handle&\<close> lets the member be assigned: the handle acquired is then never
  released, and the one written is released instead. Here both, in the concrete world.
\<close>

theorem copied_local_handle_is_released_twice:
  "snd (local_handle_ops sample_world
          [Default_construct 0, Copy_construct 1 0, Destruct 1, Destruct 0]) =
     [Create_handle 7, Destroy_handle 7, Destroy_handle 7]
   \<and> snd (local_handle_ops sample_world
          [Default_construct 0, Write_through_conversion 0 9, Destruct 0]) =
     [Create_handle 7, Destroy_handle 9]"
  by (simp add: local_handle_ops_def sample_world_fields)


subsection \<open>Printing a \<^verbatim>\<open>double\<close>\<close>

lemma drop_strcspn: "(drop (strcspn s r) s = []) = (set s \<inter> set r = {})"
  by (induction s) auto

lemma take_strcspn: "set s \<inter> set r = {} \<Longrightarrow> take (strcspn s r) s = s"
  by (induction s) auto

text \<open>
  Claim C9. \<^verbatim>\<open>print_value\<close> writes \<^verbatim>\<open>.nan\<close> for a NaN, \<^verbatim>\<open>-.inf\<close> or \<^verbatim>\<open>.inf\<close> for an infinity
  below or not below zero, and otherwise the \<^verbatim>\<open>%.17g\<close> text of the value, followed by
  \<^verbatim>\<open>.0\<close> exactly when that text has none of the characters \<^verbatim>\<open>.\<close>, \<^verbatim>\<open>e\<close>, \<^verbatim>\<open>E\<close>; so what is
  written for a finite value always has one of them. The text is written whole when it
  has at most 29 characters, the room \<^verbatim>\<open>snprintf\<close> is given; \<^verbatim>\<open>%.17g\<close> needs at most 24.
\<close>

theorem print_value_double:
  "(isnan L x \<longrightarrow> print_value L os x = os @ ''.nan'')
   \<and> (\<not> isnan L x \<and> isinf L x \<and> less_zero L x \<longrightarrow> print_value L os x = os @ ''-.inf'')
   \<and> (\<not> isnan L x \<and> isinf L x \<and> \<not> less_zero L x \<longrightarrow> print_value L os x = os @ ''.inf'')
   \<and> (\<not> isnan L x \<and> \<not> isinf L x \<and> length (format_17g L x) \<le> 29 \<longrightarrow>
        print_value L os x =
          os @ format_17g L x @
            (if set (format_17g L x) \<inter> {CHR ''.'', CHR ''e'', CHR ''E''} = {} then ''.0'' else []))
   \<and> (\<not> isnan L x \<and> \<not> isinf L x \<longrightarrow>
        (\<exists>t. print_value L os x = os @ t \<and> set t \<inter> {CHR ''.'', CHR ''e'', CHR ''E''} \<noteq> {}))"
proof -
  let ?s = "snprintf_17g L (32 - 2) x"
  let ?marks = "{CHR ''.'', CHR ''e'', CHR ''E''}"
  have d: "(drop (strcspn ?s ''.eE'') ?s = []) = (set ?s \<inter> ?marks = {})"
    using drop_strcspn[of ?s "''.eE''"] by simp
  have t: "set ?s \<inter> ?marks = {} \<Longrightarrow> take (strcspn ?s ''.eE'') ?s = ?s"
    using take_strcspn[of ?s "''.eE''"] by simp
  have full: "length (format_17g L x) \<le> 29 \<Longrightarrow> ?s = format_17g L x"
    by (simp add: snprintf_17g_def)
  have fin: "\<not> isnan L x \<Longrightarrow> \<not> isinf L x \<Longrightarrow>
      print_value L os x = os @ ?s @ (if set ?s \<inter> ?marks = {} then ''.0'' else [])"
    using d t by (simp add: print_value_def strcpy_at_def Let_def)
  have mark: "set (?s @ (if set ?s \<inter> ?marks = {} then ''.0'' else [])) \<inter> ?marks \<noteq> {}"
    by auto
  show ?thesis
    using fin full mark by (auto simp: print_value_def)
qed

theorem print_value_double_witness:
  "isnan sample_library 1000 \<and> print_value sample_library ''a = '' 1000 = ''a = .nan''
   \<and> isinf sample_library (- 999) \<and> print_value sample_library [] (- 999) = ''-.inf''
   \<and> isinf sample_library 999 \<and> print_value sample_library [] 999 = ''.inf''
   \<and> length (format_17g sample_library 2) \<le> 29 \<and> print_value sample_library [] 2 = ''2.0''
   \<and> print_value sample_library [] 3 = ''1.5''"
  using print_value_double[of sample_library 1000 "''a = ''"]
    print_value_double[of sample_library "- 999" "[]"]
    print_value_double[of sample_library 999 "[]"]
    print_value_double[of sample_library 2 "[]"]
    print_value_double[of sample_library 3 "[]"]
  by (simp add: sample_library_def)


end
